theory Spec2Isabelle
  imports Complex_Main "HOL-Library.AList" "HOL-Library.Sublist"
begin

section \<open>Python values shared by the modules\<close>

text \<open>
  Exceptions the modelled code can raise. \<open>ReadError\<close> stands for any exception of
  \<^verbatim>\<open>pd.read_excel\<close>, whose body is outside the repository; \<open>AttributeError\<close> is what a
  method call on \<^verbatim>\<open>None\<close> raises.
\<close>

datatype error = KeyError | ValueError | ReadError | AttributeError

text \<open>
  A numeric Python value as the code meets it: a spreadsheet cell, an id, a cost or a
  penalty. \<open>NaN\<close> is pandas' missing value (a float NaN); \<open>Num r\<close> is an int or a
  float of value \<open>r\<close>. Python compares ints and floats by value (\<^verbatim>\<open>1 == 1.0\<close>),
  which is equality of \<open>Num\<close>. Floating-point rounding is not modelled.
\<close>

datatype number = NaN | Num real

text \<open>\<^verbatim>\<open>a < b\<close> and \<^verbatim>\<open>a > b\<close>: every comparison with NaN is false.\<close>

fun py_lt :: "number \<Rightarrow> number \<Rightarrow> bool" where
  "py_lt (Num a) (Num b) = (a < b)"
| "py_lt _ _ = False"

definition py_gt :: "number \<Rightarrow> number \<Rightarrow> bool" where
  "py_gt a b = py_lt b a"

text \<open>\<^verbatim>\<open>int(v)\<close>: truncation towards zero; \<^verbatim>\<open>int(float('nan'))\<close> raises ValueError.\<close>

fun py_int :: "number \<Rightarrow> error + number" where
  "py_int NaN = Inl ValueError"
| "py_int (Num r) = Inr (Num (if 0 \<le> r then of_int \<lfloor>r\<rfloor> else of_int \<lceil>r\<rceil>))"

text \<open>\<^verbatim>\<open>float(v)\<close> of a numeric value keeps it, NaN included.\<close>

definition py_float :: "number \<Rightarrow> error + number" where
  "py_float v = Inr v"

text \<open>\<^verbatim>\<open>a + b\<close> on numbers; NaN is absorbing.\<close>

fun py_add :: "number \<Rightarrow> number \<Rightarrow> number" where
  "py_add (Num a) (Num b) = Num (a + b)"
| "py_add _ _ = NaN"

text \<open>Sequencing of computations that may raise: the first exception wins.\<close>

definition bind :: "error + 'a \<Rightarrow> ('a \<Rightarrow> error + 'b) \<Rightarrow> error + 'b" where
  "bind m f = (case m of Inl e \<Rightarrow> Inl e | Inr v \<Rightarrow> f v)"

text \<open>A \<^verbatim>\<open>for\<close> loop whose body updates a state and may raise.\<close>

primrec for_each :: "('a \<Rightarrow> 's \<Rightarrow> error + 's) \<Rightarrow> 'a list \<Rightarrow> 's \<Rightarrow> error + 's" where
  "for_each f [] s = Inr s"
| "for_each f (a # as) s = bind (f a s) (for_each f as)"

text \<open>
  A dict is an association list in insertion order; \<^verbatim>\<open>d[k] = v\<close> is
  \<^const>\<open>AList.update\<close> (an existing key keeps its place, a new one goes last),
  \<^verbatim>\<open>d[k]\<close> raises KeyError on a missing key and \<^verbatim>\<open>d.get(k, default)\<close> does not.
\<close>

definition getitem :: "('k \<times> 'v) list \<Rightarrow> 'k \<Rightarrow> error + 'v" where
  "getitem d k = (case map_of d k of None \<Rightarrow> Inl KeyError | Some v \<Rightarrow> Inr v)"

definition dict_get :: "('k \<times> 'v) list \<Rightarrow> 'k \<Rightarrow> 'v \<Rightarrow> 'v" where
  "dict_get d k dflt = (case map_of d k of None \<Rightarrow> dflt | Some v \<Rightarrow> v)"

section \<open>config.py\<close>

record config =
  solver :: string
  log_level :: string
  data_dir :: string

definition DEFAULT_SOLVER :: string where "DEFAULT_SOLVER = ''SCIP''"
definition DEFAULT_LOG_LEVEL :: string where "DEFAULT_LOG_LEVEL = ''INFO''"
definition DEFAULT_DATA_DIR :: string where "DEFAULT_DATA_DIR = ''data''"

definition valid_solvers :: "string list" where
  "valid_solvers = [''SCIP'', ''CBC'', ''GLOP'']"

definition valid_log_levels :: "string list" where
  "valid_log_levels = [''DEBUG'', ''INFO'', ''WARNING'', ''ERROR'', ''CRITICAL'']"

text \<open>
  \<^verbatim>\<open>Config._validate\<close>. The object is mutated in place; the model returns the new
  configuration together with the warnings sent to the logger, in order.
\<close>

definition validate :: "config \<Rightarrow> config \<times> string list" where
  "validate c =
     (let (c1, w1) =
            (if solver c \<notin> set valid_solvers
             then (c\<lparr>solver := DEFAULT_SOLVER\<rparr>,
                   [''Invalid solver '' @ solver c @ '', defaulting to '' @ DEFAULT_SOLVER])
             else (c, []));
          (c2, w2) =
            (if log_level c1 \<notin> set valid_log_levels
             then (c1\<lparr>log_level := DEFAULT_LOG_LEVEL\<rparr>,
                   [''Invalid log level '' @ log_level c1 @ '', defaulting to '' @ DEFAULT_LOG_LEVEL])
             else (c1, []))
      in (c2, w1 @ w2))"

text \<open>
  \<^verbatim>\<open>Config.__init__\<close>: \<^verbatim>\<open>os.getenv(name, default)\<close> over the process environment,
  given as a dict, then validation.
\<close>

definition init_config :: "(string \<times> string) list \<Rightarrow> config \<times> string list" where
  "init_config env =
     validate \<lparr>solver = dict_get env ''SOLVER'' DEFAULT_SOLVER,
               log_level = dict_get env ''LOG_LEVEL'' DEFAULT_LOG_LEVEL,
               data_dir = dict_get env ''DATA_DIR'' DEFAULT_DATA_DIR\<rparr>"

section \<open>data_loader.py\<close>

text \<open>
  A DataFrame as the code reads it: the column labels and, for \<^verbatim>\<open>iterrows()\<close>, the rows
  in order, each a dict from column label to cell.
\<close>

type_synonym row = "(string \<times> number) list"

record dataframe =
  columns :: "string list"
  rows :: "row list"

text \<open>\<^verbatim>\<open>df[col]\<close>: KeyError when the column is absent; a cell a row lacks reads as NaN.\<close>

definition df_column :: "dataframe \<Rightarrow> string \<Rightarrow> error + number list" where
  "df_column df col =
     (if col \<in> set (columns df) then Inr (map (\<lambda>r. dict_get r col NaN) (rows df))
      else Inl KeyError)"

text \<open>\<^verbatim>\<open>Series.unique()\<close>: the distinct values in order of first appearance.\<close>

fun unique :: "'a list \<Rightarrow> 'a list" where
  "unique [] = []"
| "unique (x # xs) = x # unique (filter (\<lambda>y. y \<noteq> x) xs)"

text \<open>
  \<^verbatim>\<open>sorted(...)\<close>: a stable sort that compares with \<^verbatim>\<open><\<close> only, written as insertion
  from the left. On a list without NaN this is the ascending order, as in Python. On a list
  with NaN, where \<^verbatim>\<open><\<close> is no order, Python's result depends on the comparisons its
  sort happens to make and can differ from this one; nothing below is stated for such ids.
\<close>

fun insort_py :: "number \<Rightarrow> number list \<Rightarrow> number list" where
  "insort_py x [] = [x]"
| "insort_py x (y # ys) = (if py_lt x y then x # y # ys else y # insort_py x ys)"

definition py_sorted :: "number list \<Rightarrow> number list" where
  "py_sorted xs = foldl (\<lambda>acc x. insort_py x acc) [] xs"

text \<open>The dict \<^verbatim>\<open>data\<close> that \<^verbatim>\<open>load_data\<close> returns and \<^verbatim>\<open>create_model\<close> reads.\<close>

record data =
  mechanic_skills_df :: dataframe
  mechanics :: "number list"
  base_schedule_df :: dataframe
  bases :: "number list"
  periods :: "number list"
  shifts :: "number list"
  cost_matrix_df :: dataframe
  cost_dict :: "((number \<times> number) \<times> number) list"
  base_column_mapping :: "(string \<times> number) list"
  avoidance_dict :: "((number \<times> number) \<times> number) list"

definition the_base_column_mapping :: "(string \<times> number) list" where
  "the_base_column_mapping = [(''A'', Num 1), (''B'', Num 2), (''C'', Num 3)]"

text \<open>The body of the cost-matrix loop for one row.\<close>

definition cost_row ::
  "string list \<Rightarrow> row \<Rightarrow> ((number \<times> number) \<times> number) list
     \<Rightarrow> error + ((number \<times> number) \<times> number) list" where
  "cost_row cols row cd =
     bind (getitem row ''id'') (\<lambda>c.
     bind (py_int c) (\<lambda>mechanic_id.
       for_each (\<lambda>(col, base_id) cd'.
           if col \<in> set cols
           then bind (getitem row col) (\<lambda>v.
                bind (py_float v) (\<lambda>cost. Inr (AList.update (mechanic_id, base_id) cost cd')))
           else Inr cd')
         the_base_column_mapping cd))"

text \<open>
  One row of the avoidance list: the three conversions, each of which may raise, and then
  the two insertions, which cannot.
\<close>

definition parse_avoidance_row :: "row \<Rightarrow> error + (number \<times> number \<times> number)" where
  "parse_avoidance_row row =
     bind (getitem row ''mechanic_id'') (\<lambda>c1.
     bind (py_int c1) (\<lambda>m1.
     bind (getitem row ''avoid_mechanic_id'') (\<lambda>c2.
     bind (py_int c2) (\<lambda>m2.
     bind (getitem row ''penalty'') (\<lambda>c3.
     bind (py_float c3) (\<lambda>penalty. Inr (m1, m2, penalty)))))))"

definition insert_avoidance ::
  "((number \<times> number) \<times> number) list \<Rightarrow> number \<times> number \<times> number
     \<Rightarrow> ((number \<times> number) \<times> number) list" where
  "insert_avoidance ad t =
     (case t of (m1, m2, penalty) \<Rightarrow>
        AList.update (m2, m1) penalty (AList.update (m1, m2) penalty ad))"

text \<open>
  The loop inside \<^verbatim>\<open>try\<close>: the dict is mutated in place, so when a row raises, the
  entries of the rows before it are still there. The result is the dict as the loop left
  it and the exception, if any.
\<close>

primrec avoidance_rows ::
  "row list \<Rightarrow> ((number \<times> number) \<times> number) list
     \<Rightarrow> ((number \<times> number) \<times> number) list \<times> error option" where
  "avoidance_rows [] ad = (ad, None)"
| "avoidance_rows (row # rest) ad =
     (case parse_avoidance_row row of
        Inl e \<Rightarrow> (ad, Some e)
      | Inr t \<Rightarrow> avoidance_rows rest (insert_avoidance ad t))"

text \<open>
  The record logged by \<^verbatim>\<open>logger.warning(f"Could not load avoidance list: {e}")\<close>: the
  fixed text and the exception whose \<^verbatim>\<open>str\<close> the code appends to it. The exception is kept
  as it is, not rendered.
\<close>

type_synonym warning = "string \<times> error"

definition could_not_load :: "error \<Rightarrow> warning" where
  "could_not_load e = (''Could not load avoidance list: '', e)"

text \<open>
  The optional avoidance block of \<^verbatim>\<open>load_data\<close>. A file argument is given by what
  \<^verbatim>\<open>pd.read_excel\<close> does on it: a DataFrame or an exception. The result is the
  dict stored under \<^verbatim>\<open>avoidance_dict\<close> and the warnings logged.
\<close>

definition load_avoidance ::
  "(error + dataframe) option \<Rightarrow> ((number \<times> number) \<times> number) list \<times> warning list" where
  "load_avoidance avoidance_list_file =
     (case avoidance_list_file of
        None \<Rightarrow> ([], [])
      | Some (Inl e) \<Rightarrow> ([], [could_not_load e])
      | Some (Inr avoidance_df) \<Rightarrow>
          (case avoidance_rows (rows avoidance_df) [] of
             (ad, None) \<Rightarrow> (ad, [])
           | (ad, Some e) \<Rightarrow> (ad, [could_not_load e])))"

text \<open>
  \<^verbatim>\<open>DataLoader.load_data\<close>. It returns the data and the warnings logged; an exception
  outside the \<^verbatim>\<open>try\<close> block propagates. Messages at level INFO are left out.
\<close>

definition load_data ::
  "error + dataframe \<Rightarrow> error + dataframe \<Rightarrow> error + dataframe \<Rightarrow> (error + dataframe) option
     \<Rightarrow> error + (data \<times> warning list)" where
  "load_data mechanic_skills_file base_schedule_file cost_matrix_file avoidance_list_file =
     bind mechanic_skills_file (\<lambda>skills_df.
     bind (df_column skills_df ''mechanic_id'') (\<lambda>ids.
     bind base_schedule_file (\<lambda>schedule_df.
     bind (df_column schedule_df ''base_id'') (\<lambda>bs.
     bind (df_column schedule_df ''period'') (\<lambda>ps.
     bind (df_column schedule_df ''shift'') (\<lambda>ss.
     bind cost_matrix_file (\<lambda>cost_df.
     bind (for_each (cost_row (columns cost_df)) (rows cost_df) []) (\<lambda>cd.
       case load_avoidance avoidance_list_file of (ad, warnings) \<Rightarrow>
         Inr (\<lparr>mechanic_skills_df = skills_df,
               mechanics = py_sorted (unique ids),
               base_schedule_df = schedule_df,
               bases = py_sorted (unique bs),
               periods = py_sorted (unique ps),
               shifts = py_sorted (unique ss),
               cost_matrix_df = cost_df,
               cost_dict = cd,
               base_column_mapping = the_base_column_mapping,
               avoidance_dict = ad\<rparr>, warnings)))))))))"

section \<open>optimizer.py: the solver interface\<close>

text \<open>
  What the code uses of \<^verbatim>\<open>pywraplp.Solver\<close>: variables and rows are created in order
  and never removed. A variable is referred to by its index, the number of variables made
  before it. The names, f-strings in the source, are kept as their fields.
\<close>

datatype bound = MinusInfinity | Finite real | Infinity

datatype name =
    X_name number number number number
  | Y_avoid_name number number number number number
  | Single_assignment_name number
  | Skill_name string number number number
  | Inspector_name string number number number
  | No_self_inspect_name string number number number number
  | Avoid_y_le_x1_name number number number number number
  | Avoid_y_le_x2_name number number number number number
  | Avoid_y_ge_sum_name number number number number number

record variable =
  var_lb :: real
  var_ub :: real
  var_integer :: bool
  var_name :: name

record constraint =
  con_lb :: bound
  con_ub :: bound
  con_name :: name
  coefficients :: "(nat \<times> real) list"

record mpsolver =
  variables :: "variable list"
  constraints :: "constraint list"
  objective :: "(nat \<times> number) list"
  minimization :: bool

definition new_solver :: mpsolver where
  "new_solver = \<lparr>variables = [], constraints = [], objective = [], minimization = False\<rparr>"

text \<open>\<^verbatim>\<open>solver.IntVar(lb, ub, name)\<close>: the new variable and the solver holding it.\<close>

definition IntVar :: "real \<Rightarrow> real \<Rightarrow> name \<Rightarrow> mpsolver \<Rightarrow> nat \<times> mpsolver" where
  "IntVar lb ub nm sv =
     (length (variables sv),
      sv\<lparr>variables := variables sv
            @ [\<lparr>var_lb = lb, var_ub = ub, var_integer = True, var_name = nm\<rparr>]\<rparr>)"

text \<open>
  \<^verbatim>\<open>solver.Constraint(lb, ub, name)\<close> makes a row without coefficients and registers it
  as the solver's last row; \<^verbatim>\<open>SetCoefficient\<close> then fills it in place. Nothing reads the
  solver before the row is complete, so the model completes the row and registers it then
  (\<open>add_constraints\<close>), in the order in which the rows were made.
\<close>

definition Constraint :: "bound \<Rightarrow> bound \<Rightarrow> name \<Rightarrow> constraint" where
  "Constraint lb ub nm = \<lparr>con_lb = lb, con_ub = ub, con_name = nm, coefficients = []\<rparr>"

definition SetCoefficient :: "nat \<Rightarrow> real \<Rightarrow> constraint \<Rightarrow> constraint" where
  "SetCoefficient v k c = c\<lparr>coefficients := AList.update v k (coefficients c)\<rparr>"

definition add_constraints :: "constraint list \<Rightarrow> mpsolver \<Rightarrow> mpsolver" where
  "add_constraints cs sv = sv\<lparr>constraints := constraints sv @ cs\<rparr>"

text \<open>\<^verbatim>\<open>objective.SetCoefficient(var, coeff)\<close>.\<close>

definition SetObjectiveCoefficient :: "nat \<Rightarrow> number \<Rightarrow> mpsolver \<Rightarrow> mpsolver" where
  "SetObjectiveCoefficient v k sv = sv\<lparr>objective := AList.update v k (objective sv)\<rparr>"

text \<open>A coefficient that was never set is 0.\<close>

definition coefficient :: "constraint \<Rightarrow> nat \<Rightarrow> real" where
  "coefficient c v = dict_get (coefficients c) v 0"

definition objective_coefficient :: "mpsolver \<Rightarrow> nat \<Rightarrow> number" where
  "objective_coefficient sv v = dict_get (objective sv) v (Num 0)"

text \<open>
  What the rows mean: a row holds at a valuation of the variables when its linear form
  lies within its bounds; a valuation is feasible when every row holds and every variable
  is within its bounds and, being an integer variable, integral.
\<close>

definition activity :: "constraint \<Rightarrow> (nat \<Rightarrow> real) \<Rightarrow> real" where
  "activity c val = sum_list (map (\<lambda>(v, k). k * val v) (coefficients c))"

fun above :: "bound \<Rightarrow> real \<Rightarrow> bool" where
  "above MinusInfinity r = True"
| "above (Finite a) r = (a \<le> r)"
| "above Infinity r = False"

fun below :: "bound \<Rightarrow> real \<Rightarrow> bool" where
  "below MinusInfinity r = False"
| "below (Finite a) r = (r \<le> a)"
| "below Infinity r = True"

definition satisfies :: "(nat \<Rightarrow> real) \<Rightarrow> constraint \<Rightarrow> bool" where
  "satisfies val c = (above (con_lb c) (activity c val) \<and> below (con_ub c) (activity c val))"

definition in_domain :: "(nat \<Rightarrow> real) \<Rightarrow> variable list \<Rightarrow> nat \<Rightarrow> bool" where
  "in_domain val vs i =
     (var_lb (vs ! i) \<le> val i \<and> val i \<le> var_ub (vs ! i)
      \<and> (if var_integer (vs ! i) then of_int \<lfloor>val i\<rfloor> = val i else True))"

definition feasible :: "mpsolver \<Rightarrow> (nat \<Rightarrow> real) \<Rightarrow> bool" where
  "feasible sv val =
     (list_all (satisfies val) (constraints sv)
      \<and> list_all (in_domain val (variables sv)) [0..<length (variables sv)])"

section \<open>optimizer.py: create\_model\<close>

type_synonym xdict = "((number \<times> number \<times> number \<times> number) \<times> nat) list"
type_synonym ydict = "((number \<times> number \<times> number \<times> number \<times> number) \<times> nat) list"
type_synonym skills = "(number \<times> (string \<times> number) list) list"

text \<open>
  A sequence of loop iterations each of which makes some rows and may raise: the rows in
  the order made, or the first exception.
\<close>

primrec collect :: "('a \<Rightarrow> error + 'b list) \<Rightarrow> 'a list \<Rightarrow> error + 'b list" where
  "collect g [] = Inr []"
| "collect g (a # as) = bind (g a) (\<lambda>bs. bind (collect g as) (\<lambda>cs. Inr (bs @ cs)))"

text \<open>The nest \<^verbatim>\<open>for b in bases: for g in periods: for s in shifts\<close>.\<close>

definition slots :: "data \<Rightarrow> (number \<times> number \<times> number) list" where
  "slots d = List.product (bases d) (List.product (periods d) (shifts d))"

text \<open>
  A loop \<^verbatim>\<open>for key in keys: vars[key] = solver.IntVar(0, 1, name)\<close>: the solver with the
  new variables and the dict of their indices.
\<close>

definition make_vars ::
  "('k \<Rightarrow> name) \<Rightarrow> 'k list \<Rightarrow> mpsolver \<Rightarrow> mpsolver \<times> ('k \<times> nat) list" where
  "make_vars nm keys sv0 =
     fold (\<lambda>key (sv, vars).
             case IntVar 0 1 (nm key) sv of (v, sv') \<Rightarrow> (sv', AList.update key v vars))
          keys (sv0, [])"

text \<open>Decision variables \<^verbatim>\<open>x[(m, b, g, s)]\<close>.\<close>

definition x_var_name :: "number \<times> number \<times> number \<times> number \<Rightarrow> name" where
  "x_var_name key = (case key of (m, b, g, s) \<Rightarrow> X_name m b g s)"

definition create_x_vars :: "data \<Rightarrow> mpsolver \<Rightarrow> mpsolver \<times> xdict" where
  "create_x_vars d sv0 = make_vars x_var_name (List.product (mechanics d) (slots d)) sv0"

text \<open>A run of \<^verbatim>\<open>constraint.SetCoefficient(x[key], k)\<close> over keys.\<close>

definition set_coefficients ::
  "xdict \<Rightarrow> (number \<times> number \<times> number \<times> number) list \<Rightarrow> real \<Rightarrow> constraint
     \<Rightarrow> error + constraint" where
  "set_coefficients x keys k c0 =
     for_each (\<lambda>key c. bind (getitem x key) (\<lambda>v. Inr (SetCoefficient v k c))) keys c0"

text \<open>Constraint 1: each mechanic has at most one assignment.\<close>

definition single_assignment_constraints :: "data \<Rightarrow> xdict \<Rightarrow> error + constraint list" where
  "single_assignment_constraints d x =
     collect (\<lambda>m.
         bind (set_coefficients x (map (\<lambda>(b, g, s). (m, b, g, s)) (slots d)) 1
                 (Constraint (Finite 0) (Finite 1) (Single_assignment_name m)))
           (\<lambda>c. Inr [c]))
       (mechanics d)"

definition aircraft_types :: "string list" where
  "aircraft_types = [''aw139'', ''h175'', ''sk92'']"

definition skill_types :: "string list" where
  "skill_types = [''_af'', ''_r'', ''_av'']"

text \<open>
  The skill dicts of one row of the skills table: for each aircraft and skill, the regular
  column and the inspector column, each read when the table has it.
\<close>

definition read_skills ::
  "string list \<Rightarrow> row \<Rightarrow> error + ((string \<times> number) list \<times> (string \<times> number) list)" where
  "read_skills cols row =
     for_each (\<lambda>(aircraft, skill) (reg, ins).
         bind (let col_name = aircraft @ skill in
               if col_name \<in> set cols
               then bind (getitem row col_name) (\<lambda>c.
                    bind (py_int c) (\<lambda>v. Inr (AList.update col_name v reg)))
               else Inr reg) (\<lambda>reg'.
         bind (let inspector_col_name = aircraft @ skill @ ''_inspec'' in
               if inspector_col_name \<in> set cols
               then bind (getitem row inspector_col_name) (\<lambda>c.
                    bind (py_int c) (\<lambda>v. Inr (AList.update inspector_col_name v ins)))
               else Inr ins) (\<lambda>ins'.
           Inr (reg', ins'))))
       (List.product aircraft_types skill_types) ([], [])"

text \<open>\<^verbatim>\<open>mechanic_skills\<close> and \<^verbatim>\<open>mechanic_inspector_skills\<close>.\<close>

definition build_skills :: "dataframe \<Rightarrow> error + (skills \<times> skills)" where
  "build_skills df =
     for_each (\<lambda>row (ms, mis).
         bind (getitem row ''mechanic_id'') (\<lambda>c.
         bind (py_int c) (\<lambda>m.
         bind (read_skills (columns df) row) (\<lambda>(reg, ins).
           Inr (AList.update m reg ms, AList.update m ins mis)))))
       (rows df) ([], [])"

text \<open>\<^verbatim>\<open>table[m].get(col, 0) == 1\<close>; the outer lookup raises on an unknown mechanic.\<close>

definition has_skill :: "skills \<Rightarrow> number \<Rightarrow> string \<Rightarrow> error + bool" where
  "has_skill tbl m col = bind (getitem tbl m) (\<lambda>sk. Inr (dict_get sk col (Num 0) = Num 1))"

text \<open>The slot of a schedule row.\<close>

definition row_slot :: "row \<Rightarrow> error + (number \<times> number \<times> number)" where
  "row_slot row =
     bind (getitem row ''base_id'') (\<lambda>c1.
     bind (py_int c1) (\<lambda>base_id.
     bind (getitem row ''period'') (\<lambda>c2.
     bind (py_int c2) (\<lambda>period.
     bind (getitem row ''shift'') (\<lambda>c3.
     bind (py_int c3) (\<lambda>shift. Inr (base_id, period, shift)))))))"

text \<open>
  A coverage row (constraints 2 and 3 share the loop): lower bound 1, no upper bound, and
  coefficient 1 on the slot's variable of every mechanic who has the skill in the table.
\<close>

definition coverage_constraint ::
  "data \<Rightarrow> xdict \<Rightarrow> skills \<Rightarrow> string \<Rightarrow> number \<times> number \<times> number \<Rightarrow> name
     \<Rightarrow> error + constraint" where
  "coverage_constraint d x tbl col slot nm =
     for_each (\<lambda>m c.
         bind (has_skill tbl m col) (\<lambda>h.
           if h then bind (getitem x (m, slot)) (\<lambda>v. Inr (SetCoefficient v 1 c))
           else Inr c))
       (mechanics d) (Constraint (Finite 1) Infinity nm)"

text \<open>\<^verbatim>\<open>aircraft in base_schedule_df.columns and row[aircraft] > 0\<close>.\<close>

definition aircraft_active :: "string list \<Rightarrow> row \<Rightarrow> string \<Rightarrow> error + bool" where
  "aircraft_active cols row aircraft =
     (if aircraft \<in> set cols
      then bind (getitem row aircraft) (\<lambda>cnt. Inr (py_gt cnt (Num 0)))
      else Inr False)"

text \<open>Constraint 2: skill coverage.\<close>

definition skill_coverage_constraints ::
  "data \<Rightarrow> xdict \<Rightarrow> skills \<Rightarrow> error + constraint list" where
  "skill_coverage_constraints d x ms =
     collect (\<lambda>row.
         bind (row_slot row) (\<lambda>(base_id, period, shift).
           collect (\<lambda>aircraft.
               bind (aircraft_active (columns (base_schedule_df d)) row aircraft) (\<lambda>active.
                 if active
                 then collect (\<lambda>skill.
                          bind (coverage_constraint d x ms (aircraft @ skill)
                                  (base_id, period, shift)
                                  (Skill_name (aircraft @ skill) base_id period shift))
                            (\<lambda>c. Inr [c]))
                        skill_types
                 else Inr []))
             aircraft_types))
       (rows (base_schedule_df d))"

text \<open>\<^verbatim>\<open>col.endswith("_inspec")\<close> and the columns it selects.\<close>

definition endswith :: "string \<Rightarrow> string \<Rightarrow> bool" where
  "endswith s suf =
     (length suf \<le> length s \<and> drop (length s - length suf) s = suf)"

definition inspector_req_columns :: "dataframe \<Rightarrow> string list" where
  "inspector_req_columns df = filter (\<lambda>col. endswith col ''_inspec'') (columns df)"

text \<open>
  \<^verbatim>\<open>inspector_col in columns\<close>, then
  \<^verbatim>\<open>pd.notna(inspector_required) and inspector_required > 0\<close>.
\<close>

definition inspector_active :: "string list \<Rightarrow> row \<Rightarrow> string \<Rightarrow> error + bool" where
  "inspector_active cols row inspector_col =
     (if inspector_col \<in> set cols
      then bind (getitem row inspector_col) (\<lambda>inspector_required.
             Inr (inspector_required \<noteq> NaN \<and> py_gt inspector_required (Num 0)))
      else Inr False)"

text \<open>Constraint 3: inspector coverage.\<close>

definition inspector_coverage_constraints ::
  "data \<Rightarrow> xdict \<Rightarrow> skills \<Rightarrow> string list \<Rightarrow> error + constraint list" where
  "inspector_coverage_constraints d x mis irc =
     (if irc \<noteq> []
      then collect (\<lambda>row.
               bind (row_slot row) (\<lambda>(base_id, period, shift).
                 collect (\<lambda>inspector_col.
                     bind (inspector_active (columns (base_schedule_df d)) row inspector_col)
                       (\<lambda>active.
                          if active
                          then bind (coverage_constraint d x mis inspector_col
                                       (base_id, period, shift)
                                       (Inspector_name inspector_col base_id period shift))
                                 (\<lambda>c. Inr [c])
                          else Inr []))
                   irc))
             (rows (base_schedule_df d))
      else Inr [])"

text \<open>\<^verbatim>\<open>inspector_col.replace("_inspec", "")\<close>: every occurrence goes, left to right.\<close>

function replace_inspec :: "string \<Rightarrow> string" where
  "replace_inspec s =
     (if s = [] then []
      else if take 7 s = ''_inspec'' then replace_inspec (drop 7 s)
      else hd s # replace_inspec (tl s))"
  by pat_completeness auto
termination
  by (relation "measure length") auto

declare replace_inspec.simps [simp del]

text \<open>
  The list comprehension \<^verbatim>\<open>other_mechanics_with_skill\<close>; the skill table is read only
  for a mechanic other than the inspector.
\<close>

definition other_mechanics_with_skill ::
  "data \<Rightarrow> skills \<Rightarrow> string \<Rightarrow> number \<Rightarrow> error + number list" where
  "other_mechanics_with_skill d ms regular_skill_name m_inspector =
     for_each (\<lambda>m acc.
         if m \<noteq> m_inspector
         then bind (has_skill ms m regular_skill_name) (\<lambda>h. Inr (if h then acc @ [m] else acc))
         else Inr acc)
       (mechanics d) []"

text \<open>Constraint 4: no self-inspection.\<close>

definition no_self_inspection_constraints ::
  "data \<Rightarrow> xdict \<Rightarrow> skills \<Rightarrow> skills \<Rightarrow> string list \<Rightarrow> error + constraint list" where
  "no_self_inspection_constraints d x ms mis irc =
     (if irc \<noteq> []
      then collect (\<lambda>row.
               bind (row_slot row) (\<lambda>(base_id, period, shift).
                 collect (\<lambda>inspector_col.
                     bind (inspector_active (columns (base_schedule_df d)) row inspector_col)
                       (\<lambda>active.
                          if active
                          then collect (\<lambda>m_inspector.
                                   bind (has_skill mis m_inspector inspector_col) (\<lambda>h.
                                     if h
                                     then bind (other_mechanics_with_skill d ms
                                                  (replace_inspec inspector_col) m_inspector)
                                            (\<lambda>others.
                                               if others \<noteq> []
                                               then bind (getitem x (m_inspector, base_id, period, shift))
                                                      (\<lambda>v.
                                                    bind (set_coefficients x
                                                            (map (\<lambda>m_other. (m_other, base_id, period, shift)) others)
                                                            (- 1)
                                                            (SetCoefficient v 1
                                                               (Constraint MinusInfinity (Finite 0)
                                                                  (No_self_inspect_name inspector_col
                                                                     base_id period shift m_inspector))))
                                                      (\<lambda>c. Inr [c]))
                                               else Inr [])
                                     else Inr []))
                                 (mechanics d)
                          else Inr []))
                   irc))
             (rows (base_schedule_df d))
      else Inr [])"

text \<open>
  \<^verbatim>\<open>unique_pairs\<close>: the keys with \<^verbatim>\<open>m1 < m2\<close>, as a set. Python fixes no iteration
  order for a set; the model takes the order of the dict, and nothing proved below
  depends on it.
\<close>

definition unique_pairs :: "((number \<times> number) \<times> number) list \<Rightarrow> (number \<times> number) list" where
  "unique_pairs ad = remdups (filter (\<lambda>(m1, m2). py_lt m1 m2) (map fst ad))"

text \<open>The keys of the loops over pairs and slots, under \<^verbatim>\<open>if avoidance_dict\<close>.\<close>

definition avoidance_keys ::
  "data \<Rightarrow> (number \<times> number \<times> number \<times> number \<times> number) list" where
  "avoidance_keys d =
     (if avoidance_dict d \<noteq> []
      then concat (map (\<lambda>(m1, m2). map (\<lambda>(b, g, s). (m1, m2, b, g, s)) (slots d))
                    (unique_pairs (avoidance_dict d)))
      else [])"

text \<open>Avoidance variables \<^verbatim>\<open>avoidance_vars[(m1, m2, b, g, s)]\<close>.\<close>

definition y_var_name :: "number \<times> number \<times> number \<times> number \<times> number \<Rightarrow> name" where
  "y_var_name key = (case key of (m1, m2, b, g, s) \<Rightarrow> Y_avoid_name m1 m2 b g s)"

definition create_avoidance_vars :: "data \<Rightarrow> mpsolver \<Rightarrow> mpsolver \<times> ydict" where
  "create_avoidance_vars d sv0 = make_vars y_var_name (avoidance_keys d) sv0"

text \<open>The three linearization rows of every pair and slot.\<close>

definition linearization_constraints :: "data \<Rightarrow> xdict \<Rightarrow> ydict \<Rightarrow> error + constraint list" where
  "linearization_constraints d x av =
     collect (\<lambda>(m1, m2, b, g, s).
         bind (getitem av (m1, m2, b, g, s)) (\<lambda>y_var.
         bind (getitem x (m1, b, g, s)) (\<lambda>x1.
         bind (getitem x (m2, b, g, s)) (\<lambda>x2.
           Inr [SetCoefficient x1 (- 1) (SetCoefficient y_var 1
                  (Constraint MinusInfinity (Finite 0) (Avoid_y_le_x1_name m1 m2 b g s))),
                SetCoefficient x2 (- 1) (SetCoefficient y_var 1
                  (Constraint MinusInfinity (Finite 0) (Avoid_y_le_x2_name m1 m2 b g s))),
                SetCoefficient x2 1 (SetCoefficient x1 1 (SetCoefficient y_var (- 1)
                  (Constraint (Finite (- 1)) Infinity (Avoid_y_ge_sum_name m1 m2 b g s))))]))))
       (avoidance_keys d)"

text \<open>Objective: movement costs, \<^verbatim>\<open>cost_dict.get((m, b), 0)\<close> on every \<open>x[(m, b, g, s)]\<close>.\<close>

definition movement_costs :: "data \<Rightarrow> xdict \<Rightarrow> mpsolver \<Rightarrow> error + mpsolver" where
  "movement_costs d x sv0 =
     for_each (\<lambda>(m, b, g, s) sv.
         bind (getitem x (m, b, g, s)) (\<lambda>v.
           Inr (SetObjectiveCoefficient v (dict_get (cost_dict d) (m, b) (Num 0)) sv)))
       (List.product (mechanics d) (slots d)) sv0"

text \<open>Objective: avoidance penalties.\<close>

definition avoidance_penalties :: "data \<Rightarrow> ydict \<Rightarrow> mpsolver \<Rightarrow> error + mpsolver" where
  "avoidance_penalties d av sv0 =
     (if avoidance_dict d \<noteq> [] \<and> av \<noteq> []
      then for_each (\<lambda>(m1, m2) sv.
               bind (getitem (avoidance_dict d) (m1, m2)) (\<lambda>penalty.
                 for_each (\<lambda>(b, g, s) sv'.
                     case map_of av (m1, m2, b, g, s) of
                       Some y_var \<Rightarrow> Inr (SetObjectiveCoefficient y_var penalty sv')
                     | None \<Rightarrow> Inr sv')
                   (slots d) sv))
             (unique_pairs (avoidance_dict d)) sv0
      else Inr sv0)"

text \<open>
  The state of a \<^verbatim>\<open>RosterOptimizer\<close>; every attribute but the solver's name starts as
  \<^verbatim>\<open>None\<close>.
\<close>

record optimizer =
  solver_name :: string
  self_solver :: "mpsolver option"
  self_x :: "xdict option"
  self_mechanic_skills :: "skills option"
  self_mechanic_inspector_skills :: "skills option"
  self_inspector_req_columns :: "string list option"
  self_avoidance_vars :: "ydict option"

definition init_optimizer :: "string \<Rightarrow> optimizer" where
  "init_optimizer nm =
     \<lparr>solver_name = nm, self_solver = None, self_x = None, self_mechanic_skills = None,
      self_mechanic_inspector_skills = None, self_inspector_req_columns = None,
      self_avoidance_vars = None\<rparr>"

text \<open>
  \<^verbatim>\<open>pywraplp.Solver.CreateSolver(name)\<close>: a new, empty solver, or \<^verbatim>\<open>None\<close> when the
  backend of that name is not available. Which backends are available depends on the
  installation, so their names are a parameter.
\<close>

definition CreateSolver :: "string list \<Rightarrow> string \<Rightarrow> mpsolver option" where
  "CreateSolver backends nm = (if nm \<in> set backends then Some new_solver else None)"

text \<open>
  \<^verbatim>\<open>create_model\<close> from the creation of the decision variables on, given the solver. The
  attributes are assigned at the very end, so an exception leaves them as they were; the
  tuple returned holds the same six values.
\<close>

definition create_model_body :: "mpsolver \<Rightarrow> optimizer \<Rightarrow> data \<Rightarrow> error + optimizer" where
  "create_model_body slv self d =
     (case create_x_vars d slv of (sv0, x) \<Rightarrow>
      bind (single_assignment_constraints d x) (\<lambda>c1.
      bind (build_skills (mechanic_skills_df d)) (\<lambda>(mechanic_skills, mechanic_inspector_skills).
      bind (skill_coverage_constraints d x mechanic_skills) (\<lambda>c2.
      bind (inspector_coverage_constraints d x mechanic_inspector_skills
              (inspector_req_columns (base_schedule_df d))) (\<lambda>c3.
      bind (no_self_inspection_constraints d x mechanic_skills mechanic_inspector_skills
              (inspector_req_columns (base_schedule_df d))) (\<lambda>c4.
      case create_avoidance_vars d (add_constraints (c1 @ c2 @ c3 @ c4) sv0) of
        (sv1, avoidance_vars) \<Rightarrow>
      bind (linearization_constraints d x avoidance_vars) (\<lambda>c5.
      bind (movement_costs d x (add_constraints c5 sv1)) (\<lambda>sv2.
      bind (avoidance_penalties d avoidance_vars sv2) (\<lambda>sv3.
        Inr (self\<lparr>self_solver := Some (sv3\<lparr>minimization := True\<rparr>),
                  self_x := Some x,
                  self_mechanic_skills := Some mechanic_skills,
                  self_mechanic_inspector_skills := Some mechanic_inspector_skills,
                  self_inspector_req_columns := Some (inspector_req_columns (base_schedule_df d)),
                  self_avoidance_vars := Some avoidance_vars\<rparr>))))))))))"

text \<open>
  The same code when \<^verbatim>\<open>solver\<close> is \<^verbatim>\<open>None\<close>: the exception it raises. The first method
  call on the solver raises AttributeError, unless the data raise before it. With a
  mechanic, that call is \<^verbatim>\<open>solver.IntVar\<close> or, without slots, the \<^verbatim>\<open>solver.Constraint\<close>
  of constraint 1. Without mechanics the loops over them are empty: the skills table is
  read, then the schedule rows, where \<^verbatim>\<open>solver.Constraint\<close> is reached at the first
  active aircraft (constraint 2) or active inspector column (constraint 3); constraint 4
  makes no row; and \<^verbatim>\<open>solver.IntVar\<close> of an avoidance variable or, at the latest,
  \<^verbatim>\<open>solver.Objective()\<close> raises.
\<close>

definition create_model_no_solver :: "data \<Rightarrow> error" where
  "create_model_no_solver d =
     (if mechanics d \<noteq> [] then AttributeError
      else
        case
          bind (build_skills (mechanic_skills_df d)) (\<lambda>(mechanic_skills, mechanic_inspector_skills).
          bind (for_each (\<lambda>row u.
                    bind (row_slot row) (\<lambda>slot.
                      for_each (\<lambda>aircraft u.
                          bind (aircraft_active (columns (base_schedule_df d)) row aircraft)
                            (\<lambda>active. if active then Inl AttributeError else Inr u))
                        aircraft_types u))
                  (rows (base_schedule_df d)) ()) (\<lambda>u.
          bind (if inspector_req_columns (base_schedule_df d) \<noteq> []
                then for_each (\<lambda>row u.
                         bind (row_slot row) (\<lambda>slot.
                           for_each (\<lambda>inspector_col u.
                               bind (inspector_active (columns (base_schedule_df d)) row inspector_col)
                                 (\<lambda>active. if active then Inl AttributeError else Inr u))
                             (inspector_req_columns (base_schedule_df d)) u))
                       (rows (base_schedule_df d)) ()
                else Inr ()) (\<lambda>u.
          bind (no_self_inspection_constraints d [] mechanic_skills mechanic_inspector_skills
                  (inspector_req_columns (base_schedule_df d))) (\<lambda>c4.
            Inl AttributeError))))
        of Inl e \<Rightarrow> e | Inr (u :: unit) \<Rightarrow> AttributeError)"

text \<open>
  \<^verbatim>\<open>RosterOptimizer.create_model\<close>. When \<^verbatim>\<open>CreateSolver(self.solver_name)\<close> gives no
  solver the code takes \<^verbatim>\<open>CreateSolver("CBC")\<close> instead and sets \<^verbatim>\<open>self.solver_name\<close> to
  \<^verbatim>\<open>"CBC"\<close>, whether or not that gave one. The result is the optimizer with its
  attributes assigned, or the exception raised together with the optimizer as the call
  left it. Log messages are left out.
\<close>

definition create_model ::
  "string list \<Rightarrow> optimizer \<Rightarrow> data \<Rightarrow> (error \<times> optimizer) + optimizer" where
  "create_model backends self d =
     (case (case CreateSolver backends (solver_name self) of
              Some slv \<Rightarrow> (Some slv, self)
            | None \<Rightarrow> (CreateSolver backends ''CBC'', self\<lparr>solver_name := ''CBC''\<rparr>)) of
        (None, self') \<Rightarrow> Inl (create_model_no_solver d, self')
      | (Some slv, self') \<Rightarrow>
          (case create_model_body slv self' d of
             Inl e \<Rightarrow> Inl (e, self')
           | Inr M \<Rightarrow> Inr M))"

section \<open>optimizer.py: extract\_solution\<close>

record assignment =
  mechanic_id :: number
  base_id :: number
  group :: number
  shift :: number
  shift_name :: string
  cost :: number

text \<open>The test \<^verbatim>\<open>solution_value() > 0.5\<close>.\<close>

definition selected :: "real \<Rightarrow> bool" where
  "selected r = (r > 0.5)"

text \<open>The dict appended for a chosen key.\<close>

definition record_of ::
  "((number \<times> number) \<times> number) list \<Rightarrow> number \<times> number \<times> number \<times> number
     \<Rightarrow> assignment" where
  "record_of cd key =
     (case key of (m, b, g, s) \<Rightarrow>
        \<lparr>mechanic_id = m, base_id = b, group = g, shift = s,
         shift_name = (if s = Num 1 then ''Day'' else ''Night''),
         cost = dict_get cd (m, b) (Num 0)\<rparr>)"

text \<open>The body of the innermost loop, on the list of assignments and the running total.\<close>

definition extract_step ::
  "xdict \<Rightarrow> (nat \<Rightarrow> real) \<Rightarrow> ((number \<times> number) \<times> number) list
     \<Rightarrow> number \<times> number \<times> number \<times> number \<Rightarrow> assignment list \<times> number
     \<Rightarrow> error + (assignment list \<times> number)" where
  "extract_step x solution_value cd key st =
     (case st of (assignments, total_cost) \<Rightarrow>
        bind (getitem x key) (\<lambda>v.
          if selected (solution_value v)
          then Inr (assignments @ [record_of cd key], py_add total_cost (cost (record_of cd key)))
          else Inr (assignments, total_cost)))"

text \<open>The nest \<^verbatim>\<open>for m in mechanics: for b in bases: for g in periods: for s in shifts\<close>.\<close>

definition slot_keys ::
  "number list \<Rightarrow> number list \<Rightarrow> number list \<Rightarrow> number list
     \<Rightarrow> (number \<times> number \<times> number \<times> number) list" where
  "slot_keys ms bs gs ss = List.product ms (List.product bs (List.product gs ss))"

text \<open>
  \<^verbatim>\<open>RosterOptimizer.extract_solution\<close>. \<open>solution_value\<close> gives the value the solver
  holds for each variable after the solve.
\<close>

definition extract_solution ::
  "optimizer \<Rightarrow> (nat \<Rightarrow> real) \<Rightarrow> number list \<Rightarrow> number list \<Rightarrow> number list \<Rightarrow> number list
     \<Rightarrow> ((number \<times> number) \<times> number) list \<Rightarrow> error + (assignment list \<times> number)" where
  "extract_solution self solution_value ms bs gs ss cd =
     (case self_x self of
        None \<Rightarrow> Inl ValueError
      | Some x \<Rightarrow> for_each (extract_step x solution_value cd) (slot_keys ms bs gs ss) ([], Num 0))"

text \<open>A key is chosen when its variable's value passes the test.\<close>

definition chosen :: "xdict \<Rightarrow> (nat \<Rightarrow> real) \<Rightarrow> number \<times> number \<times> number \<times> number \<Rightarrow> bool" where
  "chosen x val k = (case map_of x k of Some v \<Rightarrow> selected (val v) | None \<Rightarrow> False)"

section \<open>Example inputs\<close>

text \<open>One mechanic without skills, one base, one period, two shifts, no demand.\<close>

definition d1 :: data where
  "d1 = \<lparr>mechanic_skills_df = \<lparr>columns = [''mechanic_id''], rows = [[(''mechanic_id'', Num 1)]]\<rparr>,
          mechanics = [Num 1],
          base_schedule_df = \<lparr>columns = [''base_id'', ''period'', ''shift''],
            rows = [[(''base_id'', Num 1), (''period'', Num 1), (''shift'', Num 1)],
                    [(''base_id'', Num 1), (''period'', Num 1), (''shift'', Num 2)]]\<rparr>,
          bases = [Num 1], periods = [Num 1], shifts = [Num 1, Num 2],
          cost_matrix_df = \<lparr>columns = [], rows = []\<rparr>,
          cost_dict = [((Num 1, Num 1), Num 10)],
          base_column_mapping = the_base_column_mapping,
          avoidance_dict = []\<rparr>"

text \<open>The avoidance dict gives both orders of every pair the same entry.\<close>

definition symmetric_dict :: "((number \<times> number) \<times> number) list \<Rightarrow> bool" where
  "symmetric_dict ad = (\<forall>a b. map_of ad (a, b) = map_of ad (b, a))"

text \<open>
  A skills table, a schedule and a cost matrix that load, and an avoidance table whose
  second row has no mechanic id.
\<close>

definition ok_skills_df :: dataframe where
  "ok_skills_df = \<lparr>columns = [''mechanic_id''], rows = [[(''mechanic_id'', Num 1)], [(''mechanic_id'', Num 2)]]\<rparr>"

definition ok_schedule_df :: dataframe where
  "ok_schedule_df = \<lparr>columns = [''base_id'', ''period'', ''shift''],
       rows = [[(''base_id'', Num 1), (''period'', Num 1), (''shift'', Num 1)]]\<rparr>"

definition ok_cost_df :: dataframe where
  "ok_cost_df = \<lparr>columns = [''id'', ''A''], rows = [[(''id'', Num 1), (''A'', Num 10)]]\<rparr>"

definition bad_avoidance_df :: dataframe where
  "bad_avoidance_df =
     \<lparr>columns = [''mechanic_id'', ''avoid_mechanic_id'', ''penalty''],
      rows = [[(''mechanic_id'', Num 1), (''avoid_mechanic_id'', Num 2), (''penalty'', Num 50)],
              [(''mechanic_id'', NaN), (''avoid_mechanic_id'', Num 3), (''penalty'', Num 10)]]\<rparr>"

text \<open>The variable that \<^verbatim>\<open>IntVar(0, 1, name)\<close> adds.\<close>

definition new_var :: "name \<Rightarrow> variable" where
  "new_var nm = \<lparr>var_lb = 0, var_ub = 1, var_integer = True, var_name = nm\<rparr>"

text \<open>One iteration of \<open>make_vars\<close>.\<close>

definition make_var_step ::
  "('k \<Rightarrow> name) \<Rightarrow> 'k \<Rightarrow> mpsolver \<times> ('k \<times> nat) list \<Rightarrow> mpsolver \<times> ('k \<times> nat) list" where
  "make_var_step nm key st =
     (case st of (sv, vars) \<Rightarrow>
        (sv\<lparr>variables := variables sv @ [new_var (nm key)]\<rparr>,
         AList.update key (length (variables sv)) vars))"

text \<open>Variable \<open>v\<close> of the solver is the 0/1 integer variable of the given name.\<close>

definition named :: "mpsolver \<Rightarrow> nat \<Rightarrow> name \<Rightarrow> bool" where
  "named sv v nm = (v < length (variables sv) \<and> variables sv ! v = new_var nm)"

text \<open>
  Three mechanics (1 is an inspector for the aw139 airframe, 2 has the regular aw139 skills,
  3 has none), one base, one period, two shifts; demand for two aw139 and an airframe
  inspector on the day shift only; no cost entry for mechanic 3; mechanics 1 and 2 avoid
  each other.
\<close>

definition roster_example :: data where
  "roster_example =
     \<lparr>mechanic_skills_df =
        \<lparr>columns = [''mechanic_id'', ''aw139_af'', ''aw139_r'', ''aw139_av'', ''aw139_af_inspec''],
         rows = [[(''mechanic_id'', Num 1), (''aw139_af'', Num 1), (''aw139_r'', Num 1),
                  (''aw139_av'', Num 1), (''aw139_af_inspec'', Num 1)],
                 [(''mechanic_id'', Num 2), (''aw139_af'', Num 1), (''aw139_r'', Num 1),
                  (''aw139_av'', Num 1), (''aw139_af_inspec'', Num 0)],
                 [(''mechanic_id'', Num 3), (''aw139_af'', Num 0), (''aw139_r'', Num 0),
                  (''aw139_av'', Num 0), (''aw139_af_inspec'', Num 0)]]\<rparr>,
      mechanics = [Num 1, Num 2, Num 3],
      base_schedule_df =
        \<lparr>columns = [''base_id'', ''period'', ''shift'', ''aw139'', ''h175'', ''aw139_af_inspec''],
         rows = [[(''base_id'', Num 1), (''period'', Num 1), (''shift'', Num 1),
                  (''aw139'', Num 2), (''h175'', Num 0), (''aw139_af_inspec'', Num 1)],
                 [(''base_id'', Num 1), (''period'', Num 1), (''shift'', Num 2),
                  (''aw139'', Num 0), (''h175'', NaN), (''aw139_af_inspec'', NaN)]]\<rparr>,
      bases = [Num 1], periods = [Num 1], shifts = [Num 1, Num 2],
      cost_matrix_df = \<lparr>columns = [], rows = []\<rparr>,
      cost_dict = [((Num 1, Num 1), Num 10), ((Num 2, Num 1), Num 20)],
      base_column_mapping = the_base_column_mapping,
      avoidance_dict = [((Num 1, Num 2), Num 50), ((Num 2, Num 1), Num 50)]\<rparr>"

text \<open>The computation raised nothing.\<close>

definition succeeds :: "'e + 'a \<Rightarrow> bool" where
  "succeeds r = (case r of Inl e \<Rightarrow> False | Inr v \<Rightarrow> True)"

text \<open>\<^verbatim>\<open>cost_dict.get((m, b), 0)\<close> for a key of \<open>x\<close>.\<close>

definition cost_coefficient ::
  "((number \<times> number) \<times> number) list \<Rightarrow> number \<times> number \<times> number \<times> number \<Rightarrow> number" where
  "cost_coefficient cd key = (case key of (m, b, g, s) \<Rightarrow> dict_get cd (m, b) (Num 0))"

text \<open>The body of the movement-cost loop.\<close>

definition movement_step ::
  "data \<Rightarrow> xdict \<Rightarrow> number \<times> number \<times> number \<times> number \<Rightarrow> mpsolver \<Rightarrow> error + mpsolver" where
  "movement_step d x key sv =
     bind (getitem x key) (\<lambda>v.
       Inr (SetObjectiveCoefficient v (cost_coefficient (cost_dict d) key) sv))"

text \<open>
  Two mechanics with every aw139 skill who avoid each other, and one slot with demand for
  one aw139.
\<close>

definition avoidance_example :: data where
  "avoidance_example =
     \<lparr>mechanic_skills_df =
        \<lparr>columns = [''mechanic_id'', ''aw139_af'', ''aw139_r'', ''aw139_av''],
         rows = [[(''mechanic_id'', Num 1), (''aw139_af'', Num 1), (''aw139_r'', Num 1),
                  (''aw139_av'', Num 1)],
                 [(''mechanic_id'', Num 2), (''aw139_af'', Num 1), (''aw139_r'', Num 1),
                  (''aw139_av'', Num 1)]]\<rparr>,
      mechanics = [Num 1, Num 2],
      base_schedule_df =
        \<lparr>columns = [''base_id'', ''period'', ''shift'', ''aw139''],
         rows = [[(''base_id'', Num 1), (''period'', Num 1), (''shift'', Num 1), (''aw139'', Num 1)]]\<rparr>,
      bases = [Num 1], periods = [Num 1], shifts = [Num 1],
      cost_matrix_df = \<lparr>columns = [], rows = []\<rparr>,
      cost_dict = [((Num 1, Num 1), Num 10), ((Num 2, Num 1), Num 20)],
      base_column_mapping = the_base_column_mapping,
      avoidance_dict = [((Num 1, Num 2), Num 50), ((Num 2, Num 1), Num 50)]\<rparr>"

text \<open>
  Both mechanics of \<open>avoidance_example\<close> assigned (variables 0 and 1) and their avoidance
  variable (variable 2) at 0.
\<close>

definition both_assigned :: "nat \<Rightarrow> real" where
  "both_assigned v = (if v = 2 then 0 else 1)"

text \<open>The body of the loop of \<open>coverage_constraint\<close>.\<close>

definition coverage_step ::
  "xdict \<Rightarrow> skills \<Rightarrow> string \<Rightarrow> number \<times> number \<times> number \<Rightarrow> number \<Rightarrow> constraint
     \<Rightarrow> error + constraint" where
  "coverage_step x tbl col slot m c =
     bind (has_skill tbl m col) (\<lambda>h.
       if h then bind (getitem x (m, slot)) (\<lambda>v. Inr (SetCoefficient v 1 c)) else Inr c)"

text \<open>The skill rows of one aircraft at one slot: the loop over \<^verbatim>\<open>skill_types\<close>.\<close>

definition skill_rows_of ::
  "data \<Rightarrow> xdict \<Rightarrow> skills \<Rightarrow> number \<times> number \<times> number \<Rightarrow> string \<Rightarrow> error + constraint list" where
  "skill_rows_of d x ms slot aircraft =
     collect (\<lambda>skill.
         bind (coverage_constraint d x ms (aircraft @ skill) slot
                 (case slot of (b, g, s) \<Rightarrow> Skill_name (aircraft @ skill) b g s))
           (\<lambda>c. Inr [c]))
       skill_types"

text \<open>The skill rows of one schedule row: the loop over \<^verbatim>\<open>aircraft_types\<close>.\<close>

definition skill_rows_of_row ::
  "data \<Rightarrow> xdict \<Rightarrow> skills \<Rightarrow> row \<Rightarrow> error + constraint list" where
  "skill_rows_of_row d x ms row =
     bind (row_slot row) (\<lambda>slot.
       collect (\<lambda>aircraft.
           bind (aircraft_active (columns (base_schedule_df d)) row aircraft) (\<lambda>active.
             if active then skill_rows_of d x ms slot aircraft else Inr []))
         aircraft_types)"

text \<open>Which phase of \<open>create_model\<close> gives a row its name (0 for the names of variables).\<close>

fun name_kind :: "name \<Rightarrow> nat" where
  "name_kind (X_name m b g s) = 0"
| "name_kind (Y_avoid_name m1 m2 b g s) = 0"
| "name_kind (Single_assignment_name m) = 1"
| "name_kind (Skill_name n b g s) = 2"
| "name_kind (Inspector_name n b g s) = 3"
| "name_kind (No_self_inspect_name n b g s m) = 4"
| "name_kind (Avoid_y_le_x1_name m1 m2 b g s) = 5"
| "name_kind (Avoid_y_le_x2_name m1 m2 b g s) = 5"
| "name_kind (Avoid_y_ge_sum_name m1 m2 b g s) = 5"

text \<open>The no-self-inspection row of one inspector at one slot, given the other mechanics.\<close>

definition no_self_row ::
  "xdict \<Rightarrow> string \<Rightarrow> number \<times> number \<times> number \<Rightarrow> number \<Rightarrow> number list \<Rightarrow> error + constraint" where
  "no_self_row x col slot m_inspector others =
     bind (getitem x (m_inspector, slot)) (\<lambda>v.
       set_coefficients x (map (\<lambda>m_other. (m_other, slot)) others) (- 1)
         (SetCoefficient v 1
            (Constraint MinusInfinity (Finite 0)
               (case slot of (b, g, s) \<Rightarrow> No_self_inspect_name col b g s m_inspector))))"

text \<open>The body of the loop over \<^verbatim>\<open>m_inspector\<close> in constraint 4.\<close>

definition no_self_rows_of_mechanic ::
  "data \<Rightarrow> xdict \<Rightarrow> skills \<Rightarrow> skills \<Rightarrow> string \<Rightarrow> number \<times> number \<times> number \<Rightarrow> number
     \<Rightarrow> error + constraint list" where
  "no_self_rows_of_mechanic d x ms mis col slot m_inspector =
     bind (has_skill mis m_inspector col) (\<lambda>h.
       if h
       then bind (other_mechanics_with_skill d ms (replace_inspec col) m_inspector) (\<lambda>others.
              if others \<noteq> []
              then bind (no_self_row x col slot m_inspector others) (\<lambda>c. Inr [c])
              else Inr [])
       else Inr [])"

text \<open>The body of the loop over the schedule rows in constraint 4.\<close>

definition no_self_rows_of_row ::
  "data \<Rightarrow> xdict \<Rightarrow> skills \<Rightarrow> skills \<Rightarrow> string list \<Rightarrow> row \<Rightarrow> error + constraint list" where
  "no_self_rows_of_row d x ms mis irc row =
     bind (row_slot row) (\<lambda>slot.
       collect (\<lambda>col.
           bind (inspector_active (columns (base_schedule_df d)) row col) (\<lambda>active.
             if active
             then collect (no_self_rows_of_mechanic d x ms mis col slot) (mechanics d)
             else Inr []))
         irc)"

text \<open>The value of the comprehension \<^verbatim>\<open>other_mechanics_with_skill\<close> for an inspector column.\<close>

definition others_of :: "data \<Rightarrow> skills \<Rightarrow> string \<Rightarrow> number \<Rightarrow> number list" where
  "others_of d ms col m_inspector =
     filter (\<lambda>m. m \<noteq> m_inspector \<and> has_skill ms m (replace_inspec col) = Inr True) (mechanics d)"

text \<open>
  The roster example with the regular airframe skill taken from mechanic 2: the inspector,
  mechanic 1, is the only one who holds it.
\<close>

definition lone_inspector_example :: data where
  "lone_inspector_example =
     roster_example\<lparr>mechanic_skills_df :=
        \<lparr>columns = [''mechanic_id'', ''aw139_af'', ''aw139_r'', ''aw139_av'', ''aw139_af_inspec''],
         rows = [[(''mechanic_id'', Num 1), (''aw139_af'', Num 1), (''aw139_r'', Num 1),
                  (''aw139_av'', Num 1), (''aw139_af_inspec'', Num 1)],
                 [(''mechanic_id'', Num 2), (''aw139_af'', Num 0), (''aw139_r'', Num 1),
                  (''aw139_av'', Num 1), (''aw139_af_inspec'', Num 0)],
                 [(''mechanic_id'', Num 3), (''aw139_af'', Num 0), (''aw139_r'', Num 0),
                  (''aw139_av'', Num 0), (''aw139_af_inspec'', Num 0)]]\<rparr>\<rparr>"

text \<open>\<^verbatim>\<open>x[key].solution_value()\<close> at a valuation of the solver's variables.\<close>

definition solution_value ::
  "xdict \<Rightarrow> (nat \<Rightarrow> real) \<Rightarrow> number \<times> number \<times> number \<times> number \<Rightarrow> real" where
  "solution_value x val key = (case map_of x key of Some v \<Rightarrow> val v | None \<Rightarrow> 0)"

text \<open>
  A valuation of the roster example's variables: mechanics 1 and 2 on the day shift, nobody
  else anywhere.
\<close>

definition day_pair :: "nat \<Rightarrow> real" where
  "day_pair v = (if v = 0 \<or> v = 2 then 1 else 0)"


section \<open>Configuration validation\<close>

text \<open>
  C9. Validation is a total function (it raises nothing). A solver outside SCIP, CBC, GLOP
  becomes the default SCIP and a log level outside DEBUG, INFO, WARNING, ERROR, CRITICAL
  becomes the default INFO; a valid value is kept unchanged, and the data directory is
  never touched.
\<close>

theorem validate_defaults:
  "solver (fst (validate c)) =
     (if solver c = ''SCIP'' \<or> solver c = ''CBC'' \<or> solver c = ''GLOP'' then solver c else ''SCIP'')
   \<and> log_level (fst (validate c)) =
     (if log_level c = ''DEBUG'' \<or> log_level c = ''INFO'' \<or> log_level c = ''WARNING''
         \<or> log_level c = ''ERROR'' \<or> log_level c = ''CRITICAL''
      then log_level c else ''INFO'')
   \<and> data_dir (fst (validate c)) = data_dir c"
  by (simp add: validate_def valid_solvers_def valid_log_levels_def DEFAULT_SOLVER_def
      DEFAULT_LOG_LEVEL_def Let_def split: prod.splits)

theorem validate_defaults_witness:
  "solver (fst (validate \<lparr>solver = ''GUROBI'', log_level = ''DEBUG'', data_dir = ''d''\<rparr>)) = ''SCIP''
   \<and> log_level (fst (validate \<lparr>solver = ''GUROBI'', log_level = ''DEBUG'', data_dir = ''d''\<rparr>)) = ''DEBUG''
   \<and> solver (fst (validate \<lparr>solver = ''CBC'', log_level = ''TRACE'', data_dir = ''d''\<rparr>)) = ''CBC''
   \<and> log_level (fst (validate \<lparr>solver = ''CBC'', log_level = ''TRACE'', data_dir = ''d''\<rparr>)) = ''INFO''"
  using validate_defaults [of "\<lparr>solver = ''GUROBI'', log_level = ''DEBUG'', data_dir = ''d''\<rparr>"]
        validate_defaults [of "\<lparr>solver = ''CBC'', log_level = ''TRACE'', data_dir = ''d''\<rparr>"]
  by simp

section \<open>Facts about loops and dicts\<close>

lemma bind_eq_Inr: "bind m f = Inr y \<longleftrightarrow> (\<exists>v. m = Inr v \<and> f v = Inr y)"
  by (cases m) (simp_all add: bind_def)

lemma bind_Inr: "bind (Inr v) f = f v"
  by (simp add: bind_def)

lemma bind_Inl: "bind (Inl e) f = Inl e"
  by (simp add: bind_def)

lemma getitem_eq_Inr: "getitem d k = Inr v \<longleftrightarrow> map_of d k = Some v"
  by (simp add: getitem_def split: option.splits)

lemma for_each_append:
  "for_each f (xs @ ys) s = bind (for_each f xs s) (for_each f ys)"
  by (induction xs arbitrary: s) (auto simp: bind_def split: sum.splits)

lemma for_each_invariant:
  assumes "for_each f xs s = Inr s'" and "P s"
    and "\<And>a t u. a \<in> set xs \<Longrightarrow> P t \<Longrightarrow> f a t = Inr u \<Longrightarrow> P u"
  shows "P s'"
  using assms
proof (induction xs arbitrary: s)
  case Nil
  then show ?case by simp
next
  case (Cons a xs)
  from Cons.prems(1) obtain t where t: "f a s = Inr t" and r: "for_each f xs t = Inr s'"
    by (auto simp: bind_eq_Inr)
  have "P t" using Cons.prems(3) [of a s t] Cons.prems(2) t by simp
  show ?case
  proof (rule Cons.IH [OF r \<open>P t\<close>])
    fix b t' u assume "b \<in> set xs" "P t'" "f b t' = Inr u"
    then show "P u" using Cons.prems(3) [of b t' u] by simp
  qed
qed

section \<open>Solution extraction\<close>

lemma extract_loop:
  "for_each (extract_step x val cd) ks (as0, t0) = Inr (as, t)
   \<Longrightarrow> as = as0 @ map (record_of cd) (filter (chosen x val) ks) \<and> set ks \<subseteq> dom (map_of x)"
proof (induction ks arbitrary: as0 t0)
  case Nil
  then show ?case by simp
next
  case (Cons k ks)
  from Cons.prems obtain st where st: "extract_step x val cd k (as0, t0) = Inr st"
    and r: "for_each (extract_step x val cd) ks st = Inr (as, t)"
    by (auto simp: bind_eq_Inr)
  obtain as1 t1 where st_eq: "st = (as1, t1)" by (cases st)
  from st obtain v where v: "map_of x k = Some v"
    and as1: "as1 = (if selected (val v) then as0 @ [record_of cd k] else as0)"
    by (auto simp: extract_step_def st_eq bind_eq_Inr getitem_eq_Inr split: if_splits)
  from Cons.IH [OF r [unfolded st_eq]]
  have "as = as1 @ map (record_of cd) (filter (chosen x val) ks)" and "set ks \<subseteq> dom (map_of x)"
    by simp_all
  moreover have "chosen x val k = selected (val v)" using v by (simp add: chosen_def)
  ultimately show ?case using v as1 by auto
qed

lemma extract_loop_total:
  "set ks \<subseteq> dom (map_of x) \<Longrightarrow> \<exists>r. for_each (extract_step x val cd) ks st = Inr r"
proof (induction ks arbitrary: st)
  case Nil
  then show ?case by simp
next
  case (Cons k ks)
  obtain as0 t0 where st: "st = (as0, t0)" by (cases st)
  from Cons.prems obtain v where v: "map_of x k = Some v" by auto
  then obtain st' where "extract_step x val cd k st = Inr st'"
    by (cases "selected (val v)") (auto simp: extract_step_def st bind_eq_Inr getitem_eq_Inr)
  then show ?case using Cons.IH [of st'] Cons.prems by (auto simp: bind_eq_Inr)
qed

lemma extract_solution_result:
  assumes "extract_solution self val ms bs gs ss cd = Inr (as, t)"
  shows "\<exists>x. self_x self = Some x
           \<and> as = map (record_of cd) (filter (chosen x val) (slot_keys ms bs gs ss))
           \<and> set (slot_keys ms bs gs ss) \<subseteq> dom (map_of x)"
  using assms extract_loop [of _ val cd "slot_keys ms bs gs ss" "[]" "Num 0" as t]
  by (auto simp: extract_solution_def split: option.splits)


lemma extract_loop_error:
  "for_each (extract_step x val cd) ks st = Inl e \<Longrightarrow> e = KeyError"
proof (induction ks arbitrary: st)
  case Nil
  then show ?case by simp
next
  case (Cons k ks)
  obtain as0 t0 where st: "st = (as0, t0)" by (cases st)
  show ?case
  proof (cases "extract_step x val cd k st")
    case (Inl e')
    then have "e' = KeyError"
      by (auto simp: extract_step_def st bind_def getitem_def split: option.splits if_splits)
    then show ?thesis using Cons.prems Inl by (simp add: bind_def)
  next
    case (Inr st')
    then show ?thesis using Cons.prems Cons.IH [of st'] by (simp add: bind_def)
  qed
qed

lemma chosen_iff: "chosen x val k \<longleftrightarrow> (\<exists>v. map_of x k = Some v \<and> val v > 0.5)"
  by (simp add: chosen_def selected_def split: option.splits)

lemma record_of_fields:
  "record_of cd (m, b, g, s) =
     \<lparr>mechanic_id = m, base_id = b, group = g, shift = s,
      shift_name = (if s = Num 1 then ''Day'' else ''Night''),
      cost = dict_get cd (m, b) (Num 0)\<rparr>"
  by (simp add: record_of_def)

text \<open>
  C10. The assignments that \<open>extract_solution\<close> returns are, in loop order, one for every
  key \<open>(m, b, g, s)\<close> of the four loops whose variable has a value above 0.5; the
  assignment of a key carries the key's mechanic, base, period and shift, and its shift
  name is Day when the key's shift id is 1 and Night for every other shift id. So in every
  assignment returned the shift name is Day exactly when the shift id is 1, and it is
  always one of the two.
\<close>

theorem extract_solution_day_night:
  assumes "extract_solution self val ms bs gs ss cd = Inr (as, t)"
  shows "(\<exists>x. self_x self = Some x
            \<and> map (\<lambda>a. (mechanic_id a, base_id a, group a, shift a, shift_name a)) as
                = map (\<lambda>(m, b, g, s). (m, b, g, s, if s = Num 1 then ''Day'' else ''Night''))
                    (filter (\<lambda>k. \<exists>v. map_of x k = Some v \<and> val v > 0.5)
                       (slot_keys ms bs gs ss)))
       \<and> (\<forall>a\<in>set as. (shift_name a = ''Day'' \<longleftrightarrow> shift a = Num 1)
              \<and> (shift a \<noteq> Num 1 \<longrightarrow> shift_name a = ''Night'')
              \<and> (shift_name a = ''Day'' \<or> shift_name a = ''Night''))"
proof -
  from extract_solution_result [OF assms]
  obtain x where x: "self_x self = Some x"
    and as: "as = map (record_of cd) (filter (chosen x val) (slot_keys ms bs gs ss))"
    by blast
  have f: "chosen x val = (\<lambda>k. \<exists>v. map_of x k = Some v \<and> val v > 0.5)"
    by (rule ext) (rule chosen_iff)
  have r: "(\<lambda>a. (mechanic_id a, base_id a, group a, shift a, shift_name a)) (record_of cd k)
             = (\<lambda>(m, b, g, s). (m, b, g, s, if s = Num 1 then ''Day'' else ''Night'')) k" for k
    by (cases k) (simp add: record_of_fields)
  have 1: "map (\<lambda>a. (mechanic_id a, base_id a, group a, shift a, shift_name a)) as
                = map (\<lambda>(m, b, g, s). (m, b, g, s, if s = Num 1 then ''Day'' else ''Night''))
                    (filter (\<lambda>k. \<exists>v. map_of x k = Some v \<and> val v > 0.5)
                       (slot_keys ms bs gs ss))"
    unfolding as f [symmetric] map_map by (rule map_cong [OF refl]) (simp only: o_apply r)
  have 2: "(shift_name a = ''Day'' \<longleftrightarrow> shift a = Num 1)
              \<and> (shift a \<noteq> Num 1 \<longrightarrow> shift_name a = ''Night'')
              \<and> (shift_name a = ''Day'' \<or> shift_name a = ''Night'')" if "a \<in> set as" for a
  proof -
    from that as obtain k where "a = record_of cd k" by auto
    then show ?thesis by (cases k) (simp add: record_of_fields)
  qed
  from x 1 2 show ?thesis by blast
qed

theorem extract_solution_day_night_witness:
  "\<exists>as t. extract_solution
       ((init_optimizer ''SCIP'')\<lparr>self_x := Some [((Num 1, Num 1, Num 1, Num 1), 0),
                                                  ((Num 1, Num 1, Num 1, Num 2), 1),
                                                  ((Num 1, Num 1, Num 1, Num 3), 2),
                                                  ((Num 2, Num 1, Num 1, Num 1), 3),
                                                  ((Num 2, Num 1, Num 1, Num 2), 4),
                                                  ((Num 2, Num 1, Num 1, Num 3), 5)]\<rparr>)
       (\<lambda>v. if v = 0 \<or> v = 4 \<or> v = 5 then 1 else 0)
       [Num 1, Num 2] [Num 1] [Num 1] [Num 1, Num 2, Num 3] [] = Inr (as, t)
     \<and> map (\<lambda>a. (mechanic_id a, base_id a, group a, shift a, shift_name a)) as
         = [(Num 1, Num 1, Num 1, Num 1, ''Day''),
            (Num 2, Num 1, Num 1, Num 2, ''Night''),
            (Num 2, Num 1, Num 1, Num 3, ''Night'')]"
proof -
  let ?x = "[((Num 1, Num 1, Num 1, Num 1), 0::nat),
             ((Num 1, Num 1, Num 1, Num 2), 1),
             ((Num 1, Num 1, Num 1, Num 3), 2),
             ((Num 2, Num 1, Num 1, Num 1), 3),
             ((Num 2, Num 1, Num 1, Num 2), 4),
             ((Num 2, Num 1, Num 1, Num 3), 5)]"
  let ?self = "(init_optimizer ''SCIP'')\<lparr>self_x := Some ?x\<rparr>"
  let ?val = "\<lambda>v::nat. if v = 0 \<or> v = 4 \<or> v = 5 then 1 else (0::real)"
  let ?ks = "slot_keys [Num 1, Num 2] [Num 1] [Num 1] [Num 1, Num 2, Num 3]"
  have ks: "?ks = [(Num 1, Num 1, Num 1, Num 1), (Num 1, Num 1, Num 1, Num 2),
                   (Num 1, Num 1, Num 1, Num 3), (Num 2, Num 1, Num 1, Num 1),
                   (Num 2, Num 1, Num 1, Num 2), (Num 2, Num 1, Num 1, Num 3)]"
    by (simp add: slot_keys_def)
  have "set ?ks \<subseteq> dom (map_of ?x)" unfolding ks by simp
  from extract_loop_total [OF this, of ?val "[]" "([], Num 0)"]
  obtain as t where
    run: "extract_solution ?self ?val [Num 1, Num 2] [Num 1] [Num 1] [Num 1, Num 2, Num 3] []
            = Inr (as, t)"
    by (auto simp: extract_solution_def init_optimizer_def)
  from extract_solution_day_night [OF run]
  have "map (\<lambda>a. (mechanic_id a, base_id a, group a, shift a, shift_name a)) as
         = [(Num 1, Num 1, Num 1, Num 1, ''Day''),
            (Num 2, Num 1, Num 1, Num 2, ''Night''),
            (Num 2, Num 1, Num 1, Num 3, ''Night'')]"
    unfolding ks by (simp add: init_optimizer_def)
  with run show ?thesis by (intro exI [of _ as] exI [of _ t] conjI)
qed

text \<open>
  C2, as claimed, fails: the extractor checks nothing. On the model built from \<open>d1\<close> and a
  valuation that sets every variable to 1, mechanic 1 is returned in two assignments and no
  error is raised.
\<close>

theorem extract_solution_validates_counterexample:
  "case create_model [''SCIP'', ''CBC''] (init_optimizer ''SCIP'') d1 of
     Inl e \<Rightarrow> False
   | Inr self \<Rightarrow>
       extract_solution self (\<lambda>v. 1) (mechanics d1) (bases d1) (periods d1) (shifts d1) (cost_dict d1)
         = Inr ([record_of (cost_dict d1) (Num 1, Num 1, Num 1, Num 1),
                 record_of (cost_dict d1) (Num 1, Num 1, Num 1, Num 2)], Num 20)"
  by code_simp

text \<open>
  C2, amended. The extractor validates no invariant. It raises ValueError when no model has
  been created and KeyError when a key of the four loops has no variable; otherwise it
  returns, in loop order, one assignment for every key whose variable has a value above 0.5.
\<close>

theorem extract_solution_unvalidated:
  "(self_x self = None \<longrightarrow> extract_solution self val ms bs gs ss cd = Inl ValueError)
   \<and> (\<forall>x. self_x self = Some x \<longrightarrow>
        (if set (slot_keys ms bs gs ss) \<subseteq> dom (map_of x)
         then \<exists>t. extract_solution self val ms bs gs ss cd
                 = Inr (map (record_of cd) (filter (chosen x val) (slot_keys ms bs gs ss)), t)
         else extract_solution self val ms bs gs ss cd = Inl KeyError))"
proof (intro conjI allI impI)
  assume "self_x self = None"
  then show "extract_solution self val ms bs gs ss cd = Inl ValueError"
    by (simp add: extract_solution_def)
next
  fix x assume x: "self_x self = Some x"
  let ?ks = "slot_keys ms bs gs ss"
  have run: "extract_solution self val ms bs gs ss cd = for_each (extract_step x val cd) ?ks ([], Num 0)"
    using x by (simp add: extract_solution_def)
  show "if set ?ks \<subseteq> dom (map_of x)
         then \<exists>t. extract_solution self val ms bs gs ss cd
                 = Inr (map (record_of cd) (filter (chosen x val) ?ks), t)
         else extract_solution self val ms bs gs ss cd = Inl KeyError"
  proof (cases "set ?ks \<subseteq> dom (map_of x)")
    case True
    from extract_loop_total [OF True, of val cd "([], Num 0)"]
    obtain as t where r: "for_each (extract_step x val cd) ?ks ([], Num 0) = Inr (as, t)"
      by (metis surj_pair)
    from extract_loop [OF r] have "as = map (record_of cd) (filter (chosen x val) ?ks)" by simp
    then show ?thesis using True r run by auto
  next
    case False
    show ?thesis
    proof (cases "for_each (extract_step x val cd) ?ks ([], Num 0)")
      case (Inl e)
      then show ?thesis using False run extract_loop_error [OF Inl] by simp
    next
      case (Inr r)
      obtain as t where "r = (as, t)" by (cases r)
      then show ?thesis using extract_loop [of x val cd ?ks "[]" "Num 0" as t] Inr False by simp
    qed
  qed
qed

theorem extract_solution_unvalidated_witness:
  "extract_solution (init_optimizer ''SCIP'') (\<lambda>v. 1) [Num 1] [Num 1] [Num 1] [Num 1, Num 2] []
     = Inl ValueError
   \<and> (\<exists>t. extract_solution
        ((init_optimizer ''SCIP'')\<lparr>self_x := Some [((Num 1, Num 1, Num 1, Num 1), 0),
                                                   ((Num 1, Num 1, Num 1, Num 2), 1)]\<rparr>)
        (\<lambda>v. 1) [Num 1] [Num 1] [Num 1] [Num 1, Num 2] []
       = Inr ([record_of [] (Num 1, Num 1, Num 1, Num 1), record_of [] (Num 1, Num 1, Num 1, Num 2)], t))
   \<and> extract_solution
        ((init_optimizer ''SCIP'')\<lparr>self_x := Some [((Num 1, Num 1, Num 1, Num 1), 0)]\<rparr>)
        (\<lambda>v. 1) [Num 1] [Num 1] [Num 1] [Num 1, Num 2] []
       = Inl KeyError"
  using extract_solution_unvalidated [of "init_optimizer ''SCIP''" "\<lambda>v. 1" "[Num 1]" "[Num 1]" "[Num 1]"
            "[Num 1, Num 2]" "[]"]
    extract_solution_unvalidated [of "(init_optimizer ''SCIP'')\<lparr>self_x := Some [((Num 1, Num 1, Num 1, Num 1), 0),
                                                   ((Num 1, Num 1, Num 1, Num 2), 1)]\<rparr>" "\<lambda>v. 1" "[Num 1]" "[Num 1]" "[Num 1]"
            "[Num 1, Num 2]" "[]"]
    extract_solution_unvalidated [of "(init_optimizer ''SCIP'')\<lparr>self_x := Some [((Num 1, Num 1, Num 1, Num 1), 0)]\<rparr>" "\<lambda>v. 1" "[Num 1]" "[Num 1]" "[Num 1]"
            "[Num 1, Num 2]" "[]"]
  by (simp add: init_optimizer_def slot_keys_def chosen_def selected_def)

section \<open>Loading the avoidance list\<close>

lemma map_of_insert_avoidance:
  "map_of (insert_avoidance ad (m1, m2, p)) k
     = (if k = (m1, m2) \<or> k = (m2, m1) then Some p else map_of ad k)"
proof -
  have "map_of (insert_avoidance ad (m1, m2, p)) = ((map_of ad)((m1, m2) \<mapsto> p))((m2, m1) \<mapsto> p)"
    by (simp only: insert_avoidance_def prod.case update_conv')
  then show ?thesis
    by (cases "k = (m2, m1)"; cases "k = (m1, m2)"; simp only: fun_upd_apply if_True if_False simp_thms)
qed

lemma avoidance_rows_prefix:
  "map parse_avoidance_row good = map Inr ts
   \<Longrightarrow> avoidance_rows (good @ rest) ad = avoidance_rows rest (foldl insert_avoidance ad ts)"
proof (induction good arbitrary: ts ad)
  case Nil
  then show ?case by simp
next
  case (Cons r good)
  then obtain t ts' where ts: "ts = t # ts'" and t: "parse_avoidance_row r = Inr t"
    and rest: "map parse_avoidance_row good = map Inr ts'"
    by (cases ts) auto
  show ?case using Cons.IH [OF rest] t ts by simp
qed

lemma symmetric_insert:
  "symmetric_dict ad \<Longrightarrow> symmetric_dict (insert_avoidance ad t)"
  by (cases t) (auto simp: symmetric_dict_def map_of_insert_avoidance)

lemma avoidance_rows_symmetric:
  "avoidance_rows rws ad0 = (ad, err) \<Longrightarrow> symmetric_dict ad0 \<Longrightarrow> symmetric_dict ad"
proof (induction rws arbitrary: ad0)
  case Nil
  then show ?case by simp
next
  case (Cons r rws)
  show ?case
  proof (cases "parse_avoidance_row r")
    case (Inl e)
    then show ?thesis using Cons.prems by simp
  next
    case (Inr t)
    then show ?thesis using Cons.prems Cons.IH [of "insert_avoidance ad0 t"]
      by (simp add: symmetric_insert)
  qed
qed


lemma load_avoidance_symmetric: "symmetric_dict (fst (load_avoidance av))"
proof -
  have e: "symmetric_dict []" by (simp add: symmetric_dict_def)
  show ?thesis
    using e avoidance_rows_symmetric [OF _ e]
    by (auto simp: load_avoidance_def split: option.splits sum.splits prod.splits)
qed

lemma load_data_avoidance:
  "load_data sk sc co av =
     (case load_data sk sc co None of
        Inl e \<Rightarrow> Inl e
      | Inr (d, w) \<Rightarrow> Inr (d\<lparr>avoidance_dict := fst (load_avoidance av)\<rparr>, w @ snd (load_avoidance av)))"
  by (auto simp: load_data_def bind_def load_avoidance_def split: sum.splits prod.splits option.splits)




lemma insert_avoidance_dom:
  "k \<in> dom (map_of ad) \<Longrightarrow> k \<in> dom (map_of (insert_avoidance ad t))"
  by (cases t) (auto simp: map_of_insert_avoidance)

lemma foldl_insert_avoidance_mem:
  "(m1, m2, p) \<in> set ts
   \<Longrightarrow> (m1, m2) \<in> dom (map_of (foldl insert_avoidance ad ts))
       \<and> (m2, m1) \<in> dom (map_of (foldl insert_avoidance ad ts))"
proof (induction ts rule: rev_induct)
  case Nil
  then show ?case by simp
next
  case (snoc t ts)
  show ?case
  proof (cases "(m1, m2, p) = t")
    case True
    then show ?thesis by (auto simp: map_of_insert_avoidance)
  next
    case False
    with snoc.prems have "(m1, m2, p) \<in> set ts" by simp
    from snoc.IH [OF this] show ?thesis by (simp add: insert_avoidance_dom)
  qed
qed

lemma load_avoidance_partial:
  assumes "map parse_avoidance_row good = map Inr ts" and "parse_avoidance_row r = Inl e"
  shows "load_avoidance (Some (Inr \<lparr>columns = cs, rows = good @ r # rest\<rparr>))
           = (foldl insert_avoidance [] ts, [could_not_load e])"
  using assms(2) avoidance_rows_prefix [OF assms(1), of "r # rest" "[]"]
  by (simp add: load_avoidance_def)

lemma load_avoidance_unreadable: "load_avoidance (Some (Inl e)) = ([], [could_not_load e])"
  by (simp add: load_avoidance_def)

text \<open>
  C3 on one input: the second row of the avoidance table does not parse; the warning is
  logged and the pair of the first row stays in the dict, in both orders.
\<close>

theorem load_data_partial_avoidance_counterexample:
  "case load_data (Inr ok_skills_df) (Inr ok_schedule_df) (Inr ok_cost_df) (Some (Inr bad_avoidance_df)) of
     Inl e \<Rightarrow> False
   | Inr (d, w) \<Rightarrow>
       avoidance_dict d = [((Num 1, Num 2), Num 50), ((Num 2, Num 1), Num 50)]
       \<and> w = [could_not_load ValueError]"
  by code_simp

text \<open>
  C3 does not hold of \<open>load_data\<close>. When the rows \<open>good\<close> of the avoidance table parse and the
  next row raises, the exception does not propagate, one warning is logged and all other
  loaded data is what it is without an avoidance file; but the avoidance dict is the one the
  loop had built from \<open>good\<close>, not the empty one: every pair of \<open>good\<close> is in it in both
  orders, and it is empty only when \<open>good\<close> is.
\<close>

theorem load_data_keeps_partial_avoidance:
  assumes "map parse_avoidance_row good = map Inr ts" and "parse_avoidance_row r = Inl e"
  shows "load_data sk sc co (Some (Inr \<lparr>columns = cs, rows = good @ r # rest\<rparr>)) =
           (case load_data sk sc co None of
              Inl e' \<Rightarrow> Inl e'
            | Inr (d, w) \<Rightarrow>
                Inr (d\<lparr>avoidance_dict := foldl insert_avoidance [] ts\<rparr>, w @ [could_not_load e]))
       \<and> (\<forall>(m1, m2, p)\<in>set ts.
             (m1, m2) \<in> dom (map_of (foldl insert_avoidance [] ts))
             \<and> (m2, m1) \<in> dom (map_of (foldl insert_avoidance [] ts)))
       \<and> (foldl insert_avoidance [] ts = [] \<longleftrightarrow> good = [])"
proof (intro conjI)
  show "load_data sk sc co (Some (Inr \<lparr>columns = cs, rows = good @ r # rest\<rparr>)) =
           (case load_data sk sc co None of
              Inl e' \<Rightarrow> Inl e'
            | Inr (d, w) \<Rightarrow>
                Inr (d\<lparr>avoidance_dict := foldl insert_avoidance [] ts\<rparr>, w @ [could_not_load e]))"
    unfolding load_data_avoidance [of sk sc co "Some (Inr \<lparr>columns = cs, rows = good @ r # rest\<rparr>)"]
      load_avoidance_partial [OF assms]
    by (simp split: sum.splits)
  show "\<forall>(m1, m2, p)\<in>set ts.
             (m1, m2) \<in> dom (map_of (foldl insert_avoidance [] ts))
             \<and> (m2, m1) \<in> dom (map_of (foldl insert_avoidance [] ts))"
    using foldl_insert_avoidance_mem [of _ _ _ ts "[]"] by blast
  from assms(1) have len: "length good = length ts" by (metis length_map)
  show "foldl insert_avoidance [] ts = [] \<longleftrightarrow> good = []"
  proof (cases ts)
    case Nil
    then show ?thesis using len by simp
  next
    case (Cons t ts')
    obtain m1 m2 p where t: "t = (m1, m2, p)" by (cases t)
    with Cons have "(m1, m2, p) \<in> set ts" by simp
    from foldl_insert_avoidance_mem [OF this, of "[]"]
    have "foldl insert_avoidance [] ts \<noteq> []" by auto
    moreover have "good \<noteq> []" using len Cons by auto
    ultimately show ?thesis by simp
  qed
qed

theorem load_data_keeps_partial_avoidance_witness:
  "load_data (Inr ok_skills_df) (Inr ok_schedule_df) (Inr ok_cost_df) (Some (Inr bad_avoidance_df)) =
     (case load_data (Inr ok_skills_df) (Inr ok_schedule_df) (Inr ok_cost_df) None of
        Inl e' \<Rightarrow> Inl e'
      | Inr (d, w) \<Rightarrow>
          Inr (d\<lparr>avoidance_dict := [((Num 1, Num 2), Num 50), ((Num 2, Num 1), Num 50)]\<rparr>,
               w @ [could_not_load ValueError]))"
proof -
  have bad: "parse_avoidance_row [(''mechanic_id'', NaN), (''avoid_mechanic_id'', Num 3), (''penalty'', Num 10)]
      = Inl ValueError"
    by (simp add: parse_avoidance_row_def getitem_def bind_def)
  have good: "map parse_avoidance_row
       [[(''mechanic_id'', Num 1), (''avoid_mechanic_id'', Num 2), (''penalty'', Num 50)]]
      = map Inr [(Num 1, Num 2, Num 50)]"
    by (simp add: parse_avoidance_row_def getitem_def bind_def py_float_def)
  have df: "bad_avoidance_df = \<lparr>columns = [''mechanic_id'', ''avoid_mechanic_id'', ''penalty''],
      rows = [[(''mechanic_id'', Num 1), (''avoid_mechanic_id'', Num 2), (''penalty'', Num 50)]]
           @ [(''mechanic_id'', NaN), (''avoid_mechanic_id'', Num 3), (''penalty'', Num 10)] # []\<rparr>"
    by (simp add: bad_avoidance_df_def)
  have ad: "foldl insert_avoidance [] [(Num 1, Num 2, Num 50)]
              = [((Num 1, Num 2), Num 50), ((Num 2, Num 1), Num 50)]"
    by (simp add: insert_avoidance_def)
  from load_data_keeps_partial_avoidance [OF good bad,
      of "Inr ok_skills_df" "Inr ok_schedule_df" "Inr ok_cost_df"
         "[''mechanic_id'', ''avoid_mechanic_id'', ''penalty'']" "[]"]
  show ?thesis unfolding df [symmetric] ad by blast
qed

section \<open>The model built by create\_model\<close>

lemma collect_Inr_mem:
  "collect g xs = Inr cs \<Longrightarrow> a \<in> set xs \<Longrightarrow> \<exists>bs. g a = Inr bs \<and> set bs \<subseteq> set cs"
proof (induction xs arbitrary: cs)
  case Nil
  then show ?case by simp
next
  case (Cons x xs)
  from Cons.prems(1) obtain bs cs' where x: "g x = Inr bs" and r: "collect g xs = Inr cs'"
    and cs: "cs = bs @ cs'"
    by (auto simp: bind_eq_Inr)
  show ?case
  proof (cases "a = x")
    case True
    then show ?thesis using x cs by auto
  next
    case False
    then have "a \<in> set xs" using Cons.prems(2) by simp
    from Cons.IH [OF r this] show ?thesis using cs by auto
  qed
qed

lemma collect_Inr_inv:
  "collect g xs = Inr cs \<Longrightarrow> c \<in> set cs \<Longrightarrow> \<exists>a\<in>set xs. \<exists>bs. g a = Inr bs \<and> c \<in> set bs"
proof (induction xs arbitrary: cs)
  case Nil
  then show ?case by simp
next
  case (Cons x xs)
  from Cons.prems(1) obtain bs cs' where x: "g x = Inr bs" and r: "collect g xs = Inr cs'"
    and cs: "cs = bs @ cs'"
    by (auto simp: bind_eq_Inr)
  show ?case
  proof (cases "c \<in> set bs")
    case True
    then show ?thesis using x by auto
  next
    case False
    then have "c \<in> set cs'" using Cons.prems(2) cs by simp
    from Cons.IH [OF r this] show ?thesis by auto
  qed
qed

lemma make_var_step_apply:
  "make_var_step nm key (sv, vars) =
     (sv\<lparr>variables := variables sv @ [new_var (nm key)]\<rparr>,
      AList.update key (length (variables sv)) vars)"
  by (simp add: make_var_step_def)

lemma make_vars_fold: "make_vars nm keys sv0 = fold (make_var_step nm) keys (sv0, [])"
proof -
  have "(\<lambda>key (sv, vars). case IntVar 0 1 (nm key) sv of (v, sv') \<Rightarrow> (sv', AList.update key v vars))
        = make_var_step nm"
    by (auto simp: fun_eq_iff make_var_step_def IntVar_def new_var_def)
  then show ?thesis by (simp add: make_vars_def)
qed

lemma make_var_fold_solver:
  "fold (make_var_step nm) keys (sv, vars) = (sv', vars')
   \<Longrightarrow> sv' = sv\<lparr>variables := variables sv @ map (\<lambda>k. new_var (nm k)) keys\<rparr>"
proof (induction keys arbitrary: sv vars)
  case Nil
  then show ?case by simp
next
  case (Cons k keys)
  from Cons.prems
  have "fold (make_var_step nm) keys
          (sv\<lparr>variables := variables sv @ [new_var (nm k)]\<rparr>,
           AList.update k (length (variables sv)) vars) = (sv', vars')"
    by (simp add: make_var_step_apply)
  from Cons.IH [OF this] show ?case by simp
qed

lemma make_var_fold_dom:
  "fold (make_var_step nm) keys (sv, vars) = (sv', vars')
   \<Longrightarrow> dom (map_of vars') = dom (map_of vars) \<union> set keys"
proof (induction keys arbitrary: sv vars)
  case Nil
  then show ?case by simp
next
  case (Cons k keys)
  from Cons.prems
  have "fold (make_var_step nm) keys
          (sv\<lparr>variables := variables sv @ [new_var (nm k)]\<rparr>,
           AList.update k (length (variables sv)) vars) = (sv', vars')"
    by (simp add: make_var_step_apply)
  from Cons.IH [OF this] show ?case by (auto simp: update_conv')
qed

lemma make_var_fold_named:
  "fold (make_var_step nm) keys (sv, vars) = (sv', vars')
   \<Longrightarrow> (\<And>k v. map_of vars k = Some v \<Longrightarrow> n0 \<le> v \<and> named sv v (nm k))
   \<Longrightarrow> n0 \<le> length (variables sv)
   \<Longrightarrow> map_of vars' k = Some v \<Longrightarrow> n0 \<le> v \<and> named sv' v (nm k)"
proof (induction keys arbitrary: sv vars)
  case Nil
  then show ?case by simp
next
  case (Cons a keys)
  let ?sv1 = "sv\<lparr>variables := variables sv @ [new_var (nm a)]\<rparr>"
  let ?vars1 = "AList.update a (length (variables sv)) vars"
  from Cons.prems(1)
  have run: "fold (make_var_step nm) keys (?sv1, ?vars1) = (sv', vars')"
    by (simp add: make_var_step_apply)
  show ?case
  proof (rule Cons.IH [OF run _ _ Cons.prems(4)])
    show "n0 \<le> length (variables ?sv1)" using Cons.prems(3) by simp
    fix k' v' assume kv: "map_of ?vars1 k' = Some v'"
    show "n0 \<le> v' \<and> named ?sv1 v' (nm k')"
    proof (cases "k' = a")
      case True
      then have "v' = length (variables sv)" using kv by (simp add: update_conv')
      then show ?thesis using True Cons.prems(3) by (simp add: named_def)
    next
      case False
      then have "map_of vars k' = Some v'" using kv by (simp add: update_conv')
      from Cons.prems(2) [OF this] show ?thesis by (auto simp: named_def nth_append)
    qed
  qed
qed

lemma make_vars_result:
  assumes "make_vars nm keys sv0 = (sv, vars)"
  shows "sv = sv0\<lparr>variables := variables sv0 @ map (\<lambda>k. new_var (nm k)) keys\<rparr>"
    and "dom (map_of vars) = set keys"
    and "map_of vars k = Some v \<Longrightarrow> length (variables sv0) \<le> v \<and> named sv v (nm k)"
proof -
  from assms have f: "fold (make_var_step nm) keys (sv0, []) = (sv, vars)"
    by (simp add: make_vars_fold)
  show "sv = sv0\<lparr>variables := variables sv0 @ map (\<lambda>k. new_var (nm k)) keys\<rparr>"
    by (rule make_var_fold_solver [OF f])
  show "dom (map_of vars) = set keys" using make_var_fold_dom [OF f] by simp
  show "length (variables sv0) \<le> v \<and> named sv v (nm k)" if "map_of vars k = Some v"
    by (rule make_var_fold_named [OF f _ _ that]) simp_all
qed

lemma named_append:
  "named sv0 v nm \<Longrightarrow> variables sv = variables sv0 @ vs \<Longrightarrow> named sv v nm"
  by (simp add: named_def nth_append)

lemma named_inject: "named sv v nm \<Longrightarrow> named sv v nm' \<Longrightarrow> nm = nm'"
  by (simp add: named_def new_var_def)

lemma movement_costs_frame:
  assumes "movement_costs d x sv0 = Inr sv"
  shows "variables sv = variables sv0 \<and> constraints sv = constraints sv0"
  using assms unfolding movement_costs_def
  by (rule for_each_invariant)
     (auto simp: bind_eq_Inr SetObjectiveCoefficient_def)

lemma avoidance_penalties_frame:
  assumes "avoidance_penalties d av sv0 = Inr sv"
  shows "variables sv = variables sv0 \<and> constraints sv = constraints sv0"
proof (cases "avoidance_dict d \<noteq> [] \<and> av \<noteq> []")
  case False
  then show ?thesis using assms by (auto simp: avoidance_penalties_def)
next
  case True
  let ?P = "\<lambda>s. variables s = variables sv0 \<and> constraints s = constraints sv0"
  have inner: "?P u"
    if "for_each (\<lambda>(b, g, s) sv'.
                     case map_of av (m1, m2, b, g, s) of
                       Some y_var \<Rightarrow> Inr (SetObjectiveCoefficient y_var penalty sv')
                     | None \<Rightarrow> Inr sv') ks t = Inr u"
      and "variables t = variables sv0" and "constraints t = constraints sv0"
    for m1 m2 penalty ks t u
  proof -
    from that(2,3) have "?P t" by simp
    with that(1) show ?thesis
      by (rule for_each_invariant)
         (auto simp: SetObjectiveCoefficient_def split: option.splits)
  qed
  from assms True
  have "for_each (\<lambda>(m1, m2) sv.
               bind (getitem (avoidance_dict d) (m1, m2)) (\<lambda>penalty.
                 for_each (\<lambda>(b, g, s) sv'.
                     case map_of av (m1, m2, b, g, s) of
                       Some y_var \<Rightarrow> Inr (SetObjectiveCoefficient y_var penalty sv')
                     | None \<Rightarrow> Inr sv')
                   (slots d) sv))
             (unique_pairs (avoidance_dict d)) sv0 = Inr sv"
    by (simp add: avoidance_penalties_def)
  then show ?thesis
    by (rule for_each_invariant) (auto simp: bind_eq_Inr dest: inner)
qed

lemma create_model_body_parts:
  assumes "create_model_body new_solver self d = Inr M"
  obtains sv sv0 x ms mis av c1 c2 c3 c4 c5 sv1 sv2 sv3 where
    "self_solver M = Some sv" and "self_x M = Some x" and "self_mechanic_skills M = Some ms"
    and "self_mechanic_inspector_skills M = Some mis" and "self_avoidance_vars M = Some av"
    and "self_inspector_req_columns M = Some (inspector_req_columns (base_schedule_df d))"
    and "create_x_vars d new_solver = (sv0, x)"
    and "single_assignment_constraints d x = Inr c1"
    and "build_skills (mechanic_skills_df d) = Inr (ms, mis)"
    and "skill_coverage_constraints d x ms = Inr c2"
    and "inspector_coverage_constraints d x mis (inspector_req_columns (base_schedule_df d)) = Inr c3"
    and "no_self_inspection_constraints d x ms mis (inspector_req_columns (base_schedule_df d)) = Inr c4"
    and "create_avoidance_vars d (add_constraints (c1 @ c2 @ c3 @ c4) sv0) = (sv1, av)"
    and "linearization_constraints d x av = Inr c5"
    and "movement_costs d x (add_constraints c5 sv1) = Inr sv2"
    and "avoidance_penalties d av sv2 = Inr sv3"
    and "sv = sv3\<lparr>minimization := True\<rparr>"
proof -
  obtain sv0 x where a: "create_x_vars d new_solver = (sv0, x)" by (cases "create_x_vars d new_solver")
  from assms a obtain c1 where c1: "single_assignment_constraints d x = Inr c1"
    by (auto simp: create_model_body_def bind_eq_Inr)
  from assms a c1 obtain ms mis where s: "build_skills (mechanic_skills_df d) = Inr (ms, mis)"
    by (auto simp: create_model_body_def bind_eq_Inr bind_Inr)
  from assms a c1 s obtain c2 where c2: "skill_coverage_constraints d x ms = Inr c2"
    by (auto simp: create_model_body_def bind_eq_Inr bind_Inr)
  from assms a c1 s c2 obtain c3 where
    c3: "inspector_coverage_constraints d x mis (inspector_req_columns (base_schedule_df d)) = Inr c3"
    by (auto simp: create_model_body_def bind_eq_Inr bind_Inr)
  from assms a c1 s c2 c3 obtain c4 where
    c4: "no_self_inspection_constraints d x ms mis (inspector_req_columns (base_schedule_df d)) = Inr c4"
    by (auto simp: create_model_body_def bind_eq_Inr bind_Inr)
  obtain sv1 av where y: "create_avoidance_vars d (add_constraints (c1 @ c2 @ c3 @ c4) sv0) = (sv1, av)"
    by (cases "create_avoidance_vars d (add_constraints (c1 @ c2 @ c3 @ c4) sv0)")
  from assms a c1 s c2 c3 c4 y obtain c5 where c5: "linearization_constraints d x av = Inr c5"
    by (auto simp: create_model_body_def bind_eq_Inr bind_Inr)
  from assms a c1 s c2 c3 c4 y c5 obtain sv2 where m: "movement_costs d x (add_constraints c5 sv1) = Inr sv2"
    by (auto simp: create_model_body_def bind_eq_Inr bind_Inr)
  from assms a c1 s c2 c3 c4 y c5 m obtain sv3 where p: "avoidance_penalties d av sv2 = Inr sv3"
    by (auto simp: create_model_body_def bind_eq_Inr bind_Inr)
  from assms a c1 s c2 c3 c4 y c5 m p
  have M: "M = self\<lparr>self_solver := Some (sv3\<lparr>minimization := True\<rparr>),
                  self_x := Some x,
                  self_mechanic_skills := Some ms,
                  self_mechanic_inspector_skills := Some mis,
                  self_inspector_req_columns := Some (inspector_req_columns (base_schedule_df d)),
                  self_avoidance_vars := Some av\<rparr>"
    by (simp add: create_model_body_def bind_Inr)
  show ?thesis
    by (rule that [OF _ _ _ _ _ _ a c1 s c2 c3 c4 y c5 m p refl]) (simp_all add: M)
qed

lemma create_model_with_solver:
  assumes "create_model backends self d = Inr M"
  shows "\<exists>self'. create_model_body new_solver self' d = Inr M
           \<and> (self' = self \<or> self' = self\<lparr>solver_name := ''CBC''\<rparr>)"
  using assms
  by (auto simp: create_model_def CreateSolver_def split: if_splits sum.splits)

lemma create_model_parts:
  assumes "create_model backends self d = Inr M"
  obtains sv sv0 x ms mis av c1 c2 c3 c4 c5 sv1 sv2 sv3 where
    "self_solver M = Some sv" and "self_x M = Some x" and "self_mechanic_skills M = Some ms"
    and "self_mechanic_inspector_skills M = Some mis" and "self_avoidance_vars M = Some av"
    and "self_inspector_req_columns M = Some (inspector_req_columns (base_schedule_df d))"
    and "create_x_vars d new_solver = (sv0, x)"
    and "single_assignment_constraints d x = Inr c1"
    and "build_skills (mechanic_skills_df d) = Inr (ms, mis)"
    and "skill_coverage_constraints d x ms = Inr c2"
    and "inspector_coverage_constraints d x mis (inspector_req_columns (base_schedule_df d)) = Inr c3"
    and "no_self_inspection_constraints d x ms mis (inspector_req_columns (base_schedule_df d)) = Inr c4"
    and "create_avoidance_vars d (add_constraints (c1 @ c2 @ c3 @ c4) sv0) = (sv1, av)"
    and "linearization_constraints d x av = Inr c5"
    and "movement_costs d x (add_constraints c5 sv1) = Inr sv2"
    and "avoidance_penalties d av sv2 = Inr sv3"
    and "sv = sv3\<lparr>minimization := True\<rparr>"
proof -
  from create_model_with_solver [OF assms] obtain self' where
    "create_model_body new_solver self' d = Inr M" by blast
  then show ?thesis by (rule create_model_body_parts) (rule that)
qed

text \<open>
  The solver's name after the call: unchanged when its backend is available, CBC when it
  is not; without CBC either, the call raises.
\<close>

lemma create_model_body_solver_name:
  "create_model_body slv self d = Inr M \<Longrightarrow> solver_name M = solver_name self"
  by (auto simp: create_model_body_def bind_eq_Inr case_prod_beta)

lemma create_model_solver_name:
  "create_model backends self d = Inr M \<Longrightarrow>
     solver_name M = (if solver_name self \<in> set backends then solver_name self else ''CBC'')"
  by (auto simp: create_model_def CreateSolver_def split: if_splits sum.splits
           dest: create_model_body_solver_name)

lemma create_model_no_backend:
  "solver_name self \<notin> set backends \<Longrightarrow> ''CBC'' \<notin> set backends \<Longrightarrow>
     create_model backends self d = Inl (create_model_no_solver d, self\<lparr>solver_name := ''CBC''\<rparr>)"
  by (simp add: create_model_def CreateSolver_def)

lemma create_model_solver:
  assumes xv: "create_x_vars d new_solver = (sv0, x)"
    and yv: "create_avoidance_vars d (add_constraints cs sv0) = (sv1, av)"
    and mc: "movement_costs d x (add_constraints c5 sv1) = Inr sv2"
    and ap: "avoidance_penalties d av sv2 = Inr sv3"
    and sv: "sv = sv3\<lparr>minimization := True\<rparr>"
  shows "variables sv = map (\<lambda>k. new_var (x_var_name k)) (List.product (mechanics d) (slots d))
                        @ map (\<lambda>k. new_var (y_var_name k)) (avoidance_keys d)"
    and "constraints sv = cs @ c5"
    and "dom (map_of x) = set (List.product (mechanics d) (slots d))"
    and "dom (map_of av) = set (avoidance_keys d)"
    and "\<And>k v. map_of x k = Some v \<Longrightarrow> named sv v (x_var_name k)"
    and "\<And>k v. map_of av k = Some v \<Longrightarrow> named sv v (y_var_name k)"
    and "objective sv = objective sv3"
proof -
  note x = make_vars_result [OF xv [unfolded create_x_vars_def]]
  note y = make_vars_result [OF yv [unfolded create_avoidance_vars_def]]
  have v0: "variables sv0 = map (\<lambda>k. new_var (x_var_name k)) (List.product (mechanics d) (slots d))"
    and k0: "constraints sv0 = []"
    using x(1) by (simp_all add: new_solver_def)
  have v1: "variables sv1 = variables sv0 @ map (\<lambda>k. new_var (y_var_name k)) (avoidance_keys d)"
    and k1: "constraints sv1 = cs"
    using y(1) k0 by (simp_all add: add_constraints_def)
  have f: "variables sv = variables sv1" "constraints sv = constraints sv1 @ c5"
    using movement_costs_frame [OF mc] avoidance_penalties_frame [OF ap] sv
    by (simp_all add: add_constraints_def)
  show "variables sv = map (\<lambda>k. new_var (x_var_name k)) (List.product (mechanics d) (slots d))
                        @ map (\<lambda>k. new_var (y_var_name k)) (avoidance_keys d)"
    using f v1 v0 by simp
  show "constraints sv = cs @ c5" using f k1 by simp
  show "dom (map_of x) = set (List.product (mechanics d) (slots d))" by (rule x(2))
  show "dom (map_of av) = set (avoidance_keys d)" by (rule y(2))
  show "named sv v (x_var_name k)" if "map_of x k = Some v" for k v
    using x(3) [OF that] f(1) v1 by (auto intro: named_append)
  show "named sv v (y_var_name k)" if "map_of av k = Some v" for k v
    using y(3) [OF that] f(1) by (auto simp: named_def add_constraints_def)
  show "objective sv = objective sv3" using sv by simp
qed

lemma succeedsE: "succeeds r \<Longrightarrow> (\<And>v. r = Inr v \<Longrightarrow> thesis) \<Longrightarrow> thesis"
  by (cases r) (simp_all add: succeeds_def)

lemma roster_example_builds: "succeeds (create_model [''SCIP'', ''CBC''] (init_optimizer ''SCIP'') roster_example)"
  by code_simp

lemma x_var_name_inject: "x_var_name k = x_var_name k' \<Longrightarrow> k = k'"
  by (auto simp: x_var_name_def split: prod.splits)

lemma y_var_name_inject: "y_var_name k = y_var_name k' \<Longrightarrow> k = k'"
  by (auto simp: y_var_name_def split: prod.splits)

lemma x_y_names_differ: "x_var_name k \<noteq> y_var_name k'"
  by (auto simp: x_var_name_def y_var_name_def split: prod.splits)

lemma movement_costs_steps:
  "movement_costs d x sv0 = for_each (movement_step d x) (List.product (mechanics d) (slots d)) sv0"
proof -
  have "(\<lambda>(m, b, g, s) sv.
         bind (getitem x (m, b, g, s)) (\<lambda>v.
           Inr (SetObjectiveCoefficient v (dict_get (cost_dict d) (m, b) (Num 0)) sv)))
        = movement_step d x"
    by (auto simp: fun_eq_iff movement_step_def cost_coefficient_def)
  then show ?thesis by (simp add: movement_costs_def)
qed

lemma movement_loop:
  assumes inj: "\<forall>k k' v. map_of x k = Some v \<longrightarrow> map_of x k' = Some v \<longrightarrow> k = k'"
  shows "for_each (movement_step d x) ks sv0 = Inr sv
    \<Longrightarrow> (\<forall>k v. k \<in> set ks \<longrightarrow> map_of x k = Some v
            \<longrightarrow> map_of (objective sv) v = Some (cost_coefficient (cost_dict d) k))
        \<and> (\<forall>v. (\<forall>k\<in>set ks. map_of x k \<noteq> Some v)
            \<longrightarrow> map_of (objective sv) v = map_of (objective sv0) v)"
proof (induction ks arbitrary: sv0)
  case Nil
  then show ?case by simp
next
  case (Cons a ks)
  from Cons.prems obtain s1 where st: "movement_step d x a sv0 = Inr s1"
    and run1: "for_each (movement_step d x) ks s1 = Inr sv"
    by (auto simp: bind_eq_Inr)
  from st obtain va where va: "map_of x a = Some va"
    and s1_eq: "s1 = SetObjectiveCoefficient va (cost_coefficient (cost_dict d) a) sv0"
    by (auto simp: movement_step_def bind_eq_Inr getitem_eq_Inr)
  have run: "for_each (movement_step d x) ks
                (SetObjectiveCoefficient va (cost_coefficient (cost_dict d) a) sv0) = Inr sv"
    using run1 s1_eq by simp
  let ?s1 = "SetObjectiveCoefficient va (cost_coefficient (cost_dict d) a) sv0"
  note IH = Cons.IH [OF run]
  have s1: "map_of (objective ?s1) v = (if v = va then Some (cost_coefficient (cost_dict d) a)
                                         else map_of (objective sv0) v)" for v
    by (simp add: SetObjectiveCoefficient_def update_conv')
  show ?case
  proof (intro conjI allI impI)
    fix k v assume k: "k \<in> set (a # ks)" and kv: "map_of x k = Some v"
    show "map_of (objective sv) v = Some (cost_coefficient (cost_dict d) k)"
    proof (cases "k \<in> set ks")
      case True
      then show ?thesis using IH kv by blast
    next
      case False
      then have ka: "k = a" using k by simp
      then have vva: "v = va" using kv va by simp
      have "\<forall>k'\<in>set ks. map_of x k' \<noteq> Some v"
      proof
        fix k' assume k': "k' \<in> set ks"
        show "map_of x k' \<noteq> Some v"
        proof
          assume "map_of x k' = Some v"
          from inj [rule_format, OF this kv] have "k' = k" .
          then show False using k' False by simp
        qed
      qed
      then have "map_of (objective sv) v = map_of (objective ?s1) v" using IH by blast
      then show ?thesis using s1 [of v] vva ka by simp
    qed
  next
    fix v assume none: "\<forall>k\<in>set (a # ks). map_of x k \<noteq> Some v"
    then have "v \<noteq> va" using va by auto
    moreover have "map_of (objective sv) v = map_of (objective ?s1) v" using IH none by simp
    ultimately show "map_of (objective sv) v = map_of (objective sv0) v" using s1 [of v] by simp
  qed
qed

lemma avoidance_penalties_other:
  assumes "avoidance_penalties d av sv0 = Inr sv" and v: "v \<notin> ran (map_of av)"
  shows "map_of (objective sv) v = map_of (objective sv0) v"
proof (cases "avoidance_dict d \<noteq> [] \<and> av \<noteq> []")
  case False
  then show ?thesis using assms by (auto simp: avoidance_penalties_def)
next
  case True
  let ?P = "\<lambda>s. map_of (objective s) v = map_of (objective sv0) v"
  have inner: "?P u"
    if "for_each (\<lambda>(b, g, s) sv'.
                     case map_of av (m1, m2, b, g, s) of
                       Some y_var \<Rightarrow> Inr (SetObjectiveCoefficient y_var penalty sv')
                     | None \<Rightarrow> Inr sv') ks t = Inr u" and "?P t"
    for m1 m2 penalty ks t u
    using that
  proof (rule for_each_invariant)
    fix a t' u' assume "?P t'"
      and step: "(case a of (b, g, s) \<Rightarrow> \<lambda>sv'.
                     case map_of av (m1, m2, b, g, s) of
                       Some y_var \<Rightarrow> Inr (SetObjectiveCoefficient y_var penalty sv')
                     | None \<Rightarrow> Inr sv') t' = Inr u'"
    obtain b g s where a: "a = (b, g, s)" by (cases a)
    show "?P u'"
    proof (cases "map_of av (m1, m2, b, g, s)")
      case None
      then show ?thesis using step a \<open>?P t'\<close> by simp
    next
      case (Some y)
      then have "y \<in> ran (map_of av)" by (rule ranI)
      then have "y \<noteq> v" using v by auto
      then show ?thesis using step a Some \<open>?P t'\<close>
        by (auto simp: SetObjectiveCoefficient_def update_conv')
    qed
  qed
  from assms True
  have "for_each (\<lambda>(m1, m2) sv.
               bind (getitem (avoidance_dict d) (m1, m2)) (\<lambda>penalty.
                 for_each (\<lambda>(b, g, s) sv'.
                     case map_of av (m1, m2, b, g, s) of
                       Some y_var \<Rightarrow> Inr (SetObjectiveCoefficient y_var penalty sv')
                     | None \<Rightarrow> Inr sv')
                   (slots d) sv))
             (unique_pairs (avoidance_dict d)) sv0 = Inr sv"
    by (simp add: avoidance_penalties_def)
  then show ?thesis
    by (rule for_each_invariant) (auto simp: bind_eq_Inr dest: inner)
qed

lemma slots_mem: "(b, g, s) \<in> set (slots d) \<longleftrightarrow> b \<in> set (bases d) \<and> g \<in> set (periods d) \<and> s \<in> set (shifts d)"
  by (auto simp: slots_def)

text \<open>
  C7. In the model built, the objective coefficient of \<open>x[m, b, g, s]\<close> is
  \<^verbatim>\<open>cost_dict.get((m, b), 0)\<close>: it does not depend on the period or the shift, and it is 0
  for a pair the cost table lacks.
\<close>

theorem objective_cost_coefficient:
  assumes built: "create_model backends self d = Inr M"
    and m: "m \<in> set (mechanics d)" and b: "b \<in> set (bases d)"
    and g: "g \<in> set (periods d)" and s: "s \<in> set (shifts d)"
  shows "\<exists>sv x v. self_solver M = Some sv \<and> self_x M = Some x \<and> map_of x (m, b, g, s) = Some v
           \<and> objective_coefficient sv v = dict_get (cost_dict d) (m, b) (Num 0)
           \<and> (map_of (cost_dict d) (m, b) = None \<longrightarrow> objective_coefficient sv v = Num 0)"
proof -
  from built obtain sv sv0 x ms mis av c1 c2 c3 c4 c5 sv1 sv2 sv3 where
    M: "self_solver M = Some sv" "self_x M = Some x"
    and xv: "create_x_vars d new_solver = (sv0, x)"
    and yv: "create_avoidance_vars d (add_constraints (c1 @ c2 @ c3 @ c4) sv0) = (sv1, av)"
    and mc: "movement_costs d x (add_constraints c5 sv1) = Inr sv2"
    and ap: "avoidance_penalties d av sv2 = Inr sv3"
    and sv: "sv = sv3\<lparr>minimization := True\<rparr>"
    by (rule create_model_parts)
  note S = create_model_solver [OF xv yv mc ap sv]
  let ?k = "(m, b, g, s)"
  have k: "?k \<in> set (List.product (mechanics d) (slots d))"
    using m b g s by (simp add: slots_mem)
  then obtain v where v: "map_of x ?k = Some v" using S(3) by auto
  have inj: "\<forall>k k' u. map_of x k = Some u \<longrightarrow> map_of x k' = Some u \<longrightarrow> k = k'"
    using S(5) by (blast dest: named_inject x_var_name_inject)
  from movement_loop [OF inj mc [unfolded movement_costs_steps]] k v
  have o2: "map_of (objective sv2) v = Some (cost_coefficient (cost_dict d) ?k)"
    by blast
  have "v \<notin> ran (map_of av)"
  proof
    assume "v \<in> ran (map_of av)"
    then obtain k' where "map_of av k' = Some v" by (auto simp: ran_def)
    from S(6) [OF this] S(5) [OF v] show False
      by (auto dest: named_inject simp: x_y_names_differ)
  qed
  from avoidance_penalties_other [OF ap this] o2
  have "map_of (objective sv) v = Some (cost_coefficient (cost_dict d) ?k)"
    using S(7) by simp
  then have "objective_coefficient sv v = dict_get (cost_dict d) (m, b) (Num 0)"
    by (simp add: objective_coefficient_def dict_get_def cost_coefficient_def)
  then show ?thesis using M v by (auto simp: dict_get_def)
qed

theorem objective_cost_coefficient_witness:
  "\<exists>M sv x v1 v2 v3.
      create_model [''SCIP'', ''CBC''] (init_optimizer ''SCIP'') roster_example = Inr M
      \<and> self_solver M = Some sv \<and> self_x M = Some x
      \<and> map_of x (Num 1, Num 1, Num 1, Num 1) = Some v1 \<and> objective_coefficient sv v1 = Num 10
      \<and> map_of x (Num 1, Num 1, Num 1, Num 2) = Some v2 \<and> objective_coefficient sv v2 = Num 10
      \<and> map_of x (Num 3, Num 1, Num 1, Num 2) = Some v3 \<and> objective_coefficient sv v3 = Num 0"
proof -
  from roster_example_builds obtain M where
    M: "create_model [''SCIP'', ''CBC''] (init_optimizer ''SCIP'') roster_example = Inr M"
    by (rule succeedsE)
  have mem: "Num 1 \<in> set (mechanics roster_example)" "Num 3 \<in> set (mechanics roster_example)"
    "Num 1 \<in> set (bases roster_example)" "Num 1 \<in> set (periods roster_example)"
    "Num 1 \<in> set (shifts roster_example)" "Num 2 \<in> set (shifts roster_example)"
    by (simp_all add: roster_example_def)
  have cd: "dict_get (cost_dict roster_example) (Num 1, Num 1) (Num 0) = Num 10"
    "dict_get (cost_dict roster_example) (Num 3, Num 1) (Num 0) = Num 0"
    by (simp_all add: roster_example_def dict_get_def)
  from objective_cost_coefficient [OF M mem(1) mem(3) mem(4) mem(5)]
    objective_cost_coefficient [OF M mem(1) mem(3) mem(4) mem(6)]
    objective_cost_coefficient [OF M mem(2) mem(3) mem(4) mem(6)]
  show ?thesis using M cd by (metis option.inject)
qed

section \<open>Avoidance linearization\<close>

lemma unique_pairs_mem:
  "(m1, m2) \<in> set (unique_pairs ad) \<longleftrightarrow> (m1, m2) \<in> fst ` set ad \<and> py_lt m1 m2"
  by (auto simp: unique_pairs_def)

lemma pair_slot_keys_mem:
  "(m1, m2, b, g, s) \<in> set (concat (map (\<lambda>(m1, m2). map (\<lambda>(b, g, s). (m1, m2, b, g, s)) sl) ps))
     \<longleftrightarrow> (m1, m2) \<in> set ps \<and> (b, g, s) \<in> set sl"
proof (induction ps)
  case Nil
  then show ?case by simp
next
  case (Cons p ps)
  obtain a c where p: "p = (a, c)" by (cases p)
  have "(m1, m2, b, g, s) \<in> set (map (\<lambda>(b, g, s). (a, c, b, g, s)) sl)
          \<longleftrightarrow> (m1, m2) = (a, c) \<and> (b, g, s) \<in> set sl"
    by (induction sl) auto
  then show ?case using Cons.IH p by auto
qed

lemma avoidance_keys_mem:
  "(m1, m2, b, g, s) \<in> set (avoidance_keys d) \<longleftrightarrow>
     (m1, m2) \<in> fst ` set (avoidance_dict d) \<and> py_lt m1 m2 \<and> (b, g, s) \<in> set (slots d)"
proof (cases "avoidance_dict d = []")
  case True
  then show ?thesis by (simp add: avoidance_keys_def)
next
  case False
  then show ?thesis
    by (simp only: avoidance_keys_def if_True pair_slot_keys_mem unique_pairs_mem simp_thms conj_assoc)
qed

lemma binary_value:
  assumes "0 \<le> r" and "r \<le> 1" and "of_int \<lfloor>r\<rfloor> = r"
  shows "r = 0 \<or> r = (1::real)"
proof -
  have "0 \<le> \<lfloor>r\<rfloor>" and "\<lfloor>r\<rfloor> \<le> 1" using assms(1,2) by (simp_all add: floor_le_iff) 
  then have "\<lfloor>r\<rfloor> = 0 \<or> \<lfloor>r\<rfloor> = 1" by linarith
  then show ?thesis using assms(3) by (metis of_int_0 of_int_1)
qed

lemma feasible_binary:
  assumes "feasible sv val" and "named sv v nm"
  shows "val v = 0 \<or> val v = 1"
proof -
  from assms(2) have v: "v < length (variables sv)" and var: "variables sv ! v = new_var nm"
    by (simp_all add: named_def)
  from assms(1) v have "in_domain val (variables sv) v"
    by (simp add: feasible_def list_all_iff)
  then show ?thesis using var by (auto simp: in_domain_def new_var_def intro: binary_value)
qed

lemma feasible_satisfies:
  "feasible sv val \<Longrightarrow> c \<in> set (constraints sv) \<Longrightarrow> satisfies val c"
  by (simp add: feasible_def list_all_iff)

lemma named_differ: "named sv v nm \<Longrightarrow> named sv v' nm' \<Longrightarrow> nm \<noteq> nm' \<Longrightarrow> v \<noteq> v'"
  by (auto dest: named_inject)

lemma linearization_rows:
  assumes lc: "linearization_constraints d x av = Inr c5"
    and key: "(m1, m2, b, g, s) \<in> set (avoidance_keys d)"
  shows "\<exists>y x1 x2. map_of av (m1, m2, b, g, s) = Some y \<and> map_of x (m1, b, g, s) = Some x1
           \<and> map_of x (m2, b, g, s) = Some x2
           \<and> SetCoefficient x1 (- 1) (SetCoefficient y 1
                  (Constraint MinusInfinity (Finite 0) (Avoid_y_le_x1_name m1 m2 b g s))) \<in> set c5
           \<and> SetCoefficient x2 (- 1) (SetCoefficient y 1
                  (Constraint MinusInfinity (Finite 0) (Avoid_y_le_x2_name m1 m2 b g s))) \<in> set c5
           \<and> SetCoefficient x2 1 (SetCoefficient x1 1 (SetCoefficient y (- 1)
                  (Constraint (Finite (- 1)) Infinity (Avoid_y_ge_sum_name m1 m2 b g s)))) \<in> set c5"
proof -
  from collect_Inr_mem [OF lc [unfolded linearization_constraints_def] key]
  obtain bs where bs: "(case (m1, m2, b, g, s) of (m1, m2, b, g, s) \<Rightarrow>
         bind (getitem av (m1, m2, b, g, s)) (\<lambda>y_var.
         bind (getitem x (m1, b, g, s)) (\<lambda>x1.
         bind (getitem x (m2, b, g, s)) (\<lambda>x2.
           Inr [SetCoefficient x1 (- 1) (SetCoefficient y_var 1
                  (Constraint MinusInfinity (Finite 0) (Avoid_y_le_x1_name m1 m2 b g s))),
                SetCoefficient x2 (- 1) (SetCoefficient y_var 1
                  (Constraint MinusInfinity (Finite 0) (Avoid_y_le_x2_name m1 m2 b g s))),
                SetCoefficient x2 1 (SetCoefficient x1 1 (SetCoefficient y_var (- 1)
                  (Constraint (Finite (- 1)) Infinity (Avoid_y_ge_sum_name m1 m2 b g s))))])))) = Inr bs"
    and sub: "set bs \<subseteq> set c5"
    by blast
  from bs obtain y x1 x2 where "map_of av (m1, m2, b, g, s) = Some y"
    "map_of x (m1, b, g, s) = Some x1" "map_of x (m2, b, g, s) = Some x2"
    "bs = [SetCoefficient x1 (- 1) (SetCoefficient y 1
                  (Constraint MinusInfinity (Finite 0) (Avoid_y_le_x1_name m1 m2 b g s))),
                SetCoefficient x2 (- 1) (SetCoefficient y 1
                  (Constraint MinusInfinity (Finite 0) (Avoid_y_le_x2_name m1 m2 b g s))),
                SetCoefficient x2 1 (SetCoefficient x1 1 (SetCoefficient y (- 1)
                  (Constraint (Finite (- 1)) Infinity (Avoid_y_ge_sum_name m1 m2 b g s))))]"
    by (auto simp: bind_eq_Inr getitem_eq_Inr)
  then show ?thesis using sub by auto
qed

text \<open>
  The rows the builder makes for an avoidance pair. For every key \<open>(m1, m2)\<close> of the
  avoidance dict with \<open>m1 < m2\<close>, whatever its penalty, and every slot, the model has the
  variable \<open>y\<close> and the rows \<open>y - x1 \<le> 0\<close>, \<open>y - x2 \<le> 0\<close> and \<open>- y + x1 + x2 \<ge> - 1\<close>.
  The third row bounds \<open>y\<close> from above, by \<open>x1 + x2 + 1\<close>, where the row's name
  (\<^verbatim>\<open>avoid_y_ge_sum\<close>) announces the lower bound \<open>x1 + x2 - 1\<close>.
\<close>

lemma avoidance_rows_built:
  assumes built: "create_model backends self d = Inr M"
    and pair: "(m1, m2) \<in> fst ` set (avoidance_dict d)" and lt: "py_lt m1 m2"
    and b: "b \<in> set (bases d)" and g: "g \<in> set (periods d)" and s: "s \<in> set (shifts d)"
  shows "\<exists>sv x av y x1 x2.
           self_solver M = Some sv \<and> self_x M = Some x \<and> self_avoidance_vars M = Some av
           \<and> map_of av (m1, m2, b, g, s) = Some y
           \<and> map_of x (m1, b, g, s) = Some x1 \<and> map_of x (m2, b, g, s) = Some x2
           \<and> \<lparr>con_lb = MinusInfinity, con_ub = Finite 0,
               con_name = Avoid_y_le_x1_name m1 m2 b g s,
               coefficients = [(y, 1), (x1, - 1)]\<rparr> \<in> set (constraints sv)
           \<and> \<lparr>con_lb = MinusInfinity, con_ub = Finite 0,
               con_name = Avoid_y_le_x2_name m1 m2 b g s,
               coefficients = [(y, 1), (x2, - 1)]\<rparr> \<in> set (constraints sv)
           \<and> \<lparr>con_lb = Finite (- 1), con_ub = Infinity,
               con_name = Avoid_y_ge_sum_name m1 m2 b g s,
               coefficients = [(y, - 1), (x1, 1), (x2, 1)]\<rparr> \<in> set (constraints sv)"
proof -
  from built obtain sv sv0 x ms mis av c1 c2 c3 c4 c5 sv1 sv2 sv3 where
    M: "self_solver M = Some sv" "self_x M = Some x" "self_avoidance_vars M = Some av"
    and xv: "create_x_vars d new_solver = (sv0, x)"
    and yv: "create_avoidance_vars d (add_constraints (c1 @ c2 @ c3 @ c4) sv0) = (sv1, av)"
    and lc: "linearization_constraints d x av = Inr c5"
    and mc: "movement_costs d x (add_constraints c5 sv1) = Inr sv2"
    and ap: "avoidance_penalties d av sv2 = Inr sv3"
    and sv: "sv = sv3\<lparr>minimization := True\<rparr>"
    by (rule create_model_parts)
  note S = create_model_solver [OF xv yv mc ap sv]
  have key: "(m1, m2, b, g, s) \<in> set (avoidance_keys d)"
    using pair lt b g s by (simp add: avoidance_keys_mem slots_mem)
  from linearization_rows [OF lc key] obtain y x1 x2 where
    y: "map_of av (m1, m2, b, g, s) = Some y" and x1: "map_of x (m1, b, g, s) = Some x1"
    and x2: "map_of x (m2, b, g, s) = Some x2"
    and r1: "SetCoefficient x1 (- 1) (SetCoefficient y 1
                  (Constraint MinusInfinity (Finite 0) (Avoid_y_le_x1_name m1 m2 b g s))) \<in> set c5"
    and r2: "SetCoefficient x2 (- 1) (SetCoefficient y 1
                  (Constraint MinusInfinity (Finite 0) (Avoid_y_le_x2_name m1 m2 b g s))) \<in> set c5"
    and r3: "SetCoefficient x2 1 (SetCoefficient x1 1 (SetCoefficient y (- 1)
                  (Constraint (Finite (- 1)) Infinity (Avoid_y_ge_sum_name m1 m2 b g s)))) \<in> set c5"
    by blast
  note ny = S(6) [OF y] and n1 = S(5) [OF x1] and n2 = S(5) [OF x2]
  have "m1 \<noteq> m2" using lt by (cases m1; cases m2) auto
  then have "x_var_name (m1, b, g, s) \<noteq> x_var_name (m2, b, g, s)"
    by (simp add: x_var_name_def)
  from named_differ [OF n1 n2 this] have d12: "x1 \<noteq> x2" .
  have dy1: "y \<noteq> x1" and dy2: "y \<noteq> x2"
    using named_differ [OF n1 ny] named_differ [OF n2 ny] by (auto simp: x_y_names_differ)
  let ?r1 = "\<lparr>con_lb = MinusInfinity, con_ub = Finite 0,
               con_name = Avoid_y_le_x1_name m1 m2 b g s,
               coefficients = [(y, 1), (x1, - 1)]\<rparr>"
  let ?r2 = "\<lparr>con_lb = MinusInfinity, con_ub = Finite 0,
               con_name = Avoid_y_le_x2_name m1 m2 b g s,
               coefficients = [(y, 1), (x2, - 1)]\<rparr>"
  let ?r3 = "\<lparr>con_lb = Finite (- 1), con_ub = Infinity,
               con_name = Avoid_y_ge_sum_name m1 m2 b g s,
               coefficients = [(y, - 1), (x1, 1), (x2, 1)]\<rparr>"
  have e1: "SetCoefficient x1 (- 1) (SetCoefficient y 1
                  (Constraint MinusInfinity (Finite 0) (Avoid_y_le_x1_name m1 m2 b g s))) = ?r1"
    using dy1 by (simp add: SetCoefficient_def Constraint_def)
  have e2: "SetCoefficient x2 (- 1) (SetCoefficient y 1
                  (Constraint MinusInfinity (Finite 0) (Avoid_y_le_x2_name m1 m2 b g s))) = ?r2"
    using dy2 by (simp add: SetCoefficient_def Constraint_def)
  have e3: "SetCoefficient x2 1 (SetCoefficient x1 1 (SetCoefficient y (- 1)
                  (Constraint (Finite (- 1)) Infinity (Avoid_y_ge_sum_name m1 m2 b g s)))) = ?r3"
    using dy1 dy2 d12 by (simp add: SetCoefficient_def Constraint_def)
  have in1: "?r1 \<in> set (constraints sv)" and in2: "?r2 \<in> set (constraints sv)"
    and in3: "?r3 \<in> set (constraints sv)"
    using r1 r2 r3 e1 e2 e3 S(2) by simp_all
  show ?thesis
    using M y x1 x2 in1 in2 in3 by blast
qed

text \<open>
  C1 does not hold of the code. In the model built from \<open>avoidance_example\<close> the valuation
  with both mechanics at the one slot (\<open>x1 = x2 = 1\<close>) and \<open>y = 0\<close> satisfies every row and
  every variable's domain, so a feasible integer solution has \<open>y \<noteq> x1 * x2\<close>: the third
  linearization row has its signs reversed.
\<close>

theorem avoidance_linearization_violated:
  "case create_model [''SCIP'', ''CBC''] (init_optimizer ''SCIP'') avoidance_example of
     Inl e \<Rightarrow> False
   | Inr M \<Rightarrow>
       (case (self_solver M, self_x M, self_avoidance_vars M) of
          (Some sv, Some x, Some av) \<Rightarrow>
            map_of x (Num 1, Num 1, Num 1, Num 1) = Some 0
            \<and> map_of x (Num 2, Num 1, Num 1, Num 1) = Some 1
            \<and> map_of av (Num 1, Num 2, Num 1, Num 1, Num 1) = Some 2
            \<and> \<lparr>con_lb = Finite (- 1), con_ub = Infinity,
                con_name = Avoid_y_ge_sum_name (Num 1) (Num 2) (Num 1) (Num 1) (Num 1),
                coefficients = [(2, - 1), (0, 1), (1, 1)]\<rparr> \<in> set (constraints sv)
            \<and> feasible sv both_assigned
            \<and> both_assigned 2 \<noteq> both_assigned 0 * both_assigned 1
        | _ \<Rightarrow> False)"
  by code_simp

section \<open>The rows of the constraint phases\<close>

lemma coefficient_SetCoefficient:
  "coefficient (SetCoefficient v0 k c) v = (if v = v0 then k else coefficient c v)"
  by (simp add: coefficient_def SetCoefficient_def dict_get_def update_conv')

lemma SetCoefficient_frame:
  "con_lb (SetCoefficient v k c) = con_lb c" "con_ub (SetCoefficient v k c) = con_ub c"
  "con_name (SetCoefficient v k c) = con_name c"
  by (simp_all add: SetCoefficient_def)

lemma coefficient_Constraint: "coefficient (Constraint lb ub nm) v = 0"
  by (simp add: coefficient_def Constraint_def dict_get_def)

lemma Constraint_frame:
  "con_lb (Constraint lb ub nm) = lb" "con_ub (Constraint lb ub nm) = ub"
  "con_name (Constraint lb ub nm) = nm"
  by (simp_all add: Constraint_def)

lemma coverage_constraint_steps:
  "coverage_constraint d x tbl col slot nm =
     for_each (coverage_step x tbl col slot) (mechanics d) (Constraint (Finite 1) Infinity nm)"
  unfolding coverage_constraint_def coverage_step_def ..

lemma coverage_loop:
  "for_each (coverage_step x tbl col slot) ms c0 = Inr c
   \<Longrightarrow> con_lb c = con_lb c0 \<and> con_ub c = con_ub c0 \<and> con_name c = con_name c0
       \<and> (\<forall>v. coefficient c v =
              (if \<exists>m\<in>set ms. has_skill tbl m col = Inr True \<and> map_of x (m, slot) = Some v
               then 1 else coefficient c0 v))"
proof (induction ms arbitrary: c0)
  case Nil
  then show ?case by simp
next
  case (Cons a ms)
  from Cons.prems obtain c1 where st: "coverage_step x tbl col slot a c0 = Inr c1"
    and run: "for_each (coverage_step x tbl col slot) ms c1 = Inr c"
    by (auto simp: bind_eq_Inr)
  note IH = Cons.IH [OF run]
  from st obtain h where h: "has_skill tbl a col = Inr h"
    and c1: "if h then \<exists>v. map_of x (a, slot) = Some v \<and> c1 = SetCoefficient v 1 c0 else c1 = c0"
    by (auto simp: coverage_step_def bind_eq_Inr getitem_eq_Inr split: if_splits)
  show ?case
  proof (cases h)
    case False
    then have "c1 = c0" using c1 by simp
    then show ?thesis using IH h False by auto
  next
    case True
    then obtain va where va: "map_of x (a, slot) = Some va" and c1': "c1 = SetCoefficient va 1 c0"
      using c1 by auto
    have frame: "con_lb c = con_lb c0 \<and> con_ub c = con_ub c0 \<and> con_name c = con_name c0"
      using IH c1' by (simp add: SetCoefficient_frame)
    have "coefficient c v =
              (if \<exists>m\<in>set (a # ms). has_skill tbl m col = Inr True \<and> map_of x (m, slot) = Some v
               then 1 else coefficient c0 v)" for v
    proof (cases "\<exists>m\<in>set ms. has_skill tbl m col = Inr True \<and> map_of x (m, slot) = Some v")
      case True
      then show ?thesis using IH by auto
    next
      case False
      have "coefficient c v =
              (if \<exists>m\<in>set ms. has_skill tbl m col = Inr True \<and> map_of x (m, slot) = Some v
               then 1 else coefficient c1 v)" using IH by blast
      then have "coefficient c v = coefficient c1 v" using False by (simp only: if_False)
      also have "\<dots> = (if v = va then 1 else coefficient c0 v)"
        by (simp add: c1' coefficient_SetCoefficient)
      finally show ?thesis using False h \<open>h\<close> va by auto
    qed
    then show ?thesis using frame by blast
  qed
qed

lemma coverage_constraint_result:
  assumes "coverage_constraint d x tbl col slot nm = Inr c"
  shows "con_lb c = Finite 1" and "con_ub c = Infinity" and "con_name c = nm"
    and "coefficient c v =
           (if \<exists>m\<in>set (mechanics d). has_skill tbl m col = Inr True \<and> map_of x (m, slot) = Some v
            then 1 else 0)"
  using coverage_loop [OF assms [unfolded coverage_constraint_steps]]
  by (simp_all add: Constraint_frame coefficient_Constraint)

lemma skill_coverage_by_row:
  "skill_coverage_constraints d x ms = collect (skill_rows_of_row d x ms) (rows (base_schedule_df d))"
proof -
  have "skill_coverage_constraints d x ms
          = collect (\<lambda>row. skill_rows_of_row d x ms row) (rows (base_schedule_df d))"
    unfolding skill_coverage_constraints_def skill_rows_of_row_def skill_rows_of_def split_def
    by (simp only: prod.collapse)
  then show ?thesis by simp
qed

lemma skill_rows_of_mem:
  assumes "skill_rows_of d x ms (b, g, s) aircraft = Inr cs"
  shows "c \<in> set cs \<longleftrightarrow>
           (\<exists>skill\<in>set skill_types.
              coverage_constraint d x ms (aircraft @ skill) (b, g, s)
                (Skill_name (aircraft @ skill) b g s) = Inr c)"
proof
  assume "c \<in> set cs"
  from collect_Inr_inv [OF assms [unfolded skill_rows_of_def] this]
  show "\<exists>skill\<in>set skill_types.
              coverage_constraint d x ms (aircraft @ skill) (b, g, s)
                (Skill_name (aircraft @ skill) b g s) = Inr c"
    by (auto simp: bind_eq_Inr)
next
  assume "\<exists>skill\<in>set skill_types.
              coverage_constraint d x ms (aircraft @ skill) (b, g, s)
                (Skill_name (aircraft @ skill) b g s) = Inr c"
  then obtain skill where sk: "skill \<in> set skill_types"
    and c: "coverage_constraint d x ms (aircraft @ skill) (b, g, s)
                (Skill_name (aircraft @ skill) b g s) = Inr c"
    by blast
  from collect_Inr_mem [OF assms [unfolded skill_rows_of_def] sk] c
  show "c \<in> set cs" by (auto simp: bind_eq_Inr)
qed

lemma skill_rows_of_row_mem:
  assumes "skill_rows_of_row d x ms row = Inr cs"
  shows "\<exists>b g s. row_slot row = Inr (b, g, s) \<and>
          (\<forall>c. c \<in> set cs \<longleftrightarrow>
             (\<exists>aircraft\<in>set aircraft_types. \<exists>skill\<in>set skill_types.
                aircraft_active (columns (base_schedule_df d)) row aircraft = Inr True
                \<and> coverage_constraint d x ms (aircraft @ skill) (b, g, s)
                     (Skill_name (aircraft @ skill) b g s) = Inr c))"
proof -
  let ?g = "\<lambda>slot aircraft.
           bind (aircraft_active (columns (base_schedule_df d)) row aircraft) (\<lambda>active.
             if active then skill_rows_of d x ms slot aircraft else Inr [])"
  from assms obtain slot where slot: "row_slot row = Inr slot"
    and run: "collect (?g slot) aircraft_types = Inr cs"
    by (auto simp: skill_rows_of_row_def bind_eq_Inr)
  obtain b g s where bgs: "slot = (b, g, s)" by (cases slot)
  have "c \<in> set cs \<longleftrightarrow>
             (\<exists>aircraft\<in>set aircraft_types. \<exists>skill\<in>set skill_types.
                aircraft_active (columns (base_schedule_df d)) row aircraft = Inr True
                \<and> coverage_constraint d x ms (aircraft @ skill) (b, g, s)
                     (Skill_name (aircraft @ skill) b g s) = Inr c)" for c
  proof
    assume "c \<in> set cs"
    from collect_Inr_inv [OF run this] obtain aircraft bs where a: "aircraft \<in> set aircraft_types"
      and bs: "?g slot aircraft = Inr bs" and c: "c \<in> set bs"
      by blast
    from bs c have act: "aircraft_active (columns (base_schedule_df d)) row aircraft = Inr True"
      and rows: "skill_rows_of d x ms (b, g, s) aircraft = Inr bs"
      by (auto simp: bind_eq_Inr bgs split: if_splits)
    from skill_rows_of_mem [OF rows, of c] c a act
    show "\<exists>aircraft\<in>set aircraft_types. \<exists>skill\<in>set skill_types.
                aircraft_active (columns (base_schedule_df d)) row aircraft = Inr True
                \<and> coverage_constraint d x ms (aircraft @ skill) (b, g, s)
                     (Skill_name (aircraft @ skill) b g s) = Inr c"
      by blast
  next
    assume "\<exists>aircraft\<in>set aircraft_types. \<exists>skill\<in>set skill_types.
                aircraft_active (columns (base_schedule_df d)) row aircraft = Inr True
                \<and> coverage_constraint d x ms (aircraft @ skill) (b, g, s)
                     (Skill_name (aircraft @ skill) b g s) = Inr c"
    then obtain aircraft skill where a: "aircraft \<in> set aircraft_types"
      and sk: "skill \<in> set skill_types"
      and act: "aircraft_active (columns (base_schedule_df d)) row aircraft = Inr True"
      and c: "coverage_constraint d x ms (aircraft @ skill) (b, g, s)
                     (Skill_name (aircraft @ skill) b g s) = Inr c"
      by blast
    from collect_Inr_mem [OF run a] obtain bs where bs: "?g slot aircraft = Inr bs"
      and sub: "set bs \<subseteq> set cs" by blast
    from bs act have "skill_rows_of d x ms (b, g, s) aircraft = Inr bs"
      by (simp add: bind_Inr bgs)
    from skill_rows_of_mem [OF this, of c] sk c have "c \<in> set bs" by blast
    then show "c \<in> set cs" using sub by blast
  qed
  then show ?thesis using slot bgs by blast
qed

lemma skill_coverage_mem:
  assumes "skill_coverage_constraints d x ms = Inr c2"
  shows "c \<in> set c2 \<longleftrightarrow>
           (\<exists>row\<in>set (rows (base_schedule_df d)). \<exists>b g s.
              row_slot row = Inr (b, g, s) \<and>
              (\<exists>aircraft\<in>set aircraft_types. \<exists>skill\<in>set skill_types.
                aircraft_active (columns (base_schedule_df d)) row aircraft = Inr True
                \<and> coverage_constraint d x ms (aircraft @ skill) (b, g, s)
                     (Skill_name (aircraft @ skill) b g s) = Inr c))"
proof
  assume "c \<in> set c2"
  from collect_Inr_inv [OF assms [unfolded skill_coverage_by_row] this]
  obtain row bs where row: "row \<in> set (rows (base_schedule_df d))"
    and bs: "skill_rows_of_row d x ms row = Inr bs" and c: "c \<in> set bs"
    by blast
  from skill_rows_of_row_mem [OF bs] c row
  show "\<exists>row\<in>set (rows (base_schedule_df d)). \<exists>b g s.
              row_slot row = Inr (b, g, s) \<and>
              (\<exists>aircraft\<in>set aircraft_types. \<exists>skill\<in>set skill_types.
                aircraft_active (columns (base_schedule_df d)) row aircraft = Inr True
                \<and> coverage_constraint d x ms (aircraft @ skill) (b, g, s)
                     (Skill_name (aircraft @ skill) b g s) = Inr c)"
    by blast
next
  assume "\<exists>row\<in>set (rows (base_schedule_df d)). \<exists>b g s.
              row_slot row = Inr (b, g, s) \<and>
              (\<exists>aircraft\<in>set aircraft_types. \<exists>skill\<in>set skill_types.
                aircraft_active (columns (base_schedule_df d)) row aircraft = Inr True
                \<and> coverage_constraint d x ms (aircraft @ skill) (b, g, s)
                     (Skill_name (aircraft @ skill) b g s) = Inr c)"
  then obtain row b g s where row: "row \<in> set (rows (base_schedule_df d))"
    and slot: "row_slot row = Inr (b, g, s)"
    and ex: "\<exists>aircraft\<in>set aircraft_types. \<exists>skill\<in>set skill_types.
                aircraft_active (columns (base_schedule_df d)) row aircraft = Inr True
                \<and> coverage_constraint d x ms (aircraft @ skill) (b, g, s)
                     (Skill_name (aircraft @ skill) b g s) = Inr c"
    by blast
  from collect_Inr_mem [OF assms [unfolded skill_coverage_by_row] row]
  obtain bs where bs: "skill_rows_of_row d x ms row = Inr bs" and sub: "set bs \<subseteq> set c2"
    by blast
  from skill_rows_of_row_mem [OF bs] slot ex have "c \<in> set bs" by auto
  then show "c \<in> set c2" using sub by blast
qed

lemma set_coefficients_frame:
  assumes "set_coefficients x keys k c0 = Inr c"
  shows "con_lb c = con_lb c0 \<and> con_ub c = con_ub c0 \<and> con_name c = con_name c0"
  using assms unfolding set_coefficients_def
  by (rule for_each_invariant) (auto simp: bind_eq_Inr SetCoefficient_frame)

lemma single_assignment_kind:
  assumes "single_assignment_constraints d x = Inr c1" and "c \<in> set c1"
  shows "name_kind (con_name c) = 1"
proof -
  from collect_Inr_inv [OF assms(1) [unfolded single_assignment_constraints_def] assms(2)]
  obtain m where "set_coefficients x (map (\<lambda>(b, g, s). (m, b, g, s)) (slots d)) 1
                 (Constraint (Finite 0) (Finite 1) (Single_assignment_name m)) = Inr c"
    by (auto simp: bind_eq_Inr)
  from set_coefficients_frame [OF this] show ?thesis by (simp add: Constraint_frame)
qed

lemma skill_coverage_kind:
  assumes "skill_coverage_constraints d x ms = Inr c2" and "c \<in> set c2"
  shows "name_kind (con_name c) = 2"
  using skill_coverage_mem [OF assms(1), of c] assms(2)
  by (auto dest!: coverage_constraint_result(3))

lemma inspector_coverage_kind:
  assumes "inspector_coverage_constraints d x mis irc = Inr c3" and "c \<in> set c3"
  shows "name_kind (con_name c) = 3"
proof (cases "irc = []")
  case True
  then show ?thesis using assms by (simp add: inspector_coverage_constraints_def)
next
  case False
  with assms(1) have run: "collect (\<lambda>row.
               bind (row_slot row) (\<lambda>(base_id, period, shift).
                 collect (\<lambda>inspector_col.
                     bind (inspector_active (columns (base_schedule_df d)) row inspector_col)
                       (\<lambda>active.
                          if active
                          then bind (coverage_constraint d x mis inspector_col
                                       (base_id, period, shift)
                                       (Inspector_name inspector_col base_id period shift))
                                 (\<lambda>c. Inr [c])
                          else Inr []))
                   irc))
             (rows (base_schedule_df d)) = Inr c3"
    by (simp add: inspector_coverage_constraints_def)
  from collect_Inr_inv [OF run assms(2)] obtain row b g s bs where
    "collect (\<lambda>inspector_col.
                     bind (inspector_active (columns (base_schedule_df d)) row inspector_col)
                       (\<lambda>active.
                          if active
                          then bind (coverage_constraint d x mis inspector_col (b, g, s)
                                       (Inspector_name inspector_col b g s))
                                 (\<lambda>c. Inr [c])
                          else Inr []))
                   irc = Inr bs" and "c \<in> set bs"
    by (auto simp: bind_eq_Inr)
  from collect_Inr_inv [OF this] obtain col where
    "coverage_constraint d x mis col (b, g, s) (Inspector_name col b g s) = Inr c"
    by (auto simp: bind_eq_Inr split: if_splits)
  from coverage_constraint_result(3) [OF this] show ?thesis by simp
qed

lemma linearization_kind:
  assumes "linearization_constraints d x av = Inr c5" and "c \<in> set c5"
  shows "name_kind (con_name c) = 5"
proof -
  from collect_Inr_inv [OF assms(1) [unfolded linearization_constraints_def] assms(2)]
  show ?thesis
    by (auto simp: bind_eq_Inr SetCoefficient_frame Constraint_frame)
qed

lemma set_coefficients_loop:
  "for_each (\<lambda>key c. bind (getitem x key) (\<lambda>v. Inr (SetCoefficient v k c))) keys c0 = Inr c
   \<Longrightarrow> set keys \<subseteq> dom (map_of x)
       \<and> (\<forall>v. coefficient c v =
              (if \<exists>key\<in>set keys. map_of x key = Some v then k else coefficient c0 v))"
proof (induction keys arbitrary: c0)
  case Nil
  then show ?case by simp
next
  case (Cons a keys)
  from Cons.prems obtain va where va: "map_of x a = Some va"
    and run: "for_each (\<lambda>key c. bind (getitem x key) (\<lambda>v. Inr (SetCoefficient v k c))) keys
                (SetCoefficient va k c0) = Inr c"
    by (auto simp: bind_eq_Inr getitem_eq_Inr)
  note IH = Cons.IH [OF run]
  have "coefficient c v =
              (if \<exists>key\<in>set (a # keys). map_of x key = Some v then k else coefficient c0 v)" for v
  proof (cases "\<exists>key\<in>set keys. map_of x key = Some v")
    case True
    then show ?thesis using IH by auto
  next
    case False
    have "coefficient c v =
              (if \<exists>key\<in>set keys. map_of x key = Some v then k
               else coefficient (SetCoefficient va k c0) v)" using IH by blast
    then have "coefficient c v = coefficient (SetCoefficient va k c0) v"
      using False by (simp only: if_False)
    then show ?thesis using False va by (auto simp: coefficient_SetCoefficient)
  qed
  then show ?case using IH va by auto
qed

lemma set_coefficients_result:
  assumes "set_coefficients x keys k c0 = Inr c"
  shows "set keys \<subseteq> dom (map_of x)"
    and "coefficient c v = (if \<exists>key\<in>set keys. map_of x key = Some v then k else coefficient c0 v)"
  using set_coefficients_loop [OF assms [unfolded set_coefficients_def]] by blast+

lemma other_mechanics_loop:
  "for_each (\<lambda>m acc.
         if m \<noteq> m_inspector
         then bind (has_skill ms m r) (\<lambda>h. Inr (if h then acc @ [m] else acc))
         else Inr acc) mechs acc0 = Inr others
   \<Longrightarrow> others = acc0 @ filter (\<lambda>m. m \<noteq> m_inspector \<and> has_skill ms m r = Inr True) mechs"
proof (induction mechs arbitrary: acc0)
  case Nil
  then show ?case by simp
next
  case (Cons a mechs)
  show ?case
  proof (cases "a = m_inspector")
    case True
    then show ?thesis using Cons.prems Cons.IH [of acc0] by (simp add: bind_Inr)
  next
    case False
    with Cons.prems obtain h where h: "has_skill ms a r = Inr h"
      and run: "for_each (\<lambda>m acc.
         if m \<noteq> m_inspector
         then bind (has_skill ms m r) (\<lambda>h. Inr (if h then acc @ [m] else acc))
         else Inr acc) mechs (if h then acc0 @ [a] else acc0) = Inr others"
      by (auto simp: bind_eq_Inr)
    from Cons.IH [OF run] h False show ?thesis by (cases h) auto
  qed
qed

lemma other_mechanics_result:
  "other_mechanics_with_skill d ms r m_inspector = Inr others
   \<Longrightarrow> others = filter (\<lambda>m. m \<noteq> m_inspector \<and> has_skill ms m r = Inr True) (mechanics d)"
  using other_mechanics_loop [of m_inspector ms r "mechanics d" "[]" others]
  by (simp add: other_mechanics_with_skill_def)

lemma bind_assoc: "bind (bind m f) g = bind m (\<lambda>v. bind (f v) g)"
  by (cases m) (simp_all add: bind_def)

lemma no_self_inspection_by_row:
  "no_self_inspection_constraints d x ms mis irc =
     (if irc \<noteq> [] then collect (no_self_rows_of_row d x ms mis irc) (rows (base_schedule_df d))
      else Inr [])"
proof -
  have "no_self_inspection_constraints d x ms mis irc =
     (if irc \<noteq> []
      then collect (\<lambda>row. no_self_rows_of_row d x ms mis irc row) (rows (base_schedule_df d))
      else Inr [])"
    unfolding no_self_inspection_constraints_def no_self_rows_of_row_def
      no_self_rows_of_mechanic_def no_self_row_def split_def
    by (simp only: prod.collapse bind_assoc)
  then show ?thesis by simp
qed

lemma no_self_row_result:
  assumes "no_self_row x col (b, g, s) m others = Inr c"
  shows "con_name c = No_self_inspect_name col b g s m"
    and "con_lb c = MinusInfinity" and "con_ub c = Finite 0"
    and "coefficient c v =
           (if \<exists>m'\<in>set others. map_of x (m', b, g, s) = Some v then - 1
            else if map_of x (m, b, g, s) = Some v then 1 else 0)"
proof -
  from assms obtain vm where vm: "map_of x (m, b, g, s) = Some vm"
    and sc: "set_coefficients x (map (\<lambda>m_other. (m_other, b, g, s)) others) (- 1)
         (SetCoefficient vm 1
            (Constraint MinusInfinity (Finite 0) (No_self_inspect_name col b g s m))) = Inr c"
    by (auto simp: no_self_row_def bind_eq_Inr getitem_eq_Inr)
  from set_coefficients_frame [OF sc]
  show "con_name c = No_self_inspect_name col b g s m"
    and "con_lb c = MinusInfinity" and "con_ub c = Finite 0"
    by (simp_all add: SetCoefficient_frame Constraint_frame)
  have "(\<exists>key\<in>set (map (\<lambda>m_other. (m_other, b, g, s)) others). map_of x key = Some v)
          \<longleftrightarrow> (\<exists>m'\<in>set others. map_of x (m', b, g, s) = Some v)"
    by auto
  with set_coefficients_result(2) [OF sc, of v] vm
  show "coefficient c v =
           (if \<exists>m'\<in>set others. map_of x (m', b, g, s) = Some v then - 1
            else if map_of x (m, b, g, s) = Some v then 1 else 0)"
    by (auto simp: coefficient_SetCoefficient coefficient_Constraint)
qed

lemma no_self_rows_of_mechanic_mem:
  assumes "no_self_rows_of_mechanic d x ms mis col slot m = Inr bs"
  shows "c \<in> set bs \<longleftrightarrow>
           (has_skill mis m col = Inr True \<and> others_of d ms col m \<noteq> []
            \<and> no_self_row x col slot m (others_of d ms col m) = Inr c)"
proof (cases "has_skill mis m col")
  case (Inl e)
  then show ?thesis using assms by (simp add: no_self_rows_of_mechanic_def bind_Inl)
next
  case (Inr h)
  show ?thesis
  proof (cases h)
    case False
    then have "bs = []" using assms Inr by (simp add: no_self_rows_of_mechanic_def bind_Inr)
    then show ?thesis using Inr False by simp
  next
    case True
    have step: "bind (other_mechanics_with_skill d ms (replace_inspec col) m) (\<lambda>others.
              if others \<noteq> []
              then bind (no_self_row x col slot m others) (\<lambda>c. Inr [c])
              else Inr []) = Inr bs"
      using assms Inr True by (simp add: no_self_rows_of_mechanic_def bind_Inr)
    then obtain others where
      o: "other_mechanics_with_skill d ms (replace_inspec col) m = Inr others"
      and r: "(if others \<noteq> [] then bind (no_self_row x col slot m others) (\<lambda>c. Inr [c]) else Inr [])
               = Inr bs"
      unfolding bind_eq_Inr by blast
    have oo: "others_of d ms col m = others"
      using other_mechanics_result [OF o] by (simp add: others_of_def)
    show ?thesis
    proof (cases "others = []")
      case True
      then have "bs = []" using r by simp
      then show ?thesis using oo True by simp
    next
      case False
      then have "bind (no_self_row x col slot m others) (\<lambda>c. Inr [c]) = Inr bs" using r by simp
      then obtain c' where c': "no_self_row x col slot m others = Inr c'" and bs: "bs = [c']"
        unfolding bind_eq_Inr by auto
      show ?thesis unfolding oo using c' bs False Inr \<open>h\<close> by auto
    qed
  qed
qed

lemma no_self_rows_of_row_mem:
  assumes "no_self_rows_of_row d x ms mis irc row = Inr cs"
  shows "\<exists>slot. row_slot row = Inr slot \<and>
          (\<forall>c. c \<in> set cs \<longleftrightarrow>
             (\<exists>col\<in>set irc. inspector_active (columns (base_schedule_df d)) row col = Inr True
                \<and> (\<exists>m\<in>set (mechanics d). has_skill mis m col = Inr True
                      \<and> others_of d ms col m \<noteq> []
                      \<and> no_self_row x col slot m (others_of d ms col m) = Inr c)))"
proof -
  let ?g = "\<lambda>slot col.
           bind (inspector_active (columns (base_schedule_df d)) row col) (\<lambda>active.
             if active
             then collect (no_self_rows_of_mechanic d x ms mis col slot) (mechanics d)
             else Inr [])"
  from assms obtain slot where slot: "row_slot row = Inr slot"
    and run: "collect (?g slot) irc = Inr cs"
    by (auto simp: no_self_rows_of_row_def bind_eq_Inr)
  have "c \<in> set cs \<longleftrightarrow>
             (\<exists>col\<in>set irc. inspector_active (columns (base_schedule_df d)) row col = Inr True
                \<and> (\<exists>m\<in>set (mechanics d). has_skill mis m col = Inr True
                      \<and> others_of d ms col m \<noteq> []
                      \<and> no_self_row x col slot m (others_of d ms col m) = Inr c))" for c
  proof
    assume "c \<in> set cs"
    from collect_Inr_inv [OF run this] obtain col bs where col: "col \<in> set irc"
      and bs: "?g slot col = Inr bs" and c: "c \<in> set bs"
      by blast
    from bs c have act: "inspector_active (columns (base_schedule_df d)) row col = Inr True"
      and ms: "collect (no_self_rows_of_mechanic d x ms mis col slot) (mechanics d) = Inr bs"
      by (auto simp: bind_eq_Inr split: if_splits)
    from collect_Inr_inv [OF ms c] obtain m bs' where m: "m \<in> set (mechanics d)"
      and bs': "no_self_rows_of_mechanic d x ms mis col slot m = Inr bs'" and c': "c \<in> set bs'"
      by blast
    from no_self_rows_of_mechanic_mem [OF bs', of c] c' col act m
    show "\<exists>col\<in>set irc. inspector_active (columns (base_schedule_df d)) row col = Inr True
                \<and> (\<exists>m\<in>set (mechanics d). has_skill mis m col = Inr True
                      \<and> others_of d ms col m \<noteq> []
                      \<and> no_self_row x col slot m (others_of d ms col m) = Inr c)"
      by blast
  next
    assume "\<exists>col\<in>set irc. inspector_active (columns (base_schedule_df d)) row col = Inr True
                \<and> (\<exists>m\<in>set (mechanics d). has_skill mis m col = Inr True
                      \<and> others_of d ms col m \<noteq> []
                      \<and> no_self_row x col slot m (others_of d ms col m) = Inr c)"
    then obtain col m where col: "col \<in> set irc"
      and act: "inspector_active (columns (base_schedule_df d)) row col = Inr True"
      and m: "m \<in> set (mechanics d)"
      and rest: "has_skill mis m col = Inr True \<and> others_of d ms col m \<noteq> []
                      \<and> no_self_row x col slot m (others_of d ms col m) = Inr c"
      by blast
    from collect_Inr_mem [OF run col] obtain bs where bs: "?g slot col = Inr bs"
      and sub: "set bs \<subseteq> set cs" by blast
    from bs act have ms: "collect (no_self_rows_of_mechanic d x ms mis col slot) (mechanics d) = Inr bs"
      by (simp add: bind_Inr)
    from collect_Inr_mem [OF ms m] obtain bs' where
      bs': "no_self_rows_of_mechanic d x ms mis col slot m = Inr bs'" and sub': "set bs' \<subseteq> set bs"
      by blast
    from no_self_rows_of_mechanic_mem [OF bs', of c] rest have "c \<in> set bs'" by blast
    then show "c \<in> set cs" using sub sub' by blast
  qed
  then show ?thesis using slot by blast
qed

lemma no_self_inspection_mem:
  assumes "no_self_inspection_constraints d x ms mis irc = Inr c4"
  shows "c \<in> set c4 \<longleftrightarrow>
           (\<exists>row\<in>set (rows (base_schedule_df d)). \<exists>slot. row_slot row = Inr slot \<and>
             (\<exists>col\<in>set irc. inspector_active (columns (base_schedule_df d)) row col = Inr True
                \<and> (\<exists>m\<in>set (mechanics d). has_skill mis m col = Inr True
                      \<and> others_of d ms col m \<noteq> []
                      \<and> no_self_row x col slot m (others_of d ms col m) = Inr c)))"
proof (cases "irc = []")
  case True
  then show ?thesis using assms by (auto simp: no_self_inspection_by_row)
next
  case False
  with assms have run: "collect (no_self_rows_of_row d x ms mis irc) (rows (base_schedule_df d)) = Inr c4"
    by (simp add: no_self_inspection_by_row)
  show ?thesis
  proof
    assume "c \<in> set c4"
    from collect_Inr_inv [OF run this] obtain row bs where row: "row \<in> set (rows (base_schedule_df d))"
      and bs: "no_self_rows_of_row d x ms mis irc row = Inr bs" and c: "c \<in> set bs"
      by blast
    from no_self_rows_of_row_mem [OF bs] c row
    show "\<exists>row\<in>set (rows (base_schedule_df d)). \<exists>slot. row_slot row = Inr slot \<and>
             (\<exists>col\<in>set irc. inspector_active (columns (base_schedule_df d)) row col = Inr True
                \<and> (\<exists>m\<in>set (mechanics d). has_skill mis m col = Inr True
                      \<and> others_of d ms col m \<noteq> []
                      \<and> no_self_row x col slot m (others_of d ms col m) = Inr c))"
      by blast
  next
    assume "\<exists>row\<in>set (rows (base_schedule_df d)). \<exists>slot. row_slot row = Inr slot \<and>
             (\<exists>col\<in>set irc. inspector_active (columns (base_schedule_df d)) row col = Inr True
                \<and> (\<exists>m\<in>set (mechanics d). has_skill mis m col = Inr True
                      \<and> others_of d ms col m \<noteq> []
                      \<and> no_self_row x col slot m (others_of d ms col m) = Inr c))"
    then obtain row slot where row: "row \<in> set (rows (base_schedule_df d))"
      and slot: "row_slot row = Inr slot"
      and ex: "\<exists>col\<in>set irc. inspector_active (columns (base_schedule_df d)) row col = Inr True
                \<and> (\<exists>m\<in>set (mechanics d). has_skill mis m col = Inr True
                      \<and> others_of d ms col m \<noteq> []
                      \<and> no_self_row x col slot m (others_of d ms col m) = Inr c)"
      by blast
    from collect_Inr_mem [OF run row] obtain bs where
      bs: "no_self_rows_of_row d x ms mis irc row = Inr bs" and sub: "set bs \<subseteq> set c4"
      by blast
    from no_self_rows_of_row_mem [OF bs] slot ex have "c \<in> set bs" by auto
    then show "c \<in> set c4" using sub by blast
  qed
qed

lemma no_self_inspection_kind:
  assumes "no_self_inspection_constraints d x ms mis irc = Inr c4" and "c \<in> set c4"
  shows "name_kind (con_name c) = 4"
proof -
  from no_self_inspection_mem [OF assms(1), of c] assms(2)
  obtain col slot m where "no_self_row x col slot m (others_of d ms col m) = Inr c" by blast
  then show ?thesis by (cases slot) (auto dest: no_self_row_result(1))
qed

lemma no_self_inspection_built:
  assumes run: "no_self_inspection_constraints d x ms mis irc = Inr c4"
    and row: "row \<in> set (rows (base_schedule_df d))"
    and slot: "row_slot row = Inr slot"
    and col: "col \<in> set irc"
    and act: "inspector_active (columns (base_schedule_df d)) row col = Inr True"
    and m: "m \<in> set (mechanics d)"
    and ins: "has_skill mis m col = Inr True"
    and others: "others_of d ms col m \<noteq> []"
  shows "\<exists>c\<in>set c4. no_self_row x col slot m (others_of d ms col m) = Inr c"
proof -
  from col have "irc \<noteq> []" by auto
  with run have r1: "collect (no_self_rows_of_row d x ms mis irc) (rows (base_schedule_df d)) = Inr c4"
    by (simp add: no_self_inspection_by_row)
  from collect_Inr_mem [OF r1 row] obtain bs where
    bs: "no_self_rows_of_row d x ms mis irc row = Inr bs" and sub: "set bs \<subseteq> set c4"
    by blast
  from bs slot have r2: "collect (\<lambda>col.
           bind (inspector_active (columns (base_schedule_df d)) row col) (\<lambda>active.
             if active
             then collect (no_self_rows_of_mechanic d x ms mis col slot) (mechanics d)
             else Inr []))
         irc = Inr bs"
    by (simp add: no_self_rows_of_row_def bind_Inr)
  from collect_Inr_mem [OF r2 col] act obtain bs1 where
    r3: "collect (no_self_rows_of_mechanic d x ms mis col slot) (mechanics d) = Inr bs1"
    and sub1: "set bs1 \<subseteq> set bs"
    by (auto simp: bind_Inr)
  from collect_Inr_mem [OF r3 m] obtain bs2 where
    r4: "no_self_rows_of_mechanic d x ms mis col slot m = Inr bs2" and sub2: "set bs2 \<subseteq> set bs1"
    by blast
  from r4 ins have "bind (other_mechanics_with_skill d ms (replace_inspec col) m) (\<lambda>others.
              if others \<noteq> []
              then bind (no_self_row x col slot m others) (\<lambda>c. Inr [c])
              else Inr []) = Inr bs2"
    by (simp add: no_self_rows_of_mechanic_def bind_Inr)
  then obtain os where
    o: "other_mechanics_with_skill d ms (replace_inspec col) m = Inr os"
    and r5: "(if os \<noteq> [] then bind (no_self_row x col slot m os) (\<lambda>c. Inr [c]) else Inr [])
               = Inr bs2"
    unfolding bind_eq_Inr by blast
  have oo: "others_of d ms col m = os"
    using other_mechanics_result [OF o] by (simp add: others_of_def)
  with others r5 have "bind (no_self_row x col slot m os) (\<lambda>c. Inr [c]) = Inr bs2" by simp
  then obtain c where c: "no_self_row x col slot m os = Inr c" and b2: "bs2 = [c]"
    unfolding bind_eq_Inr by auto
  from b2 sub2 sub1 sub have "c \<in> set c4" by auto
  with c oo show ?thesis by blast
qed

lemma others_of_nonempty:
  "others_of d ms col m_inspector \<noteq> [] \<longleftrightarrow>
     (\<exists>m\<in>set (mechanics d). m \<noteq> m_inspector \<and> has_skill ms m (replace_inspec col) = Inr True)"
  by (auto simp: others_of_def filter_empty_conv)

lemma others_of_mem:
  "m \<in> set (others_of d ms col m_inspector) \<longleftrightarrow>
     m \<in> set (mechanics d) \<and> m \<noteq> m_inspector \<and> has_skill ms m (replace_inspec col) = Inr True"
  by (auto simp: others_of_def)

lemma name_kind_constraints:
  assumes c1: "single_assignment_constraints d x = Inr c1"
    and c2: "skill_coverage_constraints d x ms = Inr c2"
    and c3: "inspector_coverage_constraints d x mis irc = Inr c3"
    and c4: "no_self_inspection_constraints d x ms mis irc = Inr c4"
    and c5: "linearization_constraints d x av = Inr c5"
    and c: "c \<in> set ((c1 @ c2 @ c3 @ c4) @ c5)"
  shows "name_kind (con_name c) = 1 \<longleftrightarrow> c \<in> set c1"
    and "name_kind (con_name c) = 2 \<longleftrightarrow> c \<in> set c2"
    and "name_kind (con_name c) = 3 \<longleftrightarrow> c \<in> set c3"
    and "name_kind (con_name c) = 4 \<longleftrightarrow> c \<in> set c4"
    and "name_kind (con_name c) = 5 \<longleftrightarrow> c \<in> set c5"
proof -
  from c consider "c \<in> set c1" | "c \<in> set c2" | "c \<in> set c3" | "c \<in> set c4" | "c \<in> set c5"
    by auto
  then have "(name_kind (con_name c) = 1 \<longleftrightarrow> c \<in> set c1)
     \<and> (name_kind (con_name c) = 2 \<longleftrightarrow> c \<in> set c2)
     \<and> (name_kind (con_name c) = 3 \<longleftrightarrow> c \<in> set c3)
     \<and> (name_kind (con_name c) = 4 \<longleftrightarrow> c \<in> set c4)
     \<and> (name_kind (con_name c) = 5 \<longleftrightarrow> c \<in> set c5)"
  proof cases
    case 1
    from single_assignment_kind [OF c1 1] show ?thesis
      using skill_coverage_kind [OF c2, of c] inspector_coverage_kind [OF c3, of c]
        no_self_inspection_kind [OF c4, of c] linearization_kind [OF c5, of c] 1
      by auto
  next
    case 2
    from skill_coverage_kind [OF c2 2] show ?thesis
      using single_assignment_kind [OF c1, of c] inspector_coverage_kind [OF c3, of c]
        no_self_inspection_kind [OF c4, of c] linearization_kind [OF c5, of c] 2
      by auto
  next
    case 3
    from inspector_coverage_kind [OF c3 3] show ?thesis
      using single_assignment_kind [OF c1, of c] skill_coverage_kind [OF c2, of c]
        no_self_inspection_kind [OF c4, of c] linearization_kind [OF c5, of c] 3
      by auto
  next
    case 4
    from no_self_inspection_kind [OF c4 4] show ?thesis
      using single_assignment_kind [OF c1, of c] skill_coverage_kind [OF c2, of c]
        inspector_coverage_kind [OF c3, of c] linearization_kind [OF c5, of c] 4
      by auto
  next
    case 5
    from linearization_kind [OF c5 5] show ?thesis
      using single_assignment_kind [OF c1, of c] skill_coverage_kind [OF c2, of c]
        inspector_coverage_kind [OF c3, of c] no_self_inspection_kind [OF c4, of c] 5
      by auto
  qed
  then show "name_kind (con_name c) = 1 \<longleftrightarrow> c \<in> set c1"
    and "name_kind (con_name c) = 2 \<longleftrightarrow> c \<in> set c2"
    and "name_kind (con_name c) = 3 \<longleftrightarrow> c \<in> set c3"
    and "name_kind (con_name c) = 4 \<longleftrightarrow> c \<in> set c4"
    and "name_kind (con_name c) = 5 \<longleftrightarrow> c \<in> set c5"
    by simp_all
qed

section \<open>No self-inspection\<close>

text \<open>
  C5. For a schedule row of slot \<open>(b, g, s)\<close> with an active inspector column \<open>col\<close> and a
  mechanic \<open>m_inspector\<close> holding the inspector skill \<open>col\<close>, the model has a row named
  \<^verbatim>\<open>no_self_inspect_...\<close> for them exactly when another mechanic holds the regular
  counterpart of \<open>col\<close>; every such row has no lower bound, upper bound 0, coefficient 1
  on the inspector's variable of the slot, -1 on the variable of each other mechanic with
  the regular skill, and 0 elsewhere.
\<close>

theorem no_self_inspection_conditional:
  assumes built: "create_model backends self d = Inr M"
    and skills: "build_skills (mechanic_skills_df d) = Inr (ms, mis)"
    and row: "row \<in> set (rows (base_schedule_df d))"
    and slot: "row_slot row = Inr (b, g, s)"
    and col: "col \<in> set (inspector_req_columns (base_schedule_df d))"
    and act: "inspector_active (columns (base_schedule_df d)) row col = Inr True"
    and m: "m_inspector \<in> set (mechanics d)"
    and ins: "has_skill mis m_inspector col = Inr True"
  shows "\<exists>sv x. self_solver M = Some sv \<and> self_x M = Some x
           \<and> ((\<exists>c\<in>set (constraints sv). con_name c = No_self_inspect_name col b g s m_inspector)
                \<longleftrightarrow> (\<exists>m\<in>set (mechanics d). m \<noteq> m_inspector
                       \<and> has_skill ms m (replace_inspec col) = Inr True))
           \<and> (\<forall>c\<in>set (constraints sv). con_name c = No_self_inspect_name col b g s m_inspector
                \<longrightarrow> con_lb c = MinusInfinity \<and> con_ub c = Finite 0
                  \<and> (\<forall>v. coefficient c v =
                        (if map_of x (m_inspector, b, g, s) = Some v then 1
                         else if \<exists>m\<in>set (mechanics d). m \<noteq> m_inspector
                                   \<and> has_skill ms m (replace_inspec col) = Inr True
                                   \<and> map_of x (m, b, g, s) = Some v then - 1
                         else 0)))"
proof -
  let ?irc = "inspector_req_columns (base_schedule_df d)"
  let ?nm = "No_self_inspect_name col b g s m_inspector"
  from built obtain sv sv0 x ms' mis' av c1 c2 c3 c4 c5 sv1 sv2 sv3 where
    M: "self_solver M = Some sv" "self_x M = Some x"
    and xv: "create_x_vars d new_solver = (sv0, x)"
    and k1: "single_assignment_constraints d x = Inr c1"
    and sk: "build_skills (mechanic_skills_df d) = Inr (ms', mis')"
    and k2: "skill_coverage_constraints d x ms' = Inr c2"
    and k3: "inspector_coverage_constraints d x mis' ?irc = Inr c3"
    and k4: "no_self_inspection_constraints d x ms' mis' ?irc = Inr c4"
    and yv: "create_avoidance_vars d (add_constraints (c1 @ c2 @ c3 @ c4) sv0) = (sv1, av)"
    and k5: "linearization_constraints d x av = Inr c5"
    and mc: "movement_costs d x (add_constraints c5 sv1) = Inr sv2"
    and ap: "avoidance_penalties d av sv2 = Inr sv3"
    and sv: "sv = sv3\<lparr>minimization := True\<rparr>"
    by (rule create_model_parts)
  from sk skills have eq: "ms' = ms" "mis' = mis" by simp_all
  note k2 = k2 [unfolded eq] and k3 = k3 [unfolded eq] and k4 = k4 [unfolded eq]
  note S = create_model_solver [OF xv yv mc ap sv]
  note K = name_kind_constraints [OF k1 k2 k3 k4 k5]
  have inj: "k = k'" if "map_of x k = Some u" "map_of x k' = Some u" for k k' u
    using S(5) [OF that(1)] S(5) [OF that(2)] by (blast dest: named_inject x_var_name_inject)
  have in4: "c \<in> set c4" if "c \<in> set (constraints sv)" "con_name c = ?nm" for c
  proof -
    from that(1) have c: "c \<in> set ((c1 @ c2 @ c3 @ c4) @ c5)" by (simp only: S(2))
    from K(4) [OF c] that(2) show ?thesis by simp
  qed
  have sub4: "set c4 \<subseteq> set (constraints sv)" by (auto simp: S(2))
  have shape: "no_self_row x col (b, g, s) m_inspector (others_of d ms col m_inspector) = Inr c
               \<and> others_of d ms col m_inspector \<noteq> []"
    if "c \<in> set c4" "con_name c = ?nm" for c
  proof -
    from no_self_inspection_mem [OF k4, of c] that(1)
    obtain col' slot' m' where ne: "others_of d ms col' m' \<noteq> []"
      and r: "no_self_row x col' slot' m' (others_of d ms col' m') = Inr c"
      by blast
    obtain b' g' s' where sl: "slot' = (b', g', s')" by (cases slot')
    from no_self_row_result(1) [OF r [unfolded sl]] that(2)
    have "col' = col" "b' = b" "g' = g" "s' = s" "m' = m_inspector" by simp_all
    with r ne sl show ?thesis by simp
  qed
  have ex: "(\<exists>c\<in>set (constraints sv). con_name c = ?nm)
                \<longleftrightarrow> (\<exists>m\<in>set (mechanics d). m \<noteq> m_inspector
                       \<and> has_skill ms m (replace_inspec col) = Inr True)"
  proof
    assume "\<exists>c\<in>set (constraints sv). con_name c = ?nm"
    then obtain c where "c \<in> set (constraints sv)" "con_name c = ?nm" by blast
    from shape [OF in4 [OF this] this(2)] show "\<exists>m\<in>set (mechanics d). m \<noteq> m_inspector
                       \<and> has_skill ms m (replace_inspec col) = Inr True"
      by (simp only: others_of_nonempty)
  next
    assume "\<exists>m\<in>set (mechanics d). m \<noteq> m_inspector
                       \<and> has_skill ms m (replace_inspec col) = Inr True"
    then have ne: "others_of d ms col m_inspector \<noteq> []" by (simp only: others_of_nonempty)
    from no_self_inspection_built [OF k4 row slot col act m ins ne]
    obtain c where c: "c \<in> set c4"
      and r: "no_self_row x col (b, g, s) m_inspector (others_of d ms col m_inspector) = Inr c"
      by blast
    from no_self_row_result(1) [OF r] c sub4
    show "\<exists>c\<in>set (constraints sv). con_name c = ?nm" by blast
  qed
  have rows: "con_lb c = MinusInfinity \<and> con_ub c = Finite 0
                  \<and> (\<forall>v. coefficient c v =
                        (if map_of x (m_inspector, b, g, s) = Some v then 1
                         else if \<exists>m\<in>set (mechanics d). m \<noteq> m_inspector
                                   \<and> has_skill ms m (replace_inspec col) = Inr True
                                   \<and> map_of x (m, b, g, s) = Some v then - 1
                         else 0))"
    if c: "c \<in> set (constraints sv)" and nm: "con_name c = ?nm" for c
  proof -
    from shape [OF in4 [OF c nm] nm]
    have r: "no_self_row x col (b, g, s) m_inspector (others_of d ms col m_inspector) = Inr c"
      by simp
    note R = no_self_row_result [OF r]
    have co: "coefficient c v =
                        (if map_of x (m_inspector, b, g, s) = Some v then 1
                         else if \<exists>m\<in>set (mechanics d). m \<noteq> m_inspector
                                   \<and> has_skill ms m (replace_inspec col) = Inr True
                                   \<and> map_of x (m, b, g, s) = Some v then - 1
                         else 0)" for v
    proof (cases "map_of x (m_inspector, b, g, s) = Some v")
      case True
      have "\<not> (\<exists>m'\<in>set (others_of d ms col m_inspector). map_of x (m', b, g, s) = Some v)"
      proof
        assume "\<exists>m'\<in>set (others_of d ms col m_inspector). map_of x (m', b, g, s) = Some v"
        then obtain m' where m': "m' \<in> set (others_of d ms col m_inspector)"
          and v: "map_of x (m', b, g, s) = Some v" by blast
        from inj [OF v True] have "m' = m_inspector" by simp
        with m' show False by (simp add: others_of_mem)
      qed
      with True show ?thesis by (simp add: R(4))
    next
      case False
      have "(\<exists>m'\<in>set (others_of d ms col m_inspector). map_of x (m', b, g, s) = Some v)
            \<longleftrightarrow> (\<exists>m\<in>set (mechanics d). m \<noteq> m_inspector
                                   \<and> has_skill ms m (replace_inspec col) = Inr True
                                   \<and> map_of x (m, b, g, s) = Some v)"
        by (auto simp: others_of_mem)
      then show ?thesis using False unfolding R(4) by auto
    qed
    from R(2) R(3) co show ?thesis by blast
  qed
  from M ex rows show ?thesis by blast
qed

lemma lone_inspector_example_builds:
  "succeeds (create_model [''SCIP'', ''CBC''] (init_optimizer ''SCIP'') lone_inspector_example)"
  by code_simp

theorem no_self_inspection_conditional_witness:
  "(\<exists>M sv c. create_model [''SCIP'', ''CBC''] (init_optimizer ''SCIP'') roster_example = Inr M
       \<and> self_solver M = Some sv \<and> c \<in> set (constraints sv)
       \<and> con_name c = No_self_inspect_name ''aw139_af_inspec'' (Num 1) (Num 1) (Num 1) (Num 1)
       \<and> con_lb c = MinusInfinity \<and> con_ub c = Finite 0)
   \<and> (\<exists>M sv. create_model [''SCIP'', ''CBC''] (init_optimizer ''SCIP'') lone_inspector_example = Inr M
       \<and> self_solver M = Some sv
       \<and> \<not> (\<exists>c \<in> set (constraints sv).
              con_name c = No_self_inspect_name ''aw139_af_inspec'' (Num 1) (Num 1) (Num 1) (Num 1)))"
proof
  let ?row = "[(''base_id'', Num 1), (''period'', Num 1), (''shift'', Num 1),
               (''aw139'', Num 2), (''h175'', Num 0), (''aw139_af_inspec'', Num 1)]"
  let ?col = "''aw139_af_inspec''"
  let ?nm = "No_self_inspect_name ?col (Num 1) (Num 1) (Num 1) (Num 1)"
  have slot: "row_slot ?row = Inr (Num 1, Num 1, Num 1)" by code_simp
  {
    let ?d = roster_example
    from roster_example_builds obtain M where
      M: "create_model [''SCIP'', ''CBC''] (init_optimizer ''SCIP'') ?d = Inr M"
      by (rule succeedsE)
    have "case build_skills (mechanic_skills_df ?d) of
            Inl e \<Rightarrow> False
          | Inr (ms, mis) \<Rightarrow> has_skill mis (Num 1) ?col = Inr True
              \<and> has_skill ms (Num 2) (replace_inspec ?col) = Inr True"
      by code_simp
    then obtain ms mis where sk: "build_skills (mechanic_skills_df ?d) = Inr (ms, mis)"
      and ins: "has_skill mis (Num 1) ?col = Inr True"
      and reg: "has_skill ms (Num 2) (replace_inspec ?col) = Inr True"
      by (auto split: sum.splits)
    have row: "?row \<in> set (rows (base_schedule_df ?d))" by (simp add: roster_example_def)
    have col: "?col \<in> set (inspector_req_columns (base_schedule_df ?d))" by code_simp
    have act: "inspector_active (columns (base_schedule_df ?d)) ?row ?col = Inr True" by code_simp
    have m: "Num 1 \<in> set (mechanics ?d)" "Num 2 \<in> set (mechanics ?d)"
      by (simp_all add: roster_example_def)
    have other: "\<exists>m\<in>set (mechanics ?d). m \<noteq> Num 1
                   \<and> has_skill ms m (replace_inspec ?col) = Inr True"
      using m(2) reg by (intro bexI [of _ "Num 2"]) simp_all
    from no_self_inspection_conditional [OF M sk row slot col act m(1) ins] other
    have "\<exists>sv c. self_solver M = Some sv \<and> c \<in> set (constraints sv) \<and> con_name c = ?nm
            \<and> con_lb c = MinusInfinity \<and> con_ub c = Finite 0"
      by blast
    with M have "\<exists>M sv c. create_model [''SCIP'', ''CBC''] (init_optimizer ''SCIP'') ?d = Inr M
       \<and> self_solver M = Some sv \<and> c \<in> set (constraints sv)
       \<and> con_name c = ?nm \<and> con_lb c = MinusInfinity \<and> con_ub c = Finite 0"
      by blast
  }
  then show "\<exists>M sv c. create_model [''SCIP'', ''CBC''] (init_optimizer ''SCIP'') roster_example = Inr M
       \<and> self_solver M = Some sv \<and> c \<in> set (constraints sv)
       \<and> con_name c = ?nm \<and> con_lb c = MinusInfinity \<and> con_ub c = Finite 0" .
  {
    let ?d = lone_inspector_example
    from lone_inspector_example_builds obtain M where
      M: "create_model [''SCIP'', ''CBC''] (init_optimizer ''SCIP'') ?d = Inr M"
      by (rule succeedsE)
    have "case build_skills (mechanic_skills_df ?d) of
            Inl e \<Rightarrow> False
          | Inr (ms, mis) \<Rightarrow> has_skill mis (Num 1) ?col = Inr True
              \<and> list_all (\<lambda>m. m = Num 1 \<or> has_skill ms m (replace_inspec ?col) = Inr False)
                   (mechanics ?d)"
      by code_simp
    then obtain ms mis where sk: "build_skills (mechanic_skills_df ?d) = Inr (ms, mis)"
      and ins: "has_skill mis (Num 1) ?col = Inr True"
      and reg: "list_all (\<lambda>m. m = Num 1 \<or> has_skill ms m (replace_inspec ?col) = Inr False)
                   (mechanics ?d)"
      by (auto split: sum.splits)
    have row: "?row \<in> set (rows (base_schedule_df ?d))"
      by (simp add: lone_inspector_example_def roster_example_def)
    have col: "?col \<in> set (inspector_req_columns (base_schedule_df ?d))" by code_simp
    have act: "inspector_active (columns (base_schedule_df ?d)) ?row ?col = Inr True" by code_simp
    have m: "Num 1 \<in> set (mechanics ?d)"
      by (simp add: lone_inspector_example_def roster_example_def)
    have other: "\<not> (\<exists>m\<in>set (mechanics ?d). m \<noteq> Num 1
                   \<and> has_skill ms m (replace_inspec ?col) = Inr True)"
      using reg by (auto simp: list_all_iff)
    from no_self_inspection_conditional [OF M sk row slot col act m ins] other
    have "\<exists>sv. self_solver M = Some sv
            \<and> \<not> (\<exists>c \<in> set (constraints sv). con_name c = ?nm)"
      by blast
    with M have "\<exists>M sv. create_model [''SCIP'', ''CBC''] (init_optimizer ''SCIP'') ?d = Inr M
       \<and> self_solver M = Some sv \<and> \<not> (\<exists>c \<in> set (constraints sv). con_name c = ?nm)"
      by blast
  }
  then show "\<exists>M sv. create_model [''SCIP'', ''CBC''] (init_optimizer ''SCIP'') lone_inspector_example = Inr M
       \<and> self_solver M = Some sv \<and> \<not> (\<exists>c \<in> set (constraints sv). con_name c = ?nm)" .
qed

section \<open>Skill coverage\<close>

lemma skill_coverage_built:
  assumes run: "skill_coverage_constraints d x ms = Inr c2"
    and row: "row \<in> set (rows (base_schedule_df d))"
    and slot: "row_slot row = Inr (b, g, s)"
    and aircraft: "aircraft \<in> set aircraft_types"
    and skill: "skill \<in> set skill_types"
    and act: "aircraft_active (columns (base_schedule_df d)) row aircraft = Inr True"
  shows "\<exists>c\<in>set c2. coverage_constraint d x ms (aircraft @ skill) (b, g, s)
                        (Skill_name (aircraft @ skill) b g s) = Inr c"
proof -
  from collect_Inr_mem [OF run [unfolded skill_coverage_by_row] row] obtain bs where
    bs: "skill_rows_of_row d x ms row = Inr bs" and sub: "set bs \<subseteq> set c2"
    by blast
  from bs slot have r2: "collect (\<lambda>aircraft.
           bind (aircraft_active (columns (base_schedule_df d)) row aircraft) (\<lambda>active.
             if active then skill_rows_of d x ms (b, g, s) aircraft else Inr []))
         aircraft_types = Inr bs"
    by (simp add: skill_rows_of_row_def bind_Inr)
  from collect_Inr_mem [OF r2 aircraft] act obtain bs1 where
    r3: "skill_rows_of d x ms (b, g, s) aircraft = Inr bs1" and sub1: "set bs1 \<subseteq> set bs"
    by (auto simp: bind_Inr)
  from collect_Inr_mem [OF r3 [unfolded skill_rows_of_def] skill] obtain bs2 where
    r4: "bind (coverage_constraint d x ms (aircraft @ skill) (b, g, s)
                 (Skill_name (aircraft @ skill) b g s)) (\<lambda>c. Inr [c]) = Inr bs2"
    and sub2: "set bs2 \<subseteq> set bs1"
    by auto
  from r4 obtain c where c: "coverage_constraint d x ms (aircraft @ skill) (b, g, s)
                 (Skill_name (aircraft @ skill) b g s) = Inr c" and b2: "bs2 = [c]"
    unfolding bind_eq_Inr by auto
  from b2 sub2 sub1 sub have "c \<in> set c2" by auto
  with c show ?thesis by blast
qed

lemma aircraft_skill_inject:
  assumes "a \<in> set aircraft_types" "a' \<in> set aircraft_types"
    and "k \<in> set skill_types" "k' \<in> set skill_types"
    and "a @ k = a' @ k'"
  shows "a = a' \<and> k = k'"
proof -
  from assms(1,2,5) have "a = a'" by (auto simp: aircraft_types_def)
  with assms(5) show ?thesis by simp
qed

lemma aircraft_active_iff:
  "aircraft_active cols row aircraft = Inr True
     \<longleftrightarrow> aircraft \<in> set cols \<and> (\<exists>n>0. map_of row aircraft = Some (Num n))"
proof (cases "aircraft \<in> set cols")
  case False
  then show ?thesis by (simp add: aircraft_active_def)
next
  case True
  show ?thesis
  proof (cases "map_of row aircraft")
    case None
    then show ?thesis using True by (simp add: aircraft_active_def getitem_def bind_Inl)
  next
    case (Some cnt)
    then show ?thesis using True
      by (cases cnt) (simp_all add: aircraft_active_def getitem_def bind_Inr py_gt_def)
  qed
qed

text \<open>
  C4. For an aircraft type and a skill type, the model has a row named
  \<^verbatim>\<open>skill_<aircraft><skill>_base<b>_period<g>_shift<s>\<close> exactly when some schedule row of
  slot \<open>(b, g, s)\<close> has the aircraft's column with a positive count; a row whose count is
  zero, NaN or absent adds none. Every such row has lower bound 1 whatever the count, no
  upper bound, coefficient 1 on the slot's variable of each mechanic with the regular
  skill, and 0 elsewhere.
\<close>

theorem skill_coverage_rows:
  assumes built: "create_model backends self d = Inr M"
    and skills: "build_skills (mechanic_skills_df d) = Inr (ms, mis)"
    and aircraft: "aircraft \<in> set aircraft_types"
    and skill: "skill \<in> set skill_types"
  shows "\<exists>sv x. self_solver M = Some sv \<and> self_x M = Some x
           \<and> ((\<exists>c\<in>set (constraints sv). con_name c = Skill_name (aircraft @ skill) b g s)
                \<longleftrightarrow> (\<exists>row\<in>set (rows (base_schedule_df d)). row_slot row = Inr (b, g, s)
                       \<and> aircraft \<in> set (columns (base_schedule_df d))
                       \<and> (\<exists>n>0. map_of row aircraft = Some (Num n))))
           \<and> (\<forall>c\<in>set (constraints sv). con_name c = Skill_name (aircraft @ skill) b g s
                \<longrightarrow> con_lb c = Finite 1 \<and> con_ub c = Infinity
                  \<and> (\<forall>v. coefficient c v =
                        (if \<exists>m\<in>set (mechanics d). has_skill ms m (aircraft @ skill) = Inr True
                                   \<and> map_of x (m, b, g, s) = Some v then 1
                         else 0)))"
proof -
  let ?irc = "inspector_req_columns (base_schedule_df d)"
  let ?nm = "Skill_name (aircraft @ skill) b g s"
  let ?cols = "columns (base_schedule_df d)"
  from built obtain sv sv0 x ms' mis' av c1 c2 c3 c4 c5 sv1 sv2 sv3 where
    M: "self_solver M = Some sv" "self_x M = Some x"
    and xv: "create_x_vars d new_solver = (sv0, x)"
    and k1: "single_assignment_constraints d x = Inr c1"
    and sk: "build_skills (mechanic_skills_df d) = Inr (ms', mis')"
    and k2: "skill_coverage_constraints d x ms' = Inr c2"
    and k3: "inspector_coverage_constraints d x mis' ?irc = Inr c3"
    and k4: "no_self_inspection_constraints d x ms' mis' ?irc = Inr c4"
    and yv: "create_avoidance_vars d (add_constraints (c1 @ c2 @ c3 @ c4) sv0) = (sv1, av)"
    and k5: "linearization_constraints d x av = Inr c5"
    and mc: "movement_costs d x (add_constraints c5 sv1) = Inr sv2"
    and ap: "avoidance_penalties d av sv2 = Inr sv3"
    and sv: "sv = sv3\<lparr>minimization := True\<rparr>"
    by (rule create_model_parts)
  from sk skills have eq: "ms' = ms" "mis' = mis" by simp_all
  note k2 = k2 [unfolded eq] and k3 = k3 [unfolded eq] and k4 = k4 [unfolded eq]
  note S = create_model_solver [OF xv yv mc ap sv]
  note K = name_kind_constraints [OF k1 k2 k3 k4 k5]
  have in2: "c \<in> set c2" if "c \<in> set (constraints sv)" "con_name c = ?nm" for c
  proof -
    from that(1) have c: "c \<in> set ((c1 @ c2 @ c3 @ c4) @ c5)" by (simp only: S(2))
    from K(2) [OF c] that(2) show ?thesis by simp
  qed
  have sub2: "set c2 \<subseteq> set (constraints sv)" by (auto simp: S(2))
  have shape: "\<exists>row\<in>set (rows (base_schedule_df d)). row_slot row = Inr (b, g, s)
                 \<and> aircraft_active ?cols row aircraft = Inr True
                 \<and> coverage_constraint d x ms (aircraft @ skill) (b, g, s) ?nm = Inr c"
    if "c \<in> set c2" "con_name c = ?nm" for c
  proof -
    from skill_coverage_mem [OF k2, of c] that(1)
    obtain row b' g' s' a' k' where row: "row \<in> set (rows (base_schedule_df d))"
      and slot: "row_slot row = Inr (b', g', s')"
      and a': "a' \<in> set aircraft_types" and k': "k' \<in> set skill_types"
      and act: "aircraft_active ?cols row a' = Inr True"
      and r: "coverage_constraint d x ms (a' @ k') (b', g', s') (Skill_name (a' @ k') b' g' s') = Inr c"
      by blast
    from coverage_constraint_result(3) [OF r] that(2)
    have e: "a' @ k' = aircraft @ skill" "b' = b" "g' = g" "s' = s" by simp_all
    from aircraft_skill_inject [OF a' aircraft k' skill e(1)] have "a' = aircraft" "k' = skill"
      by simp_all
    with row slot act r e show ?thesis by blast
  qed
  have ex: "(\<exists>c\<in>set (constraints sv). con_name c = ?nm)
                \<longleftrightarrow> (\<exists>row\<in>set (rows (base_schedule_df d)). row_slot row = Inr (b, g, s)
                       \<and> aircraft \<in> set ?cols
                       \<and> (\<exists>n>0. map_of row aircraft = Some (Num n)))"
  proof
    assume "\<exists>c\<in>set (constraints sv). con_name c = ?nm"
    then obtain c where "c \<in> set (constraints sv)" "con_name c = ?nm" by blast
    from shape [OF in2 [OF this] this(2)]
    show "\<exists>row\<in>set (rows (base_schedule_df d)). row_slot row = Inr (b, g, s)
                       \<and> aircraft \<in> set ?cols
                       \<and> (\<exists>n>0. map_of row aircraft = Some (Num n))"
      unfolding aircraft_active_iff by blast
  next
    assume "\<exists>row\<in>set (rows (base_schedule_df d)). row_slot row = Inr (b, g, s)
                       \<and> aircraft \<in> set ?cols
                       \<and> (\<exists>n>0. map_of row aircraft = Some (Num n))"
    then obtain row where row: "row \<in> set (rows (base_schedule_df d))"
      and slot: "row_slot row = Inr (b, g, s)"
      and act: "aircraft_active ?cols row aircraft = Inr True"
      unfolding aircraft_active_iff [symmetric] by blast
    from skill_coverage_built [OF k2 row slot aircraft skill act]
    obtain c where c: "c \<in> set c2"
      and r: "coverage_constraint d x ms (aircraft @ skill) (b, g, s) ?nm = Inr c"
      by blast
    from coverage_constraint_result(3) [OF r] c sub2
    show "\<exists>c\<in>set (constraints sv). con_name c = ?nm" by blast
  qed
  have rows: "con_lb c = Finite 1 \<and> con_ub c = Infinity
                  \<and> (\<forall>v. coefficient c v =
                        (if \<exists>m\<in>set (mechanics d). has_skill ms m (aircraft @ skill) = Inr True
                                   \<and> map_of x (m, b, g, s) = Some v then 1
                         else 0))"
    if c: "c \<in> set (constraints sv)" and nm: "con_name c = ?nm" for c
  proof -
    from shape [OF in2 [OF c nm] nm]
    have r: "coverage_constraint d x ms (aircraft @ skill) (b, g, s) ?nm = Inr c"
      by blast
    note R = coverage_constraint_result [OF r]
    from R(1) R(2) R(4) show ?thesis by blast
  qed
  from M ex rows show ?thesis by blast
qed

theorem skill_coverage_rows_witness:
  "\<exists>M sv. create_model [''SCIP'', ''CBC''] (init_optimizer ''SCIP'') roster_example = Inr M
       \<and> self_solver M = Some sv
       \<and> (\<exists>c. c \<in> set (constraints sv)
              \<and> con_name c = Skill_name ''aw139_af'' (Num 1) (Num 1) (Num 1)
              \<and> con_lb c = Finite 1 \<and> con_ub c = Infinity)
       \<and> \<not> (\<exists>c \<in> set (constraints sv). con_name c = Skill_name ''h175_af'' (Num 1) (Num 1) (Num 1))
       \<and> \<not> (\<exists>c \<in> set (constraints sv). con_name c = Skill_name ''sk92_af'' (Num 1) (Num 1) (Num 1))
       \<and> \<not> (\<exists>c \<in> set (constraints sv). con_name c = Skill_name ''aw139_af'' (Num 1) (Num 1) (Num 2))"
proof -
  let ?d = roster_example
  let ?row1 = "[(''base_id'', Num 1), (''period'', Num 1), (''shift'', Num 1),
                (''aw139'', Num 2), (''h175'', Num 0), (''aw139_af_inspec'', Num 1)]"
  let ?row2 = "[(''base_id'', Num 1), (''period'', Num 1), (''shift'', Num 2),
                (''aw139'', Num 0), (''h175'', NaN), (''aw139_af_inspec'', NaN)]"
  from roster_example_builds obtain M where
    M: "create_model [''SCIP'', ''CBC''] (init_optimizer ''SCIP'') ?d = Inr M"
    by (rule succeedsE)
  have "succeeds (build_skills (mechanic_skills_df ?d))" by code_simp
  then obtain ms mis where sk: "build_skills (mechanic_skills_df ?d) = Inr (ms, mis)"
    by (cases "build_skills (mechanic_skills_df ?d)") (auto simp: succeeds_def)
  have slot: "row_slot ?row1 = Inr (Num 1, Num 1, Num 1)" "row_slot ?row2 = Inr (Num 1, Num 1, Num 2)"
    by code_simp+
  have rows: "rows (base_schedule_df ?d) = [?row1, ?row2]"
    and cols: "columns (base_schedule_df ?d)
                 = [''base_id'', ''period'', ''shift'', ''aw139'', ''h175'', ''aw139_af_inspec'']"
    by (simp_all add: roster_example_def)
  have ty: "''aw139'' \<in> set aircraft_types" "''h175'' \<in> set aircraft_types"
    "''sk92'' \<in> set aircraft_types" "''_af'' \<in> set skill_types"
    by (simp_all add: aircraft_types_def skill_types_def)
  have yes: "\<exists>row\<in>set (rows (base_schedule_df ?d)). row_slot row = Inr (Num 1, Num 1, Num 1)
                       \<and> ''aw139'' \<in> set (columns (base_schedule_df ?d))
                       \<and> (\<exists>n>0. map_of row ''aw139'' = Some (Num n))"
    unfolding rows cols using slot(1) by (intro bexI [of _ ?row1]) simp_all
  have no1: "\<not> (\<exists>row\<in>set (rows (base_schedule_df ?d)). row_slot row = Inr (Num 1, Num 1, Num 1)
                       \<and> ''h175'' \<in> set (columns (base_schedule_df ?d))
                       \<and> (\<exists>n>0. map_of row ''h175'' = Some (Num n)))"
    unfolding rows cols using slot by simp
  have no2: "\<not> (\<exists>row\<in>set (rows (base_schedule_df ?d)). row_slot row = Inr (Num 1, Num 1, Num 1)
                       \<and> ''sk92'' \<in> set (columns (base_schedule_df ?d))
                       \<and> (\<exists>n>0. map_of row ''sk92'' = Some (Num n)))"
    unfolding rows cols by simp
  have no3: "\<not> (\<exists>row\<in>set (rows (base_schedule_df ?d)). row_slot row = Inr (Num 1, Num 1, Num 2)
                       \<and> ''aw139'' \<in> set (columns (base_schedule_df ?d))
                       \<and> (\<exists>n>0. map_of row ''aw139'' = Some (Num n)))"
    unfolding rows cols using slot by simp
  have ap: "''aw139'' @ ''_af'' = ''aw139_af''" "''h175'' @ ''_af'' = ''h175_af''"
    "''sk92'' @ ''_af'' = ''sk92_af''"
    by simp_all
  from skill_coverage_rows [OF M sk ty(1) ty(4), of "Num 1" "Num 1" "Num 1"]
  obtain sv x where sv: "self_solver M = Some sv"
    and e1: "(\<exists>c\<in>set (constraints sv). con_name c = Skill_name (''aw139'' @ ''_af'') (Num 1) (Num 1) (Num 1))
                \<longleftrightarrow> (\<exists>row\<in>set (rows (base_schedule_df ?d)). row_slot row = Inr (Num 1, Num 1, Num 1)
                       \<and> ''aw139'' \<in> set (columns (base_schedule_df ?d))
                       \<and> (\<exists>n>0. map_of row ''aw139'' = Some (Num n)))"
    and r1: "\<forall>c\<in>set (constraints sv). con_name c = Skill_name (''aw139'' @ ''_af'') (Num 1) (Num 1) (Num 1)
                \<longrightarrow> con_lb c = Finite 1 \<and> con_ub c = Infinity
                  \<and> (\<forall>v. coefficient c v =
                        (if \<exists>m\<in>set (mechanics ?d). has_skill ms m (''aw139'' @ ''_af'') = Inr True
                                   \<and> map_of x (m, Num 1, Num 1, Num 1) = Some v then 1
                         else 0))"
    by blast
  from e1 yes obtain c where c: "c \<in> set (constraints sv)"
    "con_name c = Skill_name (''aw139'' @ ''_af'') (Num 1) (Num 1) (Num 1)"
    by blast
  from r1 c have b: "con_lb c = Finite 1" "con_ub c = Infinity" by blast+
  from skill_coverage_rows [OF M sk ty(2) ty(4), of "Num 1" "Num 1" "Num 1"]
  obtain sv2 where "self_solver M = Some sv2"
    and e2: "(\<exists>c\<in>set (constraints sv2). con_name c = Skill_name (''h175'' @ ''_af'') (Num 1) (Num 1) (Num 1))
                \<longleftrightarrow> (\<exists>row\<in>set (rows (base_schedule_df ?d)). row_slot row = Inr (Num 1, Num 1, Num 1)
                       \<and> ''h175'' \<in> set (columns (base_schedule_df ?d))
                       \<and> (\<exists>n>0. map_of row ''h175'' = Some (Num n)))"
    by blast
  with sv have s2: "sv2 = sv" by simp
  from skill_coverage_rows [OF M sk ty(3) ty(4), of "Num 1" "Num 1" "Num 1"]
  obtain sv3 where "self_solver M = Some sv3"
    and e3: "(\<exists>c\<in>set (constraints sv3). con_name c = Skill_name (''sk92'' @ ''_af'') (Num 1) (Num 1) (Num 1))
                \<longleftrightarrow> (\<exists>row\<in>set (rows (base_schedule_df ?d)). row_slot row = Inr (Num 1, Num 1, Num 1)
                       \<and> ''sk92'' \<in> set (columns (base_schedule_df ?d))
                       \<and> (\<exists>n>0. map_of row ''sk92'' = Some (Num n)))"
    by blast
  with sv have s3: "sv3 = sv" by simp
  from skill_coverage_rows [OF M sk ty(1) ty(4), of "Num 1" "Num 1" "Num 2"]
  obtain sv4 where "self_solver M = Some sv4"
    and e4: "(\<exists>c\<in>set (constraints sv4). con_name c = Skill_name (''aw139'' @ ''_af'') (Num 1) (Num 1) (Num 2))
                \<longleftrightarrow> (\<exists>row\<in>set (rows (base_schedule_df ?d)). row_slot row = Inr (Num 1, Num 1, Num 2)
                       \<and> ''aw139'' \<in> set (columns (base_schedule_df ?d))
                       \<and> (\<exists>n>0. map_of row ''aw139'' = Some (Num n)))"
    by blast
  with sv have s4: "sv4 = sv" by simp
  from e2 no1 have n1: "\<not> (\<exists>c \<in> set (constraints sv). con_name c = Skill_name ''h175_af'' (Num 1) (Num 1) (Num 1))"
    unfolding s2 ap by blast
  from e3 no2 have n2: "\<not> (\<exists>c \<in> set (constraints sv). con_name c = Skill_name ''sk92_af'' (Num 1) (Num 1) (Num 1))"
    unfolding s3 ap by blast
  from e4 no3 have n3: "\<not> (\<exists>c \<in> set (constraints sv). con_name c = Skill_name ''aw139_af'' (Num 1) (Num 1) (Num 2))"
    unfolding s4 ap by blast
  from c b have p: "\<exists>c. c \<in> set (constraints sv)
              \<and> con_name c = Skill_name ''aw139_af'' (Num 1) (Num 1) (Num 1)
              \<and> con_lb c = Finite 1 \<and> con_ub c = Infinity"
    unfolding ap by blast
  show ?thesis
    by (rule exI [of _ M], rule exI [of _ sv]) (intro conjI M sv p n1 n2 n3)
qed

section \<open>Single assignment\<close>

lemma update_absent: "k \<notin> fst ` set al \<Longrightarrow> AList.update k v al = al @ [(k, v)]"
  by (induction al) auto

lemma set_coefficients_list:
  assumes "for_each (\<lambda>key c. bind (getitem x key) (\<lambda>v. Inr (SetCoefficient v k c))) keys c0 = Inr c"
    and inj: "\<forall>a b u. map_of x a = Some u \<longrightarrow> map_of x b = Some u \<longrightarrow> a = b"
    and "distinct keys"
    and "\<forall>key\<in>set keys. \<forall>v. map_of x key = Some v \<longrightarrow> v \<notin> fst ` set (coefficients c0)"
  shows "\<exists>vs. map (map_of x) keys = map Some vs
           \<and> coefficients c = coefficients c0 @ map (\<lambda>v. (v, k)) vs"
  using assms(1,3,4)
proof (induction keys arbitrary: c0)
  case Nil
  then show ?case by simp
next
  case (Cons a keys)
  from Cons.prems(1) obtain va where va: "map_of x a = Some va"
    and run: "for_each (\<lambda>key c. bind (getitem x key) (\<lambda>v. Inr (SetCoefficient v k c))) keys
                (SetCoefficient va k c0) = Inr c"
    by (auto simp: bind_eq_Inr getitem_eq_Inr)
  from Cons.prems(3) va have "va \<notin> fst ` set (coefficients c0)" by simp
  then have co: "coefficients (SetCoefficient va k c0) = coefficients c0 @ [(va, k)]"
    by (simp add: SetCoefficient_def update_absent)
  have fresh: "\<forall>key\<in>set keys. \<forall>v. map_of x key = Some v
                 \<longrightarrow> v \<notin> fst ` set (coefficients (SetCoefficient va k c0))"
  proof (intro ballI allI impI)
    fix key v assume key: "key \<in> set keys" and v: "map_of x key = Some v"
    from key Cons.prems(2) have "key \<noteq> a" by auto
    with inj v va have "v \<noteq> va" by blast
    moreover from Cons.prems(3) key v have "v \<notin> fst ` set (coefficients c0)" by simp
    ultimately show "v \<notin> fst ` set (coefficients (SetCoefficient va k c0))"
      unfolding co by auto
  qed
  from Cons.prems(2) have "distinct keys" by simp
  from Cons.IH [OF run this fresh] obtain vs where
    vs: "map (map_of x) keys = map Some vs"
    and c: "coefficients c = coefficients (SetCoefficient va k c0) @ map (\<lambda>v. (v, k)) vs"
    by blast
  have "map (map_of x) (a # keys) = map Some (va # vs)" using va vs by simp
  moreover have "coefficients c = coefficients c0 @ map (\<lambda>v. (v, k)) (va # vs)"
    using c co by simp
  ultimately show ?case by blast
qed

lemma solution_values:
  assumes "map (map_of x) keys = map Some vs"
  shows "map (solution_value x val) keys = map val vs"
proof -
  have "map (\<lambda>r. case r of Some v \<Rightarrow> val v | None \<Rightarrow> 0) (map (map_of x) keys)
          = map (\<lambda>r. case r of Some v \<Rightarrow> val v | None \<Rightarrow> 0) (map Some vs)"
    by (simp only: assms)
  moreover have "solution_value x val = (\<lambda>key. case map_of x key of Some v \<Rightarrow> val v | None \<Rightarrow> 0)"
    by (rule ext) (simp add: solution_value_def)
  ultimately show ?thesis by (simp add: o_def)
qed

lemma single_row_activity:
  assumes run: "set_coefficients x (map (\<lambda>(b, g, s). (m, b, g, s)) sl) 1
                  (Constraint lb ub nm) = Inr c"
    and inj: "\<forall>a b u. map_of x a = Some u \<longrightarrow> map_of x b = Some u \<longrightarrow> a = b"
    and dist: "distinct sl"
  shows "activity c val = (\<Sum>(b, g, s)\<leftarrow>sl. solution_value x val (m, b, g, s))"
proof -
  let ?keys = "map (\<lambda>(b, g, s). (m, b, g, s)) sl"
  have "inj_on (\<lambda>(b, g, s). (m, b, g, s)) (set sl)" by (auto simp: inj_on_def)
  with dist have dk: "distinct ?keys" by (simp add: distinct_map)
  have fresh: "\<forall>key\<in>set ?keys. \<forall>v. map_of x key = Some v
                 \<longrightarrow> v \<notin> fst ` set (coefficients (Constraint lb ub nm))"
    by (simp add: Constraint_def)
  from set_coefficients_list [OF run [unfolded set_coefficients_def] inj dk fresh]
  obtain vs where vs: "map (map_of x) ?keys = map Some vs"
    and c: "coefficients c = map (\<lambda>v. (v, 1)) vs"
    by (auto simp: Constraint_def)
  have "activity c val = sum_list (map val vs)"
    by (simp add: activity_def c o_def)
  also have "\<dots> = sum_list (map (solution_value x val) ?keys)"
    by (simp only: solution_values [OF vs])
  also have "\<dots> = (\<Sum>(b, g, s)\<leftarrow>sl. solution_value x val (m, b, g, s))"
    by (simp add: o_def split_def)
  finally show ?thesis .
qed

lemma filter_fst_product:
  "distinct ms \<Longrightarrow>
   filter (\<lambda>k. fst k = m) (List.product ms sl) = (if m \<in> set ms then map (Pair m) sl else [])"
proof (induction ms)
  case Nil
  then show ?case by simp
next
  case (Cons a ms)
  have 1: "filter (\<lambda>k. fst k = m) (map (Pair a) sl) = (if a = m then map (Pair a) sl else [])"
    by (induction sl) auto
  from Cons show ?case by (auto simp: 1)
qed

lemma count_le_sum:
  fixes f :: "'a \<Rightarrow> real"
  assumes "\<forall>a\<in>set xs. 0 \<le> f a \<and> (P a \<longrightarrow> 1 \<le> f a)"
  shows "real (length (filter P xs)) \<le> sum_list (map f xs)"
  using assms
proof (induction xs)
  case Nil
  then show ?case by simp
next
  case (Cons a xs)
  then have IH: "real (length (filter P xs)) \<le> sum_list (map f xs)"
    and a: "0 \<le> f a" "P a \<longrightarrow> 1 \<le> f a"
    by simp_all
  show ?case
  proof (cases "P a")
    case True
    with a IH show ?thesis by simp
  next
    case False
    with a IH show ?thesis by simp
  qed
qed

lemma single_assignment_mem:
  assumes "single_assignment_constraints d x = Inr c1"
  shows "c \<in> set c1 \<longleftrightarrow>
           (\<exists>m\<in>set (mechanics d).
              set_coefficients x (map (\<lambda>(b, g, s). (m, b, g, s)) (slots d)) 1
                (Constraint (Finite 0) (Finite 1) (Single_assignment_name m)) = Inr c)"
proof
  assume "c \<in> set c1"
  from collect_Inr_inv [OF assms [unfolded single_assignment_constraints_def] this]
  show "\<exists>m\<in>set (mechanics d).
              set_coefficients x (map (\<lambda>(b, g, s). (m, b, g, s)) (slots d)) 1
                (Constraint (Finite 0) (Finite 1) (Single_assignment_name m)) = Inr c"
    by (auto simp: bind_eq_Inr)
next
  assume "\<exists>m\<in>set (mechanics d).
              set_coefficients x (map (\<lambda>(b, g, s). (m, b, g, s)) (slots d)) 1
                (Constraint (Finite 0) (Finite 1) (Single_assignment_name m)) = Inr c"
  then obtain m where m: "m \<in> set (mechanics d)"
    and r: "set_coefficients x (map (\<lambda>(b, g, s). (m, b, g, s)) (slots d)) 1
                (Constraint (Finite 0) (Finite 1) (Single_assignment_name m)) = Inr c"
    by blast
  from collect_Inr_mem [OF assms [unfolded single_assignment_constraints_def] m] r
  show "c \<in> set c1" by (auto simp: bind_eq_Inr bind_Inr)
qed

lemma single_assignment_built:
  assumes "single_assignment_constraints d x = Inr c1" and "m \<in> set (mechanics d)"
  shows "\<exists>c\<in>set c1. set_coefficients x (map (\<lambda>(b, g, s). (m, b, g, s)) (slots d)) 1
                (Constraint (Finite 0) (Finite 1) (Single_assignment_name m)) = Inr c"
  using collect_Inr_mem [OF assms(1) [unfolded single_assignment_constraints_def] assms(2)]
  by (auto simp: bind_eq_Inr)

lemma distinct_slots:
  "distinct (bases d) \<Longrightarrow> distinct (periods d) \<Longrightarrow> distinct (shifts d) \<Longrightarrow> distinct (slots d)"
  by (simp add: slots_def distinct_product)

lemma mechanic_id_record_of: "mechanic_id (record_of cd k) = fst k"
  by (cases k) (simp add: record_of_fields)

text \<open>
  C6. In the model built from data whose lists of mechanics, bases, periods and shifts have
  no duplicates, every mechanic \<open>m\<close> has a row named \<^verbatim>\<open>mechanic_<m>_single_assignment\<close>,
  and every row of that name has the bounds 0 and 1 and the sum of \<open>x[m, b, g, s]\<close> over
  all slots as its linear form. \<open>extract_solution\<close>, called with the data's lists, returns
  for every valuation, and from a feasible one (every row holds, every variable is 0 or 1)
  it returns at most one assignment for each mechanic.
\<close>

theorem single_assignment:
  assumes built: "create_model backends self d = Inr M"
    and dm: "distinct (mechanics d)" and db: "distinct (bases d)"
    and dg: "distinct (periods d)" and ds: "distinct (shifts d)"
  shows "\<exists>sv x. self_solver M = Some sv \<and> self_x M = Some x
           \<and> (\<forall>m\<in>set (mechanics d).
                 \<exists>c\<in>set (constraints sv). con_name c = Single_assignment_name m)
           \<and> (\<forall>c\<in>set (constraints sv). \<forall>m. con_name c = Single_assignment_name m \<longrightarrow>
                 con_lb c = Finite 0 \<and> con_ub c = Finite 1
                 \<and> (\<forall>val. activity c val
                             = (\<Sum>(b, g, s)\<leftarrow>slots d. solution_value x val (m, b, g, s))))
           \<and> (\<forall>val. \<exists>as t.
                 extract_solution M val (mechanics d) (bases d) (periods d) (shifts d) (cost_dict d)
                   = Inr (as, t))
           \<and> (\<forall>val as t. feasible sv val \<longrightarrow>
                 extract_solution M val (mechanics d) (bases d) (periods d) (shifts d) (cost_dict d)
                   = Inr (as, t) \<longrightarrow>
                 (\<forall>m. length (filter (\<lambda>a. mechanic_id a = m) as) \<le> 1))"
proof -
  let ?irc = "inspector_req_columns (base_schedule_df d)"
  from built obtain sv sv0 x ms mis av c1 c2 c3 c4 c5 sv1 sv2 sv3 where
    M: "self_solver M = Some sv" "self_x M = Some x"
    and xv: "create_x_vars d new_solver = (sv0, x)"
    and k1: "single_assignment_constraints d x = Inr c1"
    and k2: "skill_coverage_constraints d x ms = Inr c2"
    and k3: "inspector_coverage_constraints d x mis ?irc = Inr c3"
    and k4: "no_self_inspection_constraints d x ms mis ?irc = Inr c4"
    and yv: "create_avoidance_vars d (add_constraints (c1 @ c2 @ c3 @ c4) sv0) = (sv1, av)"
    and k5: "linearization_constraints d x av = Inr c5"
    and mc: "movement_costs d x (add_constraints c5 sv1) = Inr sv2"
    and ap: "avoidance_penalties d av sv2 = Inr sv3"
    and sv: "sv = sv3\<lparr>minimization := True\<rparr>"
    by (rule create_model_parts)
  note S = create_model_solver [OF xv yv mc ap sv]
  note K = name_kind_constraints [OF k1 k2 k3 k4 k5]
  have inj: "\<forall>a b u. map_of x a = Some u \<longrightarrow> map_of x b = Some u \<longrightarrow> a = b"
    using S(5) by (blast dest: named_inject x_var_name_inject)
  have dsl: "distinct (slots d)" by (rule distinct_slots [OF db dg ds])
  have sub1: "set c1 \<subseteq> set (constraints sv)" by (auto simp: S(2))
  have in1: "c \<in> set c1" if "c \<in> set (constraints sv)" "con_name c = Single_assignment_name m" for c m
  proof -
    from that(1) have c: "c \<in> set ((c1 @ c2 @ c3 @ c4) @ c5)" by (simp only: S(2))
    from K(1) [OF c] that(2) show ?thesis by simp
  qed
  have row: "set_coefficients x (map (\<lambda>(b, g, s). (m, b, g, s)) (slots d)) 1
                (Constraint (Finite 0) (Finite 1) (Single_assignment_name m)) = Inr c"
    if "c \<in> set c1" "con_name c = Single_assignment_name m" for c m
  proof -
    from single_assignment_mem [OF k1, of c] that(1) obtain m' where
      r: "set_coefficients x (map (\<lambda>(b, g, s). (m', b, g, s)) (slots d)) 1
                (Constraint (Finite 0) (Finite 1) (Single_assignment_name m')) = Inr c"
      by blast
    from set_coefficients_frame [OF r] that(2) have "m' = m" by (simp add: Constraint_frame)
    with r show ?thesis by simp
  qed
  have A: "\<forall>m\<in>set (mechanics d). \<exists>c\<in>set (constraints sv). con_name c = Single_assignment_name m"
  proof
    fix m assume "m \<in> set (mechanics d)"
    from single_assignment_built [OF k1 this] obtain c where c: "c \<in> set c1"
      and r: "set_coefficients x (map (\<lambda>(b, g, s). (m, b, g, s)) (slots d)) 1
                (Constraint (Finite 0) (Finite 1) (Single_assignment_name m)) = Inr c"
      by blast
    from set_coefficients_frame [OF r] have "con_name c = Single_assignment_name m"
      by (simp add: Constraint_frame)
    with c sub1 show "\<exists>c\<in>set (constraints sv). con_name c = Single_assignment_name m" by blast
  qed
  have B: "con_lb c = Finite 0 \<and> con_ub c = Finite 1
                 \<and> (\<forall>val. activity c val
                             = (\<Sum>(b, g, s)\<leftarrow>slots d. solution_value x val (m, b, g, s)))"
    if c: "c \<in> set (constraints sv)" and nm: "con_name c = Single_assignment_name m" for c m
  proof -
    note r = row [OF in1 [OF c nm] nm]
    from set_coefficients_frame [OF r] single_row_activity [OF r inj dsl]
    show ?thesis by (simp add: Constraint_frame)
  qed
  let ?ks = "slot_keys (mechanics d) (bases d) (periods d) (shifts d)"
  have ks: "?ks = List.product (mechanics d) (slots d)" by (simp add: slot_keys_def slots_def)
  have dom: "set ?ks \<subseteq> dom (map_of x)" unfolding ks using S(3) by simp
  have C: "\<exists>as t. extract_solution M val (mechanics d) (bases d) (periods d) (shifts d) (cost_dict d)
                   = Inr (as, t)" for val
    using extract_loop_total [OF dom, of val "cost_dict d" "([], Num 0)"] M(2)
    by (auto simp: extract_solution_def)
  have D: "length (filter (\<lambda>a. mechanic_id a = m) as) \<le> 1"
    if feas: "feasible sv val"
      and run: "extract_solution M val (mechanics d) (bases d) (periods d) (shifts d) (cost_dict d)
                   = Inr (as, t)"
    for val as t m
  proof (cases "m \<in> set (mechanics d)")
    case False
    from extract_solution_result [OF run] M(2)
    have as: "as = map (record_of (cost_dict d)) (filter (chosen x val) ?ks)" by auto
    have "filter (\<lambda>a. mechanic_id a = m) as = []"
      unfolding as ks filter_map o_def mechanic_id_record_of using False
      by (auto simp: filter_empty_conv)
    then show ?thesis by simp
  next
    case True
    from extract_solution_result [OF run] M(2)
    have as: "as = map (record_of (cost_dict d)) (filter (chosen x val) ?ks)" by auto
    have "length (filter (\<lambda>a. mechanic_id a = m) as)
            = length (filter (\<lambda>k. fst k = m) (filter (chosen x val) ?ks))"
      unfolding as filter_map o_def mechanic_id_record_of by simp
    also have "filter (\<lambda>k. fst k = m) (filter (chosen x val) ?ks)
                 = filter (chosen x val) (filter (\<lambda>k. fst k = m) ?ks)"
      by (simp add: conj_commute)
    also have "filter (\<lambda>k. fst k = m) ?ks = map (Pair m) (slots d)"
      unfolding ks using filter_fst_product [OF dm, of m "slots d"] True by simp
    also have "length (filter (chosen x val) (map (Pair m) (slots d)))
                 = length (filter (\<lambda>slot. chosen x val (m, slot)) (slots d))"
      by (simp add: filter_map o_def)
    finally have len: "length (filter (\<lambda>a. mechanic_id a = m) as)
                        = length (filter (\<lambda>slot. chosen x val (m, slot)) (slots d))" .
    from A True obtain c where c: "c \<in> set (constraints sv)"
      and nm: "con_name c = Single_assignment_name m" by blast
    from B [OF c nm] have ub: "con_ub c = Finite 1"
      and act: "activity c val = (\<Sum>(b, g, s)\<leftarrow>slots d. solution_value x val (m, b, g, s))"
      by blast+
    from feasible_satisfies [OF feas c] ub have le: "activity c val \<le> 1"
      by (simp add: satisfies_def)
    have act': "activity c val = sum_list (map (\<lambda>slot. solution_value x val (m, slot)) (slots d))"
      unfolding act by (simp add: split_def)
    have each: "\<forall>slot\<in>set (slots d). 0 \<le> solution_value x val (m, slot)
                  \<and> (chosen x val (m, slot) \<longrightarrow> 1 \<le> solution_value x val (m, slot))"
    proof
      fix slot assume "slot \<in> set (slots d)"
      with True have "(m, slot) \<in> dom (map_of x)" using S(3) by simp
      then obtain v where v: "map_of x (m, slot) = Some v" by auto
      from feasible_binary [OF feas S(5) [OF v]] have "val v = 0 \<or> val v = 1" .
      then show "0 \<le> solution_value x val (m, slot)
                  \<and> (chosen x val (m, slot) \<longrightarrow> 1 \<le> solution_value x val (m, slot))"
        using v by (auto simp: solution_value_def chosen_def selected_def)
    qed
    from count_le_sum [OF each] le act'
    have "real (length (filter (\<lambda>slot. chosen x val (m, slot)) (slots d))) \<le> 1" by simp
    with len show ?thesis by simp
  qed
  from M A B C D show ?thesis by blast
qed

theorem single_assignment_witness:
  "\<exists>M sv as t. create_model [''SCIP'', ''CBC''] (init_optimizer ''SCIP'') roster_example = Inr M
      \<and> self_solver M = Some sv \<and> feasible sv day_pair
      \<and> (\<exists>c. c \<in> set (constraints sv) \<and> con_name c = Single_assignment_name (Num 1)
             \<and> con_lb c = Finite 0 \<and> con_ub c = Finite 1)
      \<and> extract_solution M day_pair (mechanics roster_example) (bases roster_example)
           (periods roster_example) (shifts roster_example) (cost_dict roster_example) = Inr (as, t)
      \<and> map mechanic_id as = [Num 1, Num 2]
      \<and> length (filter (\<lambda>a. mechanic_id a = Num 1) as) \<le> 1"
proof -
  let ?d = roster_example
  from roster_example_builds obtain M where
    M: "create_model [''SCIP'', ''CBC''] (init_optimizer ''SCIP'') ?d = Inr M"
    by (rule succeedsE)
  have "case create_model [''SCIP'', ''CBC''] (init_optimizer ''SCIP'') ?d of
          Inl e \<Rightarrow> False
        | Inr M \<Rightarrow>
            (case self_solver M of
               None \<Rightarrow> False
             | Some sv \<Rightarrow> feasible sv day_pair)
            \<and> (case extract_solution M day_pair (mechanics ?d) (bases ?d) (periods ?d) (shifts ?d)
                       (cost_dict ?d) of
                 Inl e \<Rightarrow> False
               | Inr (as, t) \<Rightarrow> map mechanic_id as = [Num 1, Num 2])"
    by code_simp
  with M have 1: "case self_solver M of None \<Rightarrow> False | Some sv \<Rightarrow> feasible sv day_pair"
    and 2: "case extract_solution M day_pair (mechanics ?d) (bases ?d) (periods ?d) (shifts ?d)
                       (cost_dict ?d) of
                 Inl e \<Rightarrow> False
               | Inr (as, t) \<Rightarrow> map mechanic_id as = [Num 1, Num 2]"
    by simp_all
  from 1 obtain sv where sv: "self_solver M = Some sv" and feas: "feasible sv day_pair"
    by (cases "self_solver M") simp_all
  from 2 obtain as t where
    run: "extract_solution M day_pair (mechanics ?d) (bases ?d) (periods ?d) (shifts ?d)
            (cost_dict ?d) = Inr (as, t)"
    and ids: "map mechanic_id as = [Num 1, Num 2]"
    by (auto split: sum.splits)
  have dist: "distinct (mechanics ?d)" "distinct (bases ?d)" "distinct (periods ?d)"
    "distinct (shifts ?d)"
    by (simp_all add: roster_example_def)
  have m: "Num 1 \<in> set (mechanics ?d)" by (simp add: roster_example_def)
  from single_assignment [OF M dist] sv
  have A: "\<forall>m\<in>set (mechanics ?d). \<exists>c\<in>set (constraints sv). con_name c = Single_assignment_name m"
    and B: "\<forall>c\<in>set (constraints sv). \<forall>m. con_name c = Single_assignment_name m \<longrightarrow>
                 con_lb c = Finite 0 \<and> con_ub c = Finite 1"
    and D: "\<forall>val as t. feasible sv val \<longrightarrow>
                 extract_solution M val (mechanics ?d) (bases ?d) (periods ?d) (shifts ?d) (cost_dict ?d)
                   = Inr (as, t) \<longrightarrow>
                 (\<forall>m. length (filter (\<lambda>a. mechanic_id a = m) as) \<le> 1)"
    by auto
  from A m obtain c where c: "c \<in> set (constraints sv)" "con_name c = Single_assignment_name (Num 1)"
    by blast
  with B have b: "con_lb c = Finite 0" "con_ub c = Finite 1" by blast+
  from D feas run have le: "length (filter (\<lambda>a. mechanic_id a = Num 1) as) \<le> 1" by blast
  from c b have p: "\<exists>c. c \<in> set (constraints sv) \<and> con_name c = Single_assignment_name (Num 1)
             \<and> con_lb c = Finite 0 \<and> con_ub c = Finite 1"
    by blast
  show ?thesis
    by (rule exI [of _ M], rule exI [of _ sv], rule exI [of _ as], rule exI [of _ t])
       (intro conjI M sv feas p run ids le)
qed

section \<open>Avoidance pairs\<close>





















end
